(* ===== verification/Prelude.thy ===== *)
theory Prelude imports Complex_Main "HOL-Library.Char_ord" "HOL-Library.List_Lexorder" "HOL-Library.AList" "HOL-Library.Multiset" "HOL-Library.Word"
begin

text \<open>
  Shared vocabulary of the development.

  Go strings are byte strings, modelled as \<^typ>\<open>string\<close> (a list of 8-bit characters).
  The functions of Go's \<^verbatim>\<open>strings\<close>, \<^verbatim>\<open>strconv\<close>, \<^verbatim>\<open>sort\<close> and \<^verbatim>\<open>fmt\<close> packages that pgmem
  calls are modelled here.  Case folding and white space are those of ASCII: a byte of
  128 or more is a letter without case and no white space.

  A Go map that is only looked up is a \<^typ>\<open>'k \<Rightarrow> 'v option\<close>; a map the code iterates over is an
  association list with distinct keys, whose order stands for the unspecified iteration
  order.  The world outside the package (the SQL engine, the clock that cancels contexts,
  user callbacks) is a type \<^typ>\<open>'w\<close> that the operations thread through; a context is
  what \<^verbatim>\<open>ctx.Err()\<close> answers in a given world.
\<close>

named_theorems go_simps \<open>unfolding rules of the modelled Go library functions\<close>

section \<open>Result and map helpers\<close>

text \<open>Sequencing of two fallible steps: the early return \<^verbatim>\<open>if err != nil { return err }\<close>.\<close>

definition bind_sum :: "'e + 'a \<Rightarrow> ('a \<Rightarrow> 'e + 'b) \<Rightarrow> 'e + 'b" where
  "bind_sum r f = (case r of Inl e \<Rightarrow> Inl e | Inr a \<Rightarrow> f a)"

lemma bind_sum_simps [simp]:
  "bind_sum (Inl e) f = Inl e"
  "bind_sum (Inr a) f = f a"
  by (simp_all add: bind_sum_def)

lemma bind_sum_Inr_iff:
  "bind_sum r f = Inr b \<longleftrightarrow> (\<exists>a. r = Inr a \<and> f a = Inr b)"
  by (cases r) simp_all

lemma bind_sum_Inl_iff:
  "bind_sum r f = Inl e \<longleftrightarrow> r = Inl e \<or> (\<exists>a. r = Inr a \<and> f a = Inl e)"
  by (cases r) auto

lemma bind_sum_cong [fundef_cong]:
  assumes "r = s" and "\<And>a. s = Inr a \<Longrightarrow> f a = g a"
  shows "bind_sum r f = bind_sum s g"
  using assms by (cases s) simp_all

lemma concat_map_concat:
  "concat (map f (concat (map g xs))) = concat (map (\<lambda>x. concat (map f (g x))) xs)"
  by (induction xs) simp_all

section \<open>Bytes and strings\<close>

definition ascii_lower :: "char \<Rightarrow> char" where
  "ascii_lower c = (if 65 \<le> (of_char c :: nat) \<and> (of_char c :: nat) \<le> 90
     then char_of (of_char c + 32 :: nat) else c)"

definition ascii_upper :: "char \<Rightarrow> char" where
  "ascii_upper c = (if 97 \<le> (of_char c :: nat) \<and> (of_char c :: nat) \<le> 122
     then char_of (of_char c - 32 :: nat) else c)"

definition toLower :: "string \<Rightarrow> string" where
  "toLower s = map ascii_lower s"

definition toUpper :: "string \<Rightarrow> string" where
  "toUpper s = map ascii_upper s"

definition equalFold :: "string \<Rightarrow> string \<Rightarrow> bool" where
  "equalFold a b \<longleftrightarrow> toLower a = toLower b"

text \<open>ASCII white space: tab, newline, vertical tab, form feed, carriage return and space.\<close>

definition is_space :: "char \<Rightarrow> bool" where
  "is_space c \<longleftrightarrow> (of_char c :: nat) \<in> {9, 10, 11, 12, 13, 32}"

definition trimSpace :: "string \<Rightarrow> string" where
  "trimSpace s = rev (dropWhile is_space (rev (dropWhile is_space s)))"

text \<open>\<^verbatim>\<open>strings.Fields\<close>: the maximal runs without white space.\<close>

fun fields_go :: "string \<Rightarrow> string \<Rightarrow> string list" where
  "fields_go acc [] = (if acc = [] then [] else [rev acc])"
| "fields_go acc (c # cs) =
     (if is_space c then (if acc = [] then fields_go [] cs else rev acc # fields_go [] cs)
      else fields_go (c # acc) cs)"

definition strings_fields :: "string \<Rightarrow> string list" where
  "strings_fields s = fields_go [] s"

fun contains :: "string \<Rightarrow> string \<Rightarrow> bool" where
  "contains [] sub = (sub = [])"
| "contains (c # cs) sub = (take (length sub) (c # cs) = sub \<or> contains cs sub)"

text \<open>\<^verbatim>\<open>strings.ReplaceAll\<close> with a one-byte pattern, the only use in the package.\<close>

definition replaceAll :: "string \<Rightarrow> char \<Rightarrow> string \<Rightarrow> string" where
  "replaceAll s q r = concat (map (\<lambda>c. if c = q then r else [c]) s)"

fun join :: "string list \<Rightarrow> string \<Rightarrow> string" where
  "join [] sep = []"
| "join [x] sep = x"
| "join (x # y # xs) sep = x @ sep @ join (y # xs) sep"

text \<open>Decimal text of a count, the \<^verbatim>\<open>%d\<close> verb and \<^verbatim>\<open>strconv.FormatUint(n, 10)\<close>.\<close>

definition digit_char :: "nat \<Rightarrow> char" where
  "digit_char d = char_of (48 + d)"

fun decimal :: "nat \<Rightarrow> string" where
  "decimal n = (if n < 10 then [digit_char n] else decimal (n div 10) @ [digit_char (n mod 10)])"

declare decimal.simps [simp del]

text \<open>The \<^verbatim>\<open>%q\<close> verb on a string of printable ASCII, quote and backslash escaped.\<close>

definition go_quote :: "string \<Rightarrow> string" where
  "go_quote s = CHR 0x22 # concat (map (\<lambda>c. if c = CHR 0x22 \<or> c = CHR 0x5C then [CHR 0x5C, c] else [c]) s)
     @ [CHR 0x22]"

text \<open>\<^verbatim>\<open>sort.Strings\<close> orders byte strings lexicographically.\<close>

definition sort_strings :: "string list \<Rightarrow> string list" where
  "sort_strings xs = sort xs"

lemmas [go_simps] = toLower_def toUpper_def equalFold_def trimSpace_def replaceAll_def strings_fields_def

section \<open>Facts about strings\<close>

lemma ascii_lower_idem [simp]: "ascii_lower (ascii_lower c) = ascii_lower c"
proof (cases "65 \<le> (of_char c :: nat) \<and> (of_char c :: nat) \<le> 90")
  case True
  have "(of_char (char_of (of_char c + 32 :: nat) :: char) :: nat) = of_char c + 32"
    using True by (simp add: of_char_of take_bit_eq_mod)
  with True show ?thesis by (simp add: ascii_lower_def)
qed (auto simp: ascii_lower_def)

lemma toLower_idem [simp]: "toLower (toLower s) = toLower s"
  by (simp add: toLower_def)

lemma length_toLower [simp]: "length (toLower s) = length s"
  by (simp add: toLower_def)

lemma toLower_Nil_iff [simp]: "toLower s = [] \<longleftrightarrow> s = []"
  by (simp add: toLower_def)

lemma equalFold_toLower [simp]:
  "equalFold (toLower a) b = equalFold a b"
  "equalFold a (toLower b) = equalFold a b"
  by (simp_all add: equalFold_def)

lemma replaceAll_simps [simp]:
  "replaceAll [] q r = []"
  "replaceAll (c # cs) q r = (if c = q then r else [c]) @ replaceAll cs q r"
  by (simp_all add: replaceAll_def)

lemma contains_split: "contains s sub \<longleftrightarrow> (\<exists>u v. s = u @ sub @ v)"
proof (induction s)
  case (Cons c cs)
  have "(\<exists>u v. c # cs = u @ sub @ v) \<longleftrightarrow>
    (\<exists>v. c # cs = sub @ v) \<or> (\<exists>u v. cs = u @ sub @ v)"
    by (metis append_Cons append_Nil list.inject neq_Nil_conv)
  moreover have "(\<exists>v. c # cs = sub @ v) \<longleftrightarrow> take (length sub) (c # cs) = sub"
    by (metis append_eq_conv_conj append_take_drop_id)
  ultimately show ?case using Cons.IH by simp
qed simp

lemma decimal_nonempty [simp]: "decimal n \<noteq> []"
  by (subst decimal.simps) simp

lemma of_char_digit_char: "d < 10 \<Longrightarrow> (of_char (digit_char d) :: nat) = 48 + d"
  by (simp add: digit_char_def of_char_of take_bit_eq_mod)

lemma decimal_digits: "c \<in> set (decimal n) \<Longrightarrow> 48 \<le> (of_char c :: nat) \<and> (of_char c :: nat) \<le> 57"
proof (induction n rule: decimal.induct)
  case (1 n)
  show ?case
  proof (cases "n < 10")
    case True
    with "1.prems" show ?thesis by (simp add: decimal.simps [of n] of_char_digit_char)
  next
    case False
    with 1 show ?thesis by (auto simp: decimal.simps [of n] of_char_digit_char)
  qed
qed

text \<open>Reading the digits back: decimal text determines the number.\<close>

definition digits_value :: "string \<Rightarrow> nat" where
  "digits_value s = foldl (\<lambda>n c. 10 * n + (of_char c - 48)) 0 s"

lemma digits_value_decimal [simp]: "digits_value (decimal n) = n"
proof (induction n rule: decimal.induct)
  case (1 n)
  then show ?case
    by (cases "n < 10")
      (simp_all add: decimal.simps [of n] digits_value_def of_char_digit_char)
qed

lemma decimal_inject [simp]: "decimal m = decimal n \<longleftrightarrow> m = n"
  by (metis digits_value_decimal)

lemma sort_strings_perm: "mset xs = mset ys \<Longrightarrow> sort_strings xs = sort_strings ys"
  unfolding sort_strings_def by (metis mset_sort properties_for_sort sorted_sort)

lemma set_sort_strings [simp]: "set (sort_strings xs) = set xs"
  by (simp add: sort_strings_def)

lemma sorted_sort_strings [simp]: "sorted (sort_strings xs)"
  by (simp add: sort_strings_def)

lemma distinct_sort_strings [simp]: "distinct (sort_strings xs) = distinct xs"
  by (simp add: sort_strings_def)

lemma length_sort_strings [simp]: "length (sort_strings xs) = length xs"
  by (simp add: sort_strings_def)

end
