(* ===== verification/Errors.thy ===== *)
theory Errors imports Prelude
begin

text \<open>
  Models \<^verbatim>\<open>errors.go\<close> and the error mapping at the end of \<^verbatim>\<open>database.go\<close>: the sentinel
  errors, the SQLSTATE-carrying \<^verbatim>\<open>Error\<close> struct, its methods, \<^verbatim>\<open>executionError\<close> and
  \<^verbatim>\<open>sqlState\<close>.  A Go error is a value of \<open>go_error\<close>: a sentinel of the package, a
  sentinel of the standard library, an error of the SQLite driver, a plain text error, a
  wrapping made with \<^verbatim>\<open>fmt.Errorf\<close> and one \<^verbatim>\<open>%w\<close> verb (text before, cause, text after),
  or a pointer to the \<^verbatim>\<open>Error\<close> struct.
\<close>

section \<open>Error values\<close>

datatype sentinel =
    ErrClosed | ErrNoRows | ErrTooManyRows | ErrInvalidSchema | ErrUnsupported
  | ErrRelationNotFound | ErrSchemaChanged

datatype std_error =
    ContextCanceled | DeadlineExceeded | SqlErrNoRows | SqlErrTxDone | DriverErrBadConn | IoEOF

text \<open>
  The result codes of the SQLite driver that the package names; every other code is
  \<open>SQLITE_OTHER\<close>.
\<close>

datatype sqlite_code =
    SQLITE_CONSTRAINT_PRIMARYKEY | SQLITE_CONSTRAINT_UNIQUE | SQLITE_CONSTRAINT_NOTNULL
  | SQLITE_CONSTRAINT_FOREIGNKEY | SQLITE_CONSTRAINT_CHECK | SQLITE_BUSY | SQLITE_LOCKED
  | SQLITE_OTHER int

datatype go_error =
    Sentinel sentinel
  | Std std_error
  | SqliteError sqlite_code string
  | ErrorText string
  | Wrapf string go_error string
  | PgError error_struct
and error_struct =
  Error_struct (Code: string) (Message: string) (Statement: string) (Cause: "go_error option")

fun sentinel_text :: "sentinel \<Rightarrow> string" where
  "sentinel_text ErrClosed = ''pgmem: database is closed''"
| "sentinel_text ErrNoRows = ''pgmem: expected one row, got none''"
| "sentinel_text ErrTooManyRows = ''pgmem: expected one row, got many''"
| "sentinel_text ErrInvalidSchema = ''pgmem: invalid schema''"
| "sentinel_text ErrUnsupported = ''pgmem: unsupported PostgreSQL feature''"
| "sentinel_text ErrRelationNotFound = ''pgmem: relation does not exist''"
| "sentinel_text ErrSchemaChanged = ''pgmem: schema changed since backup''"

fun std_text :: "std_error \<Rightarrow> string" where
  "std_text ContextCanceled = ''context canceled''"
| "std_text DeadlineExceeded = ''context deadline exceeded''"
| "std_text SqlErrNoRows = ''sql: no rows in result set''"
| "std_text SqlErrTxDone = ''sql: transaction has already been committed or rolled back''"
| "std_text DriverErrBadConn = ''driver: bad connection''"
| "std_text IoEOF = ''EOF''"

section \<open>The methods of Error\<close>

text \<open>A nil receiver is \<^term>\<open>None\<close>.\<close>

definition Error_Error :: "error_struct option \<Rightarrow> string" where
  "Error_Error r = (case r of
     None \<Rightarrow> ''<nil>''
   | Some e \<Rightarrow>
       (if Code e = '''' then Message e
        else Message e @ '' (SQLSTATE '' @ Code e @ '')''))"

definition Error_Unwrap :: "error_struct option \<Rightarrow> go_error option" where
  "Error_Unwrap r = (case r of None \<Rightarrow> None | Some e \<Rightarrow> Cause e)"

definition Error_SQLState :: "error_struct option \<Rightarrow> string" where
  "Error_SQLState r = (case r of None \<Rightarrow> '''' | Some e \<Rightarrow> Code e)"

text \<open>The text of any error value, \<^verbatim>\<open>err.Error()\<close>.\<close>

fun error_text :: "go_error \<Rightarrow> string" where
  "error_text (Sentinel s) = sentinel_text s"
| "error_text (Std s) = std_text s"
| "error_text (SqliteError c m) = m"
| "error_text (ErrorText m) = m"
| "error_text (Wrapf p e s) = p @ error_text e @ s"
| "error_text (PgError e) = Error_Error (Some e)"

text \<open>The chain that \<^verbatim>\<open>errors.Is\<close> and \<^verbatim>\<open>errors.As\<close> follow.\<close>

fun error_chain :: "go_error \<Rightarrow> go_error list" where
  "error_chain (Wrapf p e s) = Wrapf p e s # error_chain e"
| "error_chain (PgError (Error_struct c m st (Some e))) =
     PgError (Error_struct c m st (Some e)) # error_chain e"
| "error_chain e = [e]"

text \<open>\<^verbatim>\<open>errors.Is\<close> against a sentinel, which is compared by identity.\<close>

definition errors_is :: "go_error \<Rightarrow> go_error \<Rightarrow> bool" where
  "errors_is e target \<longleftrightarrow> target \<in> set (error_chain e)"

text \<open>\<^verbatim>\<open>errors.As\<close> with a target of the driver's error type, and of type \<^verbatim>\<open>*Error\<close>.\<close>

fun first_sqlite :: "go_error list \<Rightarrow> (sqlite_code \<times> string) option" where
  "first_sqlite [] = None"
| "first_sqlite (SqliteError c m # es) = Some (c, m)"
| "first_sqlite (e # es) = first_sqlite es"

definition errors_as_sqlite :: "go_error \<Rightarrow> (sqlite_code \<times> string) option" where
  "errors_as_sqlite e = first_sqlite (error_chain e)"

fun first_pg :: "go_error list \<Rightarrow> error_struct option" where
  "first_pg [] = None"
| "first_pg (PgError x # es) = Some x"
| "first_pg (e # es) = first_pg es"

definition errors_as_Error :: "go_error \<Rightarrow> error_struct option" where
  "errors_as_Error e = first_pg (error_chain e)"

section \<open>SQLSTATE mapping\<close>

definition sqlState_of_code :: "sqlite_code \<Rightarrow> string option" where
  "sqlState_of_code c = (case c of
     SQLITE_CONSTRAINT_PRIMARYKEY \<Rightarrow> Some ''23505''
   | SQLITE_CONSTRAINT_UNIQUE \<Rightarrow> Some ''23505''
   | SQLITE_CONSTRAINT_NOTNULL \<Rightarrow> Some ''23502''
   | SQLITE_CONSTRAINT_FOREIGNKEY \<Rightarrow> Some ''23503''
   | SQLITE_CONSTRAINT_CHECK \<Rightarrow> Some ''23514''
   | SQLITE_BUSY \<Rightarrow> Some ''40001''
   | SQLITE_LOCKED \<Rightarrow> Some ''40001''
   | SQLITE_OTHER n \<Rightarrow> None)"

definition sqlState_of_text :: "string \<Rightarrow> string" where
  "sqlState_of_text text =
     (let message = toLower text in
      if contains message ''pgmem function'' then ''38000''
      else if contains message ''no such table'' then ''42P01''
      else if contains message ''no such column'' then ''42703''
      else if contains message ''syntax error'' then ''42601''
      else ''XX000'')"

definition sqlState :: "go_error \<Rightarrow> string" where
  "sqlState cause =
     (case errors_as_sqlite cause of
        Some (code, m) \<Rightarrow>
          (case sqlState_of_code code of
             Some state \<Rightarrow> state
           | None \<Rightarrow> sqlState_of_text (error_text cause))
      | None \<Rightarrow> sqlState_of_text (error_text cause))"

definition executionError :: "string \<Rightarrow> go_error \<Rightarrow> go_error" where
  "executionError statement cause =
     PgError (Error_struct (sqlState cause) (error_text cause) statement (Some cause))"

section \<open>Contexts\<close>

text \<open>
  A context is what its \<^verbatim>\<open>Err()\<close> answers in a given state of the world: a context can be
  cancelled between any two operations on the world.
\<close>

type_synonym 'w ctx = "'w \<Rightarrow> go_error option"

text \<open>\<^verbatim>\<open>context.Background()\<close>, and \<^verbatim>\<open>context.WithoutCancel\<close>, are never cancelled.\<close>

definition Background :: "'w ctx" where
  "Background w = None"

definition WithoutCancel :: "'w ctx \<Rightarrow> 'w ctx" where
  "WithoutCancel ctx w = None"

section \<open>Facts\<close>

lemma error_chain_self [simp]: "e \<in> set (error_chain e)"
  by (cases e rule: error_chain.cases) simp_all

lemma error_chain_nonempty [simp]: "error_chain e \<noteq> []"
  by (cases e rule: error_chain.cases) simp_all

lemma errors_is_self [simp]: "errors_is e e"
  by (simp add: errors_is_def)

lemma errors_is_Wrapf [simp]:
  "errors_is (Wrapf p e s) (Sentinel t) = errors_is e (Sentinel t)"
  "errors_is (Wrapf p e s) (Std t') = errors_is e (Std t')"
  by (simp_all add: errors_is_def)

lemma errors_is_PgError [simp]:
  "errors_is (PgError (Error_struct c m st (Some e))) (Sentinel t) = errors_is e (Sentinel t)"
  "errors_is (PgError (Error_struct c m st (Some e))) (Std t') = errors_is e (Std t')"
  "\<not> errors_is (PgError (Error_struct c m st None)) (Sentinel t)"
  by (simp_all add: errors_is_def)

lemma errors_is_atoms [simp]:
  "errors_is (Sentinel s) (Sentinel t) \<longleftrightarrow> s = t"
  "errors_is (Std s') (Std t') \<longleftrightarrow> s' = t'"
  "\<not> errors_is (Std s') (Sentinel t)"
  "\<not> errors_is (Sentinel s) (Std t')"
  "\<not> errors_is (ErrorText x) (Sentinel t)"
  "\<not> errors_is (ErrorText x) (Std t')"
  "\<not> errors_is (SqliteError c x) (Sentinel t)"
  "\<not> errors_is (SqliteError c x) (Std t')"
  by (auto simp: errors_is_def)

lemma errors_is_executionError [simp]:
  "errors_is (executionError st e) (Sentinel t) = errors_is e (Sentinel t)"
  "errors_is (executionError st e) (Std t') = errors_is e (Std t')"
  by (simp_all add: executionError_def)

lemma executionError_fields [simp]:
  "errors_as_Error (executionError st e) =
     Some (Error_struct (sqlState e) (error_text e) st (Some e))"
  by (simp add: executionError_def errors_as_Error_def)

definition sqlstates :: "string set" where
  "sqlstates = {''23505'', ''23502'', ''23503'', ''23514'', ''40001'', ''38000'', ''42P01'',
     ''42703'', ''42601'', ''XX000''}"

lemma sqlState_of_text_range: "sqlState_of_text t \<in> sqlstates"
  by (simp add: sqlState_of_text_def sqlstates_def Let_def)

lemma sqlState_range: "sqlState e \<in> sqlstates"
  using sqlState_of_text_range
  by (auto simp: sqlState_def sqlState_of_code_def sqlstates_def
      split: option.split prod.split sqlite_code.split)

lemma sqlstates_length: "s \<in> sqlstates \<Longrightarrow> length s = 5"
  by (auto simp: sqlstates_def)

lemma first_sqlite_Wrapf [simp]:
  "errors_as_sqlite (Wrapf p e s) = errors_as_sqlite e"
  "errors_as_sqlite (SqliteError c m) = Some (c, m)"
  "errors_as_sqlite (PgError (Error_struct c' m' st (Some e))) = errors_as_sqlite e"
  by (simp_all add: errors_as_sqlite_def)

lemma sqlState_wrapped_code:
  "sqlState (Wrapf p (SqliteError c m) s) =
     (case sqlState_of_code c of Some code \<Rightarrow> code | None \<Rightarrow> sqlState_of_text (p @ m @ s))"
  by (simp add: sqlState_def split: option.split)


end
