(* ===== verification/Values.thy ===== *)
theory Values imports Errors
begin

text \<open>
  Values, rows and results: the driver values a row holds, \<^verbatim>\<open>Row\<close> and \<^verbatim>\<open>Result\<close> of
  \<^verbatim>\<open>schema.go\<close>, \<^verbatim>\<open>cloneDriverValue\<close>, \<^verbatim>\<open>cloneArguments\<close>, \<^verbatim>\<open>cloneResult\<close> and
  \<^verbatim>\<open>materializeRows\<close>, and the conversion \<^verbatim>\<open>normalizeFunctionResult\<close> of \<^verbatim>\<open>function.go\<close>.
  Here a byte slice is its contents (\<^term>\<open>None\<close> for a nil slice).
\<close>

section \<open>Dynamic values\<close>

text \<open>
  The mathematical value of a Go floating-point number: a dyadic number \<open>m * 2 ^ e\<close> or a
  special value.  Widening a \<^verbatim>\<open>float32\<close> to a \<^verbatim>\<open>float64\<close> keeps the value.
\<close>

datatype gofloat = Dyadic int int | NegZero | PosInf | NegInf | NotANumber

text \<open>
  A value of type \<^verbatim>\<open>any\<close> by its dynamic type; \<open>VNamed\<close> is a \<^verbatim>\<open>sql.NamedArg\<close>, and \<open>VOther\<close>
  carries the name that \<^verbatim>\<open>%T\<close> prints.
\<close>

datatype govalue =
    VNil
  | VInt64 "64 word"
  | VFloat64 gofloat
  | VBool bool
  | VString string
  | VTime int
  | VBytes "string option"
  | VInt "64 word"
  | VInt8 "8 word"
  | VInt16 "16 word"
  | VInt32 "32 word"
  | VUint "64 word"
  | VUint8 "8 word"
  | VUint16 "16 word"
  | VUint32 "32 word"
  | VUint64 "64 word"
  | VFloat32 gofloat
  | VNamed string govalue
  | VOther string

text \<open>A Go map from column labels to values, iterated over in the order of the list.\<close>

type_synonym row = "(string \<times> govalue) list"

definition row_get :: "row \<Rightarrow> string \<Rightarrow> govalue" where
  "row_get r k = (case map_of r k of None \<Rightarrow> VNil | Some v \<Rightarrow> v)"

record result =
  Rows :: "row list option"
  RowCount :: "64 word"
  Command :: string

definition zero_result :: result where
  "zero_result = \<lparr>Rows = None, RowCount = 0, Command = ''''\<rparr>"

definition result_rows :: "result \<Rightarrow> row list" where
  "result_rows r = (case Rows r of None \<Rightarrow> [] | Some rs \<Rightarrow> rs)"

section \<open>Defensive copies\<close>

fun cloneDriverValue :: "govalue \<Rightarrow> govalue" where
  "cloneDriverValue (VBytes bytes) = VBytes (Some (case bytes of None \<Rightarrow> [] | Some b \<Rightarrow> b))"
| "cloneDriverValue v = v"

definition cloneArguments :: "govalue list \<Rightarrow> govalue list" where
  "cloneArguments arguments = map cloneDriverValue arguments"

definition cloneRow :: "row \<Rightarrow> row" where
  "cloneRow r = foldl (\<lambda>acc (column, v). AList.update column (cloneDriverValue v) acc) [] r"

definition cloneResult :: "result \<Rightarrow> result" where
  "cloneResult res = \<lparr>Rows = map_option (map cloneRow) (Rows res), RowCount = RowCount res, Command = Command res\<rparr>"

section \<open>Materialization\<close>

text \<open>
  What the package observes of a \<^verbatim>\<open>*sql.Rows\<close>: the answer of \<^verbatim>\<open>Columns()\<close>, the outcome of
  \<^verbatim>\<open>Scan\<close> for each row that \<^verbatim>\<open>Next()\<close> steps to, and what \<^verbatim>\<open>Err()\<close> says after the last.  A
  successful \<^verbatim>\<open>Scan\<close> fills one value per column.
\<close>

record rowset =
  rs_columns :: "go_error + string list"
  rs_scans :: "(go_error + govalue list) list"
  rs_err :: "go_error option"

definition scannedRow :: "string list \<Rightarrow> govalue list \<Rightarrow> row" where
  "scannedRow columns vals =
     foldl (\<lambda>acc (column, v). AList.update column (cloneDriverValue v) acc) [] (zip columns vals)"

fun scanRows :: "string list \<Rightarrow> (go_error + govalue list) list \<Rightarrow> row list \<Rightarrow> go_error + row list" where
  "scanRows columns [] acc = Inr acc"
| "scanRows columns (Inl e # scans) acc = Inl e"
| "scanRows columns (Inr vals # scans) acc =
     scanRows columns scans (acc @ [scannedRow columns vals])"

definition materializeRows :: "rowset \<Rightarrow> go_error + row list" where
  "materializeRows rows =
     bind_sum (rs_columns rows) (\<lambda>columns.
     bind_sum (scanRows columns (rs_scans rows) []) (\<lambda>res.
       case rs_err rows of Some e \<Rightarrow> Inl e | None \<Rightarrow> Inr res))"

section \<open>Normalizing the results of registered functions\<close>

definition int64_max :: nat where
  "int64_max = 9223372036854775807"

fun normalizeFunctionResult :: "govalue \<Rightarrow> go_error + govalue" where
  "normalizeFunctionResult VNil = Inr VNil"
| "normalizeFunctionResult (VInt64 w) = Inr (VInt64 w)"
| "normalizeFunctionResult (VFloat64 f) = Inr (VFloat64 f)"
| "normalizeFunctionResult (VBool b) = Inr (VBool b)"
| "normalizeFunctionResult (VString s) = Inr (VString s)"
| "normalizeFunctionResult (VTime t) = Inr (VTime t)"
| "normalizeFunctionResult (VBytes b) = Inr (cloneDriverValue (VBytes b))"
| "normalizeFunctionResult (VInt w) = Inr (VInt64 w)"
| "normalizeFunctionResult (VInt8 w) = Inr (VInt64 (scast w))"
| "normalizeFunctionResult (VInt16 w) = Inr (VInt64 (scast w))"
| "normalizeFunctionResult (VInt32 w) = Inr (VInt64 (scast w))"
| "normalizeFunctionResult (VUint w) =
     (if unat w > int64_max
      then Inl (ErrorText (''uint value '' @ decimal (unat w) @ '' overflows int64''))
      else Inr (VInt64 w))"
| "normalizeFunctionResult (VUint8 w) = Inr (VInt64 (ucast w))"
| "normalizeFunctionResult (VUint16 w) = Inr (VInt64 (ucast w))"
| "normalizeFunctionResult (VUint32 w) = Inr (VInt64 (ucast w))"
| "normalizeFunctionResult (VUint64 w) =
     (if unat w > int64_max
      then Inl (ErrorText (''uint64 value '' @ decimal (unat w) @ '' overflows int64''))
      else Inr (VInt64 w))"
| "normalizeFunctionResult (VFloat32 f) = Inr (VFloat64 f)"
| "normalizeFunctionResult (VNamed n v) = Inl (ErrorText ''unsupported scalar type sql.NamedArg'')"
| "normalizeFunctionResult (VOther T) = Inl (ErrorText (''unsupported scalar type '' @ T))"

text \<open>The values the SQL engine accepts from a function, \<^verbatim>\<open>driver.Value\<close>.\<close>

fun is_driver_value :: "govalue \<Rightarrow> bool" where
  "is_driver_value VNil = True"
| "is_driver_value (VInt64 w) = True"
| "is_driver_value (VFloat64 f) = True"
| "is_driver_value (VBool b) = True"
| "is_driver_value (VString s) = True"
| "is_driver_value (VTime t) = True"
| "is_driver_value (VBytes b) = True"
| "is_driver_value v = False"

text \<open>The integer a value of any Go integer type stands for.\<close>

fun int_of_value :: "govalue \<Rightarrow> int option" where
  "int_of_value (VInt64 w) = Some (sint w)"
| "int_of_value (VInt w) = Some (sint w)"
| "int_of_value (VInt8 w) = Some (sint w)"
| "int_of_value (VInt16 w) = Some (sint w)"
| "int_of_value (VInt32 w) = Some (sint w)"
| "int_of_value (VUint w) = Some (uint w)"
| "int_of_value (VUint8 w) = Some (uint w)"
| "int_of_value (VUint16 w) = Some (uint w)"
| "int_of_value (VUint32 w) = Some (uint w)"
| "int_of_value (VUint64 w) = Some (uint w)"
| "int_of_value v = None"

section \<open>Facts\<close>

text \<open>The fold that fills a Go map from a list of pairs: the last pair of a key wins.\<close>

lemma map_of_foldl_update:
  "map_of (foldl (\<lambda>acc (k, v). AList.update k (f v) acc) acc kvs) =
     (map_of acc) ++ (\<lambda>k. map_option f (map_of (rev kvs) k))"
proof (induction kvs arbitrary: acc)
  case (Cons kv kvs)
  obtain k v where "kv = (k, v)" by force
  then show ?case
    by (auto simp: Cons.IH update_conv map_add_def fun_eq_iff split: option.split)
qed (simp add: map_add_def fun_eq_iff)

lemma distinct_foldl_update:
  "distinct (map fst acc) \<Longrightarrow>
     distinct (map fst (foldl (\<lambda>acc (k, v). AList.update k (f v) acc) acc kvs))"
  by (induction kvs arbitrary: acc) (auto simp: distinct_update)

lemma distinct_cloneRow [simp]: "distinct (map fst (cloneRow r))"
  using distinct_foldl_update [of "[]" cloneDriverValue] by (simp add: cloneRow_def)

lemma distinct_scannedRow [simp]: "distinct (map fst (scannedRow cs vs))"
  using distinct_foldl_update [of "[]" cloneDriverValue] by (simp add: scannedRow_def)

lemma cloneDriverValue_idem [simp]: "cloneDriverValue (cloneDriverValue v) = cloneDriverValue v"
  by (cases v rule: cloneDriverValue.cases) simp_all

lemma map_of_cloneRow:
  assumes "distinct (map fst r)"
  shows "map_of (cloneRow r) k = map_option cloneDriverValue (map_of r k)"
proof -
  have "map_of (rev r) = map_of r"
    using assms by (simp add: map_of_inject_set flip: rev_map)
  then show ?thesis
    using map_of_foldl_update [of cloneDriverValue "[]" r] by (simp add: cloneRow_def)
qed

lemma scanRows_acc:
  "scanRows cs scans acc = bind_sum (scanRows cs scans []) (\<lambda>rs. Inr (acc @ rs))"
proof (induction scans arbitrary: acc)
  case (Cons s scans)
  then show ?case
  proof (cases s)
    case (Inr vals)
    show ?thesis
      using Cons.IH [of "acc @ [scannedRow cs vals]"] Cons.IH [of "[scannedRow cs vals]"] Inr
      by (cases "scanRows cs scans []") simp_all
  qed simp
qed simp

lemma scanRows_Inr_iff:
  "scanRows cs scans [] = Inr rs \<longleftrightarrow>
     (\<exists>vs. scans = map Inr vs \<and> rs = map (scannedRow cs) vs)"
proof (induction scans arbitrary: rs)
  case (Cons s scans)
  show ?case
  proof (cases s)
    case (Inr vals)
    then show ?thesis
      using scanRows_acc [of cs scans "[scannedRow cs vals]"]
      by (auto simp: bind_sum_Inr_iff Cons.IH Cons_eq_map_conv)
  qed (auto simp: Cons_eq_map_conv)
qed auto

lemma scannedRow_lookup:
  "map_of (scannedRow cs vs) k = map_option cloneDriverValue (map_of (rev (zip cs vs)) k)"
  using map_of_foldl_update [of cloneDriverValue "[]" "zip cs vs"] by (simp add: scannedRow_def)

lemma sint_of_small_uint:
  assumes "uint (w :: 64 word) < 9223372036854775808"
  shows "sint w = uint w"
proof -
  have "- (2 ^ 63) \<le> uint w" by (rule order_trans [of _ 0]) simp_all
  with assms show ?thesis by (simp add: sint_uint signed_take_bit_int_eq_self)
qed

lemma int64_max_less_iff: "int64_max < unat (w :: 64 word) \<longleftrightarrow> 9223372036854775808 \<le> uint w"
  unfolding int64_max_def by (subst uint_nat) presburger

lemma sint_scast_small [simp]:
  "sint (scast (w8 :: 8 word) :: 64 word) = sint w8"
  "sint (scast (w16 :: 16 word) :: 64 word) = sint w16"
  "sint (scast (w32 :: 32 word) :: 64 word) = sint w32"
  using sint_ge [of w8] sint_lt [of w8] sint_ge [of w16] sint_lt [of w16]
    sint_ge [of w32] sint_lt [of w32]
  by (simp_all add: signed_scast_eq signed_take_bit_int_eq_self)

lemma sint_ucast_small [simp]:
  "sint (ucast (w8 :: 8 word) :: 64 word) = uint w8"
  "sint (ucast (w16 :: 16 word) :: 64 word) = uint w16"
  "sint (ucast (w32 :: 32 word) :: 64 word) = uint w32"
  using uint_lt2p [of w8] uint_lt2p [of w16] uint_lt2p [of w32]
  by (simp_all add: sint_of_small_uint unsigned_ucast_eq take_bit_int_eq_self)

lemma narrow_words_below_int64 [simp]:
  "\<not> 9223372036854775808 \<le> uint (w8 :: 8 word)"
  "\<not> 9223372036854775808 \<le> uint (w16 :: 16 word)"
  "\<not> 9223372036854775808 \<le> uint (w32 :: 32 word)"
  "\<not> 9223372036854775808 \<le> sint (v8 :: 8 word)"
  "\<not> 9223372036854775808 \<le> sint (v16 :: 16 word)"
  "\<not> 9223372036854775808 \<le> sint (v32 :: 32 word)"
  "\<not> 9223372036854775808 \<le> sint (v64 :: 64 word)"
  using uint_lt2p [of w8] uint_lt2p [of w16] uint_lt2p [of w32]
    sint_lt [of v8] sint_lt [of v16] sint_lt [of v32] sint_lt [of v64] by simp_all

section \<open>Properties\<close>

text \<open>
  C29: normalizing the result of a registered function never changes the number it
  stands for and always yields a value the engine accepts: conversions from narrower
  signed and unsigned integers are exact, and the only rejected values are those of a
  foreign type and the unsigned values that do not fit an \<^verbatim>\<open>int64\<close>.
\<close>

theorem normalizeFunctionResult_exact:
  "(case normalizeFunctionResult v of
      Inr v' \<Rightarrow> is_driver_value v' \<and> int_of_value v' = int_of_value v
    | Inl e \<Rightarrow> \<not> is_driver_value v)
   \<and> (isl (normalizeFunctionResult v) \<longleftrightarrow>
        (\<exists>T. v = VOther T) \<or> (\<exists>n u. v = VNamed n u) \<or> (\<exists>i. int_of_value v = Some i \<and> 2 ^ 63 \<le> i))"
proof (cases v)
  case (VUint w)
  then show ?thesis by (auto simp: sint_of_small_uint int64_max_less_iff)
next
  case (VUint64 w)
  then show ?thesis by (auto simp: sint_of_small_uint int64_max_less_iff)
qed (simp_all)

text \<open>
  A query result is materialized completely or not at all: the rows returned are one
  per row the engine stepped to, in order, and they are returned only when the column
  list, every \<^verbatim>\<open>Scan\<close> and the final \<^verbatim>\<open>Err\<close> succeeded; each row maps a column label to a
  copy of the value of the last column of that label.
\<close>

theorem materializeRows_spec:
  "(materializeRows rows = Inr rs \<longleftrightarrow>
      (\<exists>cs vs. rs_columns rows = Inr cs \<and> rs_scans rows = map Inr vs \<and> rs_err rows = None
         \<and> rs = map (scannedRow cs) vs))
   \<and> map_of (scannedRow cs vs) k = map_option cloneDriverValue (map_of (rev (zip cs vs)) k)"
  by (auto simp: materializeRows_def bind_sum_Inr_iff scanRows_Inr_iff scannedRow_lookup
      split: option.splits)

end
