(* ===== verification/ProtoTree.thy ===== *)
theory ProtoTree imports Errors
begin

text \<open>
  PostgreSQL parse trees as pgmem sees them.  The parser \<^verbatim>\<open>pg_query_go\<close> is not part of the
  repository; the package walks its trees through protobuf reflection, so a tree is a
  protobuf message: its type and its populated fields in the order in which
  \<^verbatim>\<open>Message.Range\<close> visits them (an unspecified order: every statement about trees is for
  any order).  A scalar field holding its zero value is not populated.  Trees come from
  unmarshalling, so no message is shared and an update in place is a functional update.
\<close>

section \<open>Messages\<close>

datatype mkind =
    Node | RangeVar | TypeName | A_Expr | CreateStmt | Constraint | FuncCall | StringMsg | AConst
  | OtherMsg string

datatype scalar = SString string | SBool bool | SInt int | SEnum string

datatype msg = Msg (kind: mkind) (populated: "(string \<times> fvalue) list")
and fvalue = FScalar scalar | FMsg msg | FList "msg list"

text \<open>The messages a field holds: what the traversals of the package descend into.\<close>

fun submsgs :: "fvalue \<Rightarrow> msg list" where
  "submsgs (FScalar x) = []"
| "submsgs (FMsg m) = [m]"
| "submsgs (FList ms) = ms"

definition children :: "msg \<Rightarrow> msg list" where
  "children m = concat (map (\<lambda>(n, v). submsgs v) (populated m))"

fun msize :: "msg \<Rightarrow> nat" and fsize :: "fvalue \<Rightarrow> nat" where
  "msize (Msg k fs) = Suc (sum_list (map (\<lambda>(n, v). fsize v) fs))"
| "fsize (FScalar x) = 0"
| "fsize (FMsg m) = msize m"
| "fsize (FList ms) = sum_list (map msize ms)"

section \<open>Field access\<close>

definition get_field :: "string \<Rightarrow> msg \<Rightarrow> fvalue option" where
  "get_field f m = map_of (populated m) f"

definition get_string :: "string \<Rightarrow> msg \<Rightarrow> string" where
  "get_string f m = (case get_field f m of Some (FScalar (SString s)) \<Rightarrow> s | _ \<Rightarrow> '''')"

definition get_bool :: "string \<Rightarrow> msg \<Rightarrow> bool" where
  "get_bool f m = (case get_field f m of Some (FScalar (SBool b)) \<Rightarrow> b | _ \<Rightarrow> False)"

definition get_enum :: "string \<Rightarrow> msg \<Rightarrow> string" where
  "get_enum f m = (case get_field f m of Some (FScalar (SEnum e)) \<Rightarrow> e | _ \<Rightarrow> '''')"

definition get_msg :: "string \<Rightarrow> msg \<Rightarrow> msg option" where
  "get_msg f m = (case get_field f m of Some (FMsg x) \<Rightarrow> Some x | _ \<Rightarrow> None)"

definition get_list :: "string \<Rightarrow> msg \<Rightarrow> msg list" where
  "get_list f m = (case get_field f m of Some (FList xs) \<Rightarrow> xs | _ \<Rightarrow> [])"

definition set_field :: "string \<Rightarrow> fvalue \<Rightarrow> msg \<Rightarrow> msg" where
  "set_field f v m = Msg (kind m) (AList.update f v (populated m))"

definition clear_field :: "string \<Rightarrow> msg \<Rightarrow> msg" where
  "clear_field f m = Msg (kind m) (filter (\<lambda>(n, v). n \<noteq> f) (populated m))"

text \<open>Assigning a string field: the empty string leaves the field unpopulated.\<close>

definition set_string :: "string \<Rightarrow> string \<Rightarrow> msg \<Rightarrow> msg" where
  "set_string f s m = (if s = '''' then clear_field f m else set_field f (FScalar (SString s)) m)"

text \<open>The \<^verbatim>\<open>oneof\<close> wrapper \<^verbatim>\<open>Node\<close>: \<^verbatim>\<open>node.GetString_()\<close> is its string message, if that is set.\<close>

definition get_String :: "msg \<Rightarrow> msg option" where
  "get_String node = get_msg ''string'' node"

definition string_msg :: "string \<Rightarrow> msg" where
  "string_msg s = Msg StringMsg (if s = '''' then [] else [(''sval'', FScalar (SString s))])"

text \<open>\<^verbatim>\<open>pgquery.MakeStrNode\<close> and the node literal of \<^verbatim>\<open>rewritePostgreSQLType\<close>.\<close>

definition MakeStrNode :: "string \<Rightarrow> msg" where
  "MakeStrNode s = Msg Node [(''string'', FMsg (string_msg s))]"

text \<open>Updating in place what a populated field holds.\<close>

definition update_msg :: "string \<Rightarrow> (msg \<Rightarrow> msg) \<Rightarrow> msg \<Rightarrow> msg" where
  "update_msg f g m = (case get_field f m of Some (FMsg x) \<Rightarrow> set_field f (FMsg (g x)) m | _ \<Rightarrow> m)"

definition update_list :: "string \<Rightarrow> (msg \<Rightarrow> msg) \<Rightarrow> msg \<Rightarrow> msg" where
  "update_list f g m =
     (case get_field f m of Some (FList xs) \<Rightarrow> set_field f (FList (map g xs)) m | _ \<Rightarrow> m)"

text \<open>
  A statement of a parse result, and the functions of the parser package the code calls:
  \<^verbatim>\<open>MakeAConstStrNode\<close> builds the node of a string constant.
\<close>

record raw_stmt =
  Stmt :: "msg option"
  Stmt_location :: int
  Stmt_len :: int

record pg_query =
  Parse :: "string \<Rightarrow> go_error + raw_stmt list"
  Deparse :: "raw_stmt list \<Rightarrow> go_error + string"
  SplitWithParser :: "string \<Rightarrow> go_error + string list"
  MakeAConstStrNode :: "string \<Rightarrow> int \<Rightarrow> msg"

section \<open>Traversal\<close>

fun map_fvalue :: "(msg \<Rightarrow> msg) \<Rightarrow> fvalue \<Rightarrow> fvalue" where
  "map_fvalue f (FScalar x) = FScalar x"
| "map_fvalue f (FMsg m) = FMsg (f m)"
| "map_fvalue f (FList ms) = FList (map f ms)"

text \<open>
  \<^verbatim>\<open>message.Range\<close> with a body that replaces every message of a message field, a list
  field element by element.
\<close>

definition map_children :: "(msg \<Rightarrow> msg) \<Rightarrow> msg \<Rightarrow> msg" where
  "map_children f m = Msg (kind m) (map (\<lambda>(n, v). (n, map_fvalue f v)) (populated m))"

function all_msgs :: "msg \<Rightarrow> msg list" where
  "all_msgs m = m # concat (map all_msgs (children m))"
  by pat_completeness auto

lemma fsize_submsgs: "fsize v = sum_list (map msize (submsgs v))"
  by (cases v) simp_all

lemma msize_children: "msize m = Suc (sum_list (map msize (children m)))"
proof -
  have "sum_list (map (\<lambda>(n, v). fsize v) fs)
      = sum_list (map msize (concat (map (\<lambda>(n, v). submsgs v) fs)))" for fs :: "(string \<times> fvalue) list"
    by (induction fs) (auto simp: fsize_submsgs)
  then show ?thesis by (cases m) (simp add: children_def)
qed

lemma children_smaller [termination_simp]: "c \<in> set (children m) \<Longrightarrow> msize c < msize m"
  by (simp add: msize_children [of m] member_le_sum_list less_Suc_eq_le)

termination all_msgs
  by (relation "measure msize") (auto intro: children_smaller)

declare all_msgs.simps [simp del]

lemma msize_induct [case_names step]:
  assumes "\<And>m. (\<And>c. msize c < msize m \<Longrightarrow> P c) \<Longrightarrow> P m"
  shows "P m"
  using assms by (induction m rule: measure_induct_rule [of msize]) blast

lemma map_fvalue_cong:
  "v = w \<Longrightarrow> (\<And>m. m \<in> set (submsgs w) \<Longrightarrow> f m = g m) \<Longrightarrow> map_fvalue f v = map_fvalue g w"
  by (cases w) simp_all

lemma map_children_cong [fundef_cong]:
  assumes "m = m'" and "\<And>c. c \<in> set (children m') \<Longrightarrow> f c = g c"
  shows "map_children f m = map_children g m'"
  using assms by (auto simp: map_children_def children_def intro!: map_fvalue_cong)

section \<open>Facts\<close>

lemma children_iff:
  "c \<in> set (children m) \<longleftrightarrow> (\<exists>n v. (n, v) \<in> set (populated m) \<and> c \<in> set (submsgs v))"
  by (force simp: children_def)

lemma child_of_field [intro]:
  "(n, v) \<in> set (populated m) \<Longrightarrow> c \<in> set (submsgs v) \<Longrightarrow> c \<in> set (children m)"
  by (auto simp: children_iff)

lemma kind_map_children [simp]: "kind (map_children f m) = kind m"
  by (simp add: map_children_def)

lemma kind_set [simp]:
  "kind (set_field f v m) = kind m" "kind (clear_field f m) = kind m"
  "kind (set_string f s m) = kind m"
  by (simp_all add: set_field_def clear_field_def set_string_def)

lemma get_field_map_children:
  "get_field n (map_children f m) = map_option (map_fvalue f) (get_field n m)"
  by (simp add: get_field_def map_children_def map_of_map)

lemma get_string_map_children [simp]: "get_string n (map_children f m) = get_string n m"
  by (auto simp: get_string_def get_field_map_children map_option_case
      split: option.split fvalue.split)

lemma get_bool_map_children [simp]: "get_bool n (map_children f m) = get_bool n m"
  by (auto simp: get_bool_def get_field_map_children map_option_case
      split: option.split fvalue.split)

lemma get_enum_map_children [simp]: "get_enum n (map_children f m) = get_enum n m"
  by (auto simp: get_enum_def get_field_map_children map_option_case
      split: option.split fvalue.split)

lemma get_msg_map_children [simp]:
  "get_msg n (map_children f m) = map_option f (get_msg n m)"
  by (auto simp: get_msg_def get_field_map_children map_option_case
      split: option.split fvalue.split)

lemma get_list_map_children [simp]: "get_list n (map_children f m) = map f (get_list n m)"
  by (auto simp: get_list_def get_field_map_children map_option_case
      split: option.split fvalue.split)

lemma children_map_children [simp]: "children (map_children f m) = map f (children m)"
proof -
  have "submsgs (map_fvalue f v) = map f (submsgs v)" for v by (cases v) simp_all
  then show ?thesis
    by (simp add: children_def map_children_def map_concat comp_def split_def)
qed

lemma get_field_set [simp]:
  "get_field n (set_field f v m) = (if n = f then Some v else get_field n m)"
  "get_field n (clear_field f m) = (if n = f then None else get_field n m)"
proof -
  show "get_field n (set_field f v m) = (if n = f then Some v else get_field n m)"
    by (simp add: get_field_def set_field_def update_conv')
  have "map_of (filter (\<lambda>(k, v). k \<noteq> f) xs) n = (if n = f then None else map_of xs n)"
    for xs :: "(string \<times> fvalue) list"
    by (induction xs) auto
  then show "get_field n (clear_field f m) = (if n = f then None else get_field n m)"
    by (simp add: get_field_def clear_field_def)
qed

lemma get_string_set_string [simp]:
  "get_string n (set_string f s m) = (if n = f then s else get_string n m)"
  by (simp add: get_string_def set_string_def)

lemma get_msg_set_string [simp]:
  "n \<noteq> f \<Longrightarrow> get_msg n (set_string f s m) = get_msg n m"
  "n \<noteq> f \<Longrightarrow> get_list n (set_string f s m) = get_list n m"
  "n \<noteq> f \<Longrightarrow> get_enum n (set_string f s m) = get_enum n m"
  by (simp_all add: get_msg_def get_list_def get_enum_def set_string_def)

lemma get_field_child:
  "get_field f m = Some v \<Longrightarrow> c \<in> set (submsgs v) \<Longrightarrow> c \<in> set (children m)"
  by (force simp: get_field_def children_def dest: map_of_SomeD)

lemma get_msg_child: "get_msg f m = Some c \<Longrightarrow> c \<in> set (children m)"
  by (rule get_field_child [of f m "FMsg c"])
    (auto simp: get_msg_def split: option.splits fvalue.splits)

lemma get_list_child: "c \<in> set (get_list f m) \<Longrightarrow> c \<in> set (children m)"
  using get_field_child [of f m "FList (get_list f m)" c]
  by (cases "get_field f m") (auto simp: get_list_def split: fvalue.splits)

lemma all_msgs_self [simp]: "m \<in> set (all_msgs m)"
  by (subst all_msgs.simps) simp

lemma all_msgs_iff:
  "x \<in> set (all_msgs m) \<longleftrightarrow> x = m \<or> (\<exists>c \<in> set (children m). x \<in> set (all_msgs c))"
  by (subst all_msgs.simps) auto

lemma all_msgs_trans:
  "x \<in> set (all_msgs y) \<Longrightarrow> y \<in> set (all_msgs m) \<Longrightarrow> x \<in> set (all_msgs m)"
proof (induction m rule: msize_induct)
  case (step m)
  then show ?case
    by (metis all_msgs_iff children_smaller)
qed

text \<open>Updating a field exchanges the messages under it and leaves the others alone.\<close>

lemma msize_set_field:
  "msize (set_field f v m) + (case get_field f m of None \<Rightarrow> 0 | Some w \<Rightarrow> fsize w) = msize m + fsize v"
proof -
  have "sum_list (map (\<lambda>(n, v). fsize v) (AList.update f v fs))
      + (case map_of fs f of None \<Rightarrow> 0 | Some w \<Rightarrow> fsize w)
      = sum_list (map (\<lambda>(n, v). fsize v) fs) + fsize v" for fs
    by (induction fs) auto
  then show ?thesis by (cases m) (simp add: set_field_def get_field_def)
qed

lemma msize_clear_field: "msize (clear_field f m) \<le> msize m"
proof -
  have "sum_list (map (\<lambda>(n, v). fsize v) (filter (\<lambda>(n, v). n \<noteq> f) fs))
      \<le> sum_list (map (\<lambda>(n, v). fsize v) fs)" for fs
    by (induction fs) auto
  then show ?thesis by (cases m) (simp add: clear_field_def)
qed

lemma msize_set_string: "msize (set_string f s m) \<le> msize m"
  using msize_set_field [of f "FScalar (SString s)" m] msize_clear_field [of f m]
  by (simp add: set_string_def)

lemma children_set_field:
  "set (children (set_field f v m)) \<subseteq> set (submsgs v) \<union> set (children m)"
proof -
  have "set (AList.update f v fs) \<subseteq> insert (f, v) (set fs)" for fs :: "(string \<times> fvalue) list"
    by (induction fs) auto
  then show ?thesis by (fastforce simp: set_field_def children_def)
qed

lemma children_clear_field: "set (children (clear_field f m)) \<subseteq> set (children m)"
  by (auto simp: clear_field_def children_def)

lemma children_set_string: "set (children (set_string f s m)) \<subseteq> set (children m)"
  using children_set_field [of f "FScalar (SString s)" m] children_clear_field [of f m]
  by (auto simp: set_string_def)

lemma get_String_MakeStrNode [simp]: "get_String (MakeStrNode s) = Some (string_msg s)"
  by (simp add: get_String_def MakeStrNode_def get_msg_def get_field_def)

lemma get_string_string_msg [simp]: "get_string ''sval'' (string_msg s) = s"
  by (simp add: string_msg_def get_string_def get_field_def)

lemma kind_update [simp]:
  "kind (update_msg f g m) = kind m" "kind (update_list f g m) = kind m"
  by (simp_all add: update_msg_def update_list_def split: option.split fvalue.split)

lemma get_field_update:
  "get_field n (update_list f g m) =
     (if n = f then map_option (\<lambda>v. case v of FList xs \<Rightarrow> FList (map g xs) | _ \<Rightarrow> v) (get_field f m)
      else get_field n m)"
  "get_field n (update_msg f g m) =
     (if n = f then map_option (\<lambda>v. case v of FMsg x \<Rightarrow> FMsg (g x) | _ \<Rightarrow> v) (get_field f m)
      else get_field n m)"
  by (auto simp: update_list_def update_msg_def split: option.split fvalue.split)

lemma msize_update_list:
  assumes "\<And>x. msize (g x) \<le> msize x"
  shows "msize (update_list f g m) \<le> msize m"
proof (cases "get_field f m")
  case (Some v)
  show ?thesis
  proof (cases v)
    case (FList xs)
    have "sum_list (map (msize \<circ> g) xs) \<le> sum_list (map msize xs)"
      by (rule sum_list_mono) (simp add: assms)
    with Some FList msize_set_field [of f "FList (map g xs)" m] show ?thesis
      by (simp add: update_list_def)
  qed (simp_all add: update_list_def Some)
qed (simp add: update_list_def)

lemma msize_update_msg:
  assumes "\<And>x. msize (g x) \<le> msize x"
  shows "msize (update_msg f g m) \<le> msize m"
proof (cases "get_field f m")
  case (Some v)
  show ?thesis
  proof (cases v)
    case (FMsg x)
    with Some msize_set_field [of f "FMsg (g x)" m] assms [of x] show ?thesis
      by (simp add: update_msg_def)
  qed (simp_all add: update_msg_def Some)
qed (simp add: update_msg_def)

lemma children_update_list:
  assumes "c \<in> set (children (update_list f g m))"
  shows "c \<in> set (children m) \<or> (\<exists>x \<in> set (get_list f m). c = g x)"
proof (cases "get_field f m")
  case (Some v)
  with assms show ?thesis
  proof (cases v)
    case (FList xs)
    with Some assms children_set_field [of f "FList (map g xs)" m] show ?thesis
      by (auto simp: update_list_def get_list_def)
  qed (auto simp: update_list_def)
qed (use assms in \<open>auto simp: update_list_def\<close>)

lemma map_children_id:
  assumes "\<And>c. c \<in> set (children m) \<Longrightarrow> f c = c"
  shows "map_children f m = m"
proof -
  have "map_fvalue f v = v" if "\<And>c. c \<in> set (submsgs v) \<Longrightarrow> f c = c" for v
    using that by (cases v) (simp_all add: map_idI)
  then have "map (\<lambda>(n, v). (n, map_fvalue f v)) (populated m) = populated m"
    using assms by (intro map_idI) (force simp: children_def)
  then show ?thesis by (cases m) (simp add: map_children_def)
qed

lemma msize_pos [simp]: "0 < msize m"
  by (simp add: msize_children)

lemma msize_MakeStrNode [simp]: "msize (MakeStrNode s) = 2"
  by (simp add: MakeStrNode_def string_msg_def)

lemma get_String_msize:
  assumes "get_String n = Some s"
  shows "2 \<le> msize n"
proof -
  have "msize s < msize n"
    using assms by (auto simp: get_String_def intro: get_msg_child children_smaller)
  moreover have "0 < msize s" by simp
  ultimately show ?thesis by linarith
qed

end
