(* ===== verification/Quoting.thy ===== *)
theory Quoting imports Prelude
begin

text \<open>
  The quoting of SQL text: \<^verbatim>\<open>quoteIdentifier\<close> (\<^verbatim>\<open>database.go\<close>), \<^verbatim>\<open>quoteStringLiteral\<close> and
  \<^verbatim>\<open>engineSchemaName\<close> (\<^verbatim>\<open>backup.go\<close>) and \<^verbatim>\<open>internalName\<close> (\<^verbatim>\<open>table.go\<close>), and the schema
  name pattern.  The contract of a quoting function is a locale: a scanner of the quoted
  form reads back exactly the quoted text and stops at its end, whatever follows.
\<close>

section \<open>Quoting functions\<close>

definition quoteIdentifier :: "string \<Rightarrow> string" where
  "quoteIdentifier identifier =
     [CHR 0x22] @ replaceAll identifier (CHR 0x22) [CHR 0x22, CHR 0x22] @ [CHR 0x22]"

definition quoteStringLiteral :: "string \<Rightarrow> string" where
  "quoteStringLiteral value =
     [CHR 0x27] @ replaceAll value (CHR 0x27) [CHR 0x27, CHR 0x27] @ [CHR 0x27]"

definition engineSchemaName :: "string \<Rightarrow> string" where
  "engineSchemaName name = (if name = ''public'' then ''main'' else name)"

text \<open>\<^verbatim>\<open>Schema.internalName\<close> of a schema with the given name.\<close>

definition internalName :: "string \<Rightarrow> string" where
  "internalName name = (if name = ''public'' then ''main'' else name)"

section \<open>Schema names\<close>

definition name_start :: "char \<Rightarrow> bool" where
  "name_start c \<longleftrightarrow> (let n = (of_char c :: nat) in
     65 \<le> n \<and> n \<le> 90 \<or> 97 \<le> n \<and> n \<le> 122 \<or> n = 95)"

definition name_rest :: "char \<Rightarrow> bool" where
  "name_rest c \<longleftrightarrow> (let n = (of_char c :: nat) in
     name_start c \<or> 48 \<le> n \<and> n \<le> 57 \<or> n = 36)"

text \<open>\<^verbatim>\<open>^[A-Za-z_][A-Za-z0-9_$]*$\<close>, where \<^verbatim>\<open>$\<close> is the end of the text.\<close>

fun schemaNamePattern :: "string \<Rightarrow> bool" where
  "schemaNamePattern [] = False"
| "schemaNamePattern (c # cs) = (name_start c \<and> list_all name_rest cs)"

section \<open>Reading quoted text back\<close>

text \<open>
  How SQL reads text delimited by a quote character \<open>q\<close>: a doubled \<open>q\<close> stands for one, a
  single \<open>q\<close> ends the text.  The result is the text and what follows it.
\<close>

fun scan_body :: "char \<Rightarrow> string \<Rightarrow> (string \<times> string) option" where
  "scan_body q [] = None"
| "scan_body q [c] = (if c = q then Some ([], []) else None)"
| "scan_body q (c # d # cs) =
     (if c = q then
        (if d = q then map_option (apfst ((#) q)) (scan_body q cs) else Some ([], d # cs))
      else map_option (apfst ((#) c)) (scan_body q (d # cs)))"

fun scan_quoted :: "char \<Rightarrow> string \<Rightarrow> (string \<times> string) option" where
  "scan_quoted q [] = None"
| "scan_quoted q (c # cs) = (if c = q then scan_body q cs else None)"

definition ends_quote :: "char \<Rightarrow> string \<Rightarrow> bool" where
  "ends_quote q rest \<longleftrightarrow> (case rest of [] \<Rightarrow> True | c # _ \<Rightarrow> c \<noteq> q)"

locale quoting =
  fixes quote :: "string \<Rightarrow> string" and scan :: "string \<Rightarrow> (string \<times> string) option"
    and delim :: "char"
  assumes scan_quote: "ends_quote delim rest \<Longrightarrow> scan (quote s @ rest) = Some (s, rest)"
begin

lemma quote_inject: "quote s = quote t \<longleftrightarrow> s = t"
proof
  assume eq: "quote s = quote t"
  have "ends_quote delim []" by (simp add: ends_quote_def)
  then show "s = t"
    using scan_quote [of "[]" s] scan_quote [of "[]" t] eq by simp
qed simp

text \<open>
  Two quoted texts followed by anything that does not extend the quote can only be equal
  when the quoted texts are: quoted text cannot leak into its context.
\<close>

lemma quote_prefix_free:
  assumes "quote s @ u = quote t @ v" and "ends_quote delim u" and "ends_quote delim v"
  shows "s = t \<and> u = v"
proof -
  have "Some (s, u) = Some (t, v)"
    using scan_quote [OF assms(2), of s] scan_quote [OF assms(3), of t]
    unfolding assms(1) by (rule trans [OF sym])
  then show ?thesis by simp
qed

end

lemma scan_body_replace:
  assumes "ends_quote q rest"
  shows "scan_body q (replaceAll s q [q, q] @ q # rest) = Some (s, rest)"
proof (induction s)
  case Nil
  with assms show ?case by (cases rest) (auto simp: ends_quote_def)
next
  case (Cons c cs)
  obtain d ds where tail: "replaceAll cs q [q, q] @ q # rest = d # ds"
    by (cases "replaceAll cs q [q, q] @ q # rest") auto
  show ?case
  proof (cases "c = q")
    case True
    with Cons.IH show ?thesis by (simp add: apfst_def map_prod_def)
  next
    case False
    with Cons.IH show ?thesis by (simp add: tail apfst_def map_prod_def)
  qed
qed

interpretation ident: quoting quoteIdentifier "scan_quoted (CHR 0x22)" "CHR 0x22"
  by unfold_locales (simp add: quoteIdentifier_def scan_body_replace)

interpretation strlit: quoting quoteStringLiteral "scan_quoted (CHR 0x27)" "CHR 0x27"
  by unfold_locales (simp add: quoteStringLiteral_def scan_body_replace)

section \<open>Facts\<close>

lemma internalName_engineSchemaName: "internalName n = engineSchemaName n"
  by (simp add: internalName_def engineSchemaName_def)

lemma engineSchemaName_inject:
  "m \<noteq> ''main'' \<Longrightarrow> n \<noteq> ''main'' \<Longrightarrow> engineSchemaName m = engineSchemaName n \<longleftrightarrow> m = n"
  by (auto simp: engineSchemaName_def)

lemma name_rest_ascii: "name_rest c \<Longrightarrow> (of_char c :: nat) < 128"
  by (auto simp: name_rest_def name_start_def Let_def)

lemma schemaNamePattern_ascii:
  "schemaNamePattern s \<Longrightarrow> c \<in> set s \<Longrightarrow> (of_char c :: nat) < 128"
  by (cases s) (auto simp: list_all_iff name_rest_def dest: name_rest_ascii
      intro: name_rest_ascii [unfolded name_rest_def])

lemma scan_body_replace_quote:
  "scan_body q (replaceAll s q [q, q] @ q # q # r) = map_option (apfst (\<lambda>t. s @ q # t)) (scan_body q r)"
proof (induction s)
  case Nil
  show ?case by simp
next
  case (Cons c cs)
  obtain d ds where tail: "replaceAll cs q [q, q] @ q # q # r = d # ds"
    by (cases "replaceAll cs q [q, q] @ q # q # r") auto
  show ?case
  proof (cases "c = q")
    case True
    with Cons.IH show ?thesis
      by (simp add: option.map_comp comp_def apfst_def map_prod_def split_def)
  next
    case False
    have "scan_body q (c # d # ds) = map_option (apfst ((#) c)) (scan_body q (d # ds))"
      using False by simp
    with Cons.IH False show ?thesis
      by (simp add: tail option.map_comp comp_def apfst_def map_prod_def split_def)
  qed
qed

lemma scan_body_exact:
  "scan_body q (replaceAll s q [q, q] @ q # rest) = Some (s, rest) \<longleftrightarrow> ends_quote q rest"
proof (cases "ends_quote q rest")
  case False
  then obtain r where "rest = q # r" by (auto simp: ends_quote_def split: list.splits)
  with False show ?thesis by (auto simp: scan_body_replace_quote)
qed (simp add: scan_body_replace)

section \<open>Properties\<close>

text \<open>
  C31: quoting is exact: the engine, reading a quoted identifier or string literal inside a
  statement, gets back the very text that was quoted and continues with the text that
  follows it, whatever characters the quoted text holds, unless the statement goes on with
  another quote character; and different texts have different quoted forms.
\<close>

theorem quoting_exact:
  "(scan_quoted (CHR 0x22) (quoteIdentifier s @ rest) = Some (s, rest)
      \<longleftrightarrow> ends_quote (CHR 0x22) rest)
   \<and> (scan_quoted (CHR 0x27) (quoteStringLiteral s @ rest) = Some (s, rest)
      \<longleftrightarrow> ends_quote (CHR 0x27) rest)
   \<and> (quoteIdentifier s = quoteIdentifier t \<longleftrightarrow> s = t)
   \<and> (quoteStringLiteral s = quoteStringLiteral t \<longleftrightarrow> s = t)"
  by (simp add: ident.quote_inject strlit.quote_inject)
    (simp add: quoteIdentifier_def quoteStringLiteral_def scan_body_exact)

end
