(* ===== verification/Functions.thy ===== *)
theory Functions imports Values ProtoTree Quoting
begin

text \<open>
  Models \<^verbatim>\<open>function.go\<close>: the registry of scalar functions with its overloads, the rewriting
  of calls to registered functions into calls of the one dispatcher function the engine
  knows, and the dispatcher itself.  A registered implementation is an opaque token of
  type \<^typ>\<open>'f\<close>; what calling it does is a parameter.
\<close>

section \<open>The registry\<close>

definition dispatchFunctionName :: string where
  "dispatchFunctionName = ''__pgmem_dispatch_749c9c9e''"

record 'f scalar_fn =
  fn_Name :: string
  Arity :: int
  Variadic :: bool
  Implementation :: "'f option"

record 'f functionOverloads =
  fixed :: "(int \<times> 'f) list"
  variadic :: "(int \<times> 'f) option"

type_synonym 'f functionRegistry = "(string \<times> (string \<times> 'f functionOverloads) list) list"

definition empty_overloads :: "'f functionOverloads" where
  "empty_overloads = \<lparr>fixed = [], variadic = None\<rparr>"

text \<open>\<^verbatim>\<open>bySchema[schemaName][functionName]\<close>; indexing an absent inner map finds nothing.\<close>

definition overloads_of :: "'f functionRegistry \<Rightarrow> string \<Rightarrow> string \<Rightarrow> 'f functionOverloads option" where
  "overloads_of r schemaName functionName =
     (case map_of r schemaName of None \<Rightarrow> None | Some functions \<Rightarrow> map_of functions functionName)"

definition has :: "'f functionRegistry \<Rightarrow> string \<Rightarrow> string \<Rightarrow> bool" where
  "has r schemaName functionName \<longleftrightarrow> overloads_of r schemaName functionName \<noteq> None"

definition hasAny :: "'f functionRegistry \<Rightarrow> bool" where
  "hasAny r \<longleftrightarrow> length r > 0"

definition implementation :: "'f functionRegistry \<Rightarrow> string \<Rightarrow> string \<Rightarrow> int \<Rightarrow> 'f option" where
  "implementation r schemaName functionName arity =
     (case overloads_of r schemaName functionName of
        None \<Rightarrow> None
      | Some overloads \<Rightarrow>
          (case map_of (fixed overloads) arity of
             Some impl \<Rightarrow> Some impl
           | None \<Rightarrow>
               (case variadic overloads of
                  Some (minimum, impl) \<Rightarrow> if arity \<ge> minimum then Some impl else None
                | None \<Rightarrow> None)))"

text \<open>The argument checks of \<^verbatim>\<open>RegisterFunction\<close>: the implementation, or the error.\<close>

definition validFunction :: "'f scalar_fn \<Rightarrow> go_error + 'f" where
  "validFunction f =
     (if \<not> schemaNamePattern (fn_Name f) \<or> equalFold (fn_Name f) dispatchFunctionName
      then Inl (ErrorText (''pgmem: invalid function name '' @ go_quote (fn_Name f)))
      else if Arity f < 0
      then Inl (ErrorText (''pgmem: function '' @ go_quote (fn_Name f) @ '' arity must not be negative''))
      else (case Implementation f of
          None \<Rightarrow> Inl (ErrorText (''pgmem: function '' @ go_quote (fn_Name f) @ '' implementation must not be nil''))
        | Some impl \<Rightarrow> Inr impl))"

definition addOverload :: "string \<Rightarrow> string \<Rightarrow> int \<Rightarrow> bool \<Rightarrow> 'f \<Rightarrow> 'f functionRegistry \<Rightarrow> 'f functionRegistry" where
  "addOverload schemaName name arity isVariadic impl r =
     (let functions = (case map_of r schemaName of None \<Rightarrow> [] | Some fs \<Rightarrow> fs);
          overloads = (case map_of functions name of None \<Rightarrow> empty_overloads | Some os \<Rightarrow> os);
          overloads' = (if isVariadic then overloads\<lparr>variadic := Some (arity, impl)\<rparr>
            else overloads\<lparr>fixed := AList.update arity impl (fixed overloads)\<rparr>)
      in AList.update schemaName (AList.update name overloads' functions) r)"

text \<open>
  \<^verbatim>\<open>(*Schema).RegisterFunction\<close>: \<open>s\<close> is the name of the receiving schema, \<^term>\<open>None\<close> when the
  receiver or its database is nil; \<open>isClosed\<close> is the state of the database.
\<close>

definition RegisterFunction ::
  "string option \<Rightarrow> bool \<Rightarrow> 'f scalar_fn \<Rightarrow> 'f functionRegistry \<Rightarrow> go_error + 'f functionRegistry" where
  "RegisterFunction s isClosed f r =
     (case s of
        None \<Rightarrow> Inl (Sentinel ErrClosed)
      | Some schemaName \<Rightarrow>
          bind_sum (validFunction f) (\<lambda>impl.
            if isClosed then Inl (Sentinel ErrClosed)
            else Inr (addOverload schemaName (toLower (fn_Name f)) (Arity f) (Variadic f) impl r)))"

section \<open>Calls in a tree\<close>

definition plainScalarCall :: "msg \<Rightarrow> bool" where
  "plainScalarCall call \<longleftrightarrow>
     \<not> get_bool ''agg_star'' call \<and> \<not> get_bool ''agg_distinct'' call
     \<and> length (get_list ''agg_order'' call) = 0
     \<and> get_msg ''agg_filter'' call = None \<and> get_msg ''over'' call = None
     \<and> \<not> get_bool ''func_variadic'' call"

fun nameParts :: "msg list \<Rightarrow> string list option" where
  "nameParts [] = Some []"
| "nameParts (node # nodes) =
     (case get_String node of
        None \<Rightarrow> None
      | Some name \<Rightarrow> map_option ((#) (get_string ''sval'' name)) (nameParts nodes))"

definition functionNameParts :: "msg \<Rightarrow> string list option" where
  "functionNameParts call = nameParts (get_list ''funcname'' call)"

definition calledFunction :: "msg \<Rightarrow> string \<Rightarrow> (string \<times> string) option" where
  "calledFunction call defaultSchema =
     (let public = (\<lambda>s. if s = ''main'' then ''public'' else s) in
      case functionNameParts call of
        Some [n] \<Rightarrow> Some (public defaultSchema, toLower n)
      | Some [s, n] \<Rightarrow> Some (public s, toLower n)
      | _ \<Rightarrow> None)"

definition callsDispatcher :: "msg \<Rightarrow> bool" where
  "callsDispatcher call =
     (case functionNameParts call of
        None \<Rightarrow> False
      | Some parts \<Rightarrow> length parts > 0 \<and> equalFold (last parts) dispatchFunctionName)"

definition routeCall :: "pg_query \<Rightarrow> string \<Rightarrow> string \<Rightarrow> string \<Rightarrow> msg \<Rightarrow> msg" where
  "routeCall pq dispatchID schemaName functionName call =
     (let arguments = [MakeAConstStrNode pq dispatchID (-1), MakeAConstStrNode pq schemaName (-1),
            MakeAConstStrNode pq functionName (-1)] @ get_list ''args'' call
      in set_field ''location'' (FScalar (SInt (-1)))
           (set_field ''args'' (FList arguments)
             (set_field ''funcname'' (FList [MakeStrNode dispatchFunctionName]) call)))"

text \<open>What \<^verbatim>\<open>rewriteFunctionTree\<close> does with a message after its fields.\<close>

definition rewriteCall ::
  "pg_query \<Rightarrow> string \<Rightarrow> 'f functionRegistry \<Rightarrow> string \<Rightarrow> msg \<Rightarrow> bool \<Rightarrow> go_error + msg \<times> bool" where
  "rewriteCall pq dispatchID r defaultSchema message changed =
     (if kind message \<noteq> FuncCall then Inr (message, changed)
      else if callsDispatcher message then Inl (Sentinel ErrUnsupported)
      else if \<not> plainScalarCall message then Inr (message, changed)
      else (case calledFunction message defaultSchema of
          None \<Rightarrow> Inr (message, changed)
        | Some (schemaName, functionName) \<Rightarrow>
            if \<not> has r schemaName functionName then Inr (message, changed)
            else Inr (routeCall pq dispatchID schemaName functionName message, True)))"

text \<open>
  \<^verbatim>\<open>message.Range\<close> with a body that may fail: the messages of the fields in turn, the flag
  threaded through, stopping at the first error.
\<close>

fun trav_list :: "(msg \<Rightarrow> bool \<Rightarrow> 'e + msg \<times> bool) \<Rightarrow> msg list \<Rightarrow> bool \<Rightarrow> 'e + msg list \<times> bool" where
  "trav_list f [] c = Inr ([], c)"
| "trav_list f (m # ms) c =
     bind_sum (f m c) (\<lambda>(m', c1). bind_sum (trav_list f ms c1) (\<lambda>(ms', c2). Inr (m' # ms', c2)))"

fun trav_field :: "(msg \<Rightarrow> bool \<Rightarrow> 'e + msg \<times> bool) \<Rightarrow> fvalue \<Rightarrow> bool \<Rightarrow> 'e + fvalue \<times> bool" where
  "trav_field f (FScalar x) c = Inr (FScalar x, c)"
| "trav_field f (FMsg m) c = bind_sum (f m c) (\<lambda>(m', c'). Inr (FMsg m', c'))"
| "trav_field f (FList ms) c = bind_sum (trav_list f ms c) (\<lambda>(ms', c'). Inr (FList ms', c'))"

fun trav_fields ::
  "(msg \<Rightarrow> bool \<Rightarrow> 'e + msg \<times> bool) \<Rightarrow> (string \<times> fvalue) list \<Rightarrow> bool \<Rightarrow> 'e + (string \<times> fvalue) list \<times> bool" where
  "trav_fields f [] c = Inr ([], c)"
| "trav_fields f ((n, v) # fs) c =
     bind_sum (trav_field f v c) (\<lambda>(v', c1).
       bind_sum (trav_fields f fs c1) (\<lambda>(fs', c2). Inr ((n, v') # fs', c2)))"

definition trav_children :: "(msg \<Rightarrow> bool \<Rightarrow> 'e + msg \<times> bool) \<Rightarrow> msg \<Rightarrow> bool \<Rightarrow> 'e + msg \<times> bool" where
  "trav_children f m c = bind_sum (trav_fields f (populated m) c) (\<lambda>(fs, c'). Inr (Msg (kind m) fs, c'))"

lemma trav_list_cong:
  "(\<And>x c. x \<in> set ms \<Longrightarrow> f x c = g x c) \<Longrightarrow> trav_list f ms c = trav_list g ms c"
  by (induction ms arbitrary: c) (auto intro!: bind_sum_cong)

lemma trav_children_cong [fundef_cong]:
  assumes "m = m'" and "c = c'" and "\<And>x c. x \<in> set (children m') \<Longrightarrow> f x c = g x c"
  shows "trav_children f m c = trav_children g m' c'"
proof -
  have field: "trav_field f v c = trav_field g v c" if "\<And>x c. x \<in> set (submsgs v) \<Longrightarrow> f x c = g x c" for v c
    using that by (cases v) (auto intro!: bind_sum_cong trav_list_cong)
  have fields: "trav_fields f fs c = trav_fields g fs c"
    if "\<And>n v x c. (n, v) \<in> set fs \<Longrightarrow> x \<in> set (submsgs v) \<Longrightarrow> f x c = g x c" for fs c
    using that
  proof (induction fs arbitrary: c)
    case (Cons nv fs)
    obtain n v where nv: "nv = (n, v)" by force
    have "trav_field f v c = trav_field g v c" for c
      using Cons.prems [of n v] by (intro field) (simp add: nv)
    moreover have "trav_fields f fs c = trav_fields g fs c" for c
      using Cons.prems by (intro Cons.IH) (meson list.set_intros(2))
    ultimately show ?case by (simp add: nv)
  qed simp
  have "trav_fields f (populated m') c' = trav_fields g (populated m') c'"
    by (intro fields) (use assms(3) child_of_field in blast)
  then show ?thesis using assms(1,2) by (simp add: trav_children_def)
qed

function rewriteFunctionTree ::
  "pg_query \<Rightarrow> string \<Rightarrow> 'f functionRegistry \<Rightarrow> string \<Rightarrow> msg \<Rightarrow> bool \<Rightarrow> go_error + msg \<times> bool" where
  "rewriteFunctionTree pq dispatchID r defaultSchema message changed =
     bind_sum (trav_children (rewriteFunctionTree pq dispatchID r defaultSchema) message changed)
       (\<lambda>(message', changed'). rewriteCall pq dispatchID r defaultSchema message' changed')"
  by pat_completeness auto
termination
  by (relation "measure (\<lambda>(pq, d, r, s, m, c). msize m)") (auto intro: children_smaller)

declare rewriteFunctionTree.simps [simp del]

section \<open>Translated statements\<close>

fun rewriteStmts ::
  "pg_query \<Rightarrow> string \<Rightarrow> 'f functionRegistry \<Rightarrow> string \<Rightarrow> raw_stmt list \<Rightarrow> bool \<Rightarrow> go_error + raw_stmt list \<times> bool" where
  "rewriteStmts pq dispatchID r defaultSchema [] changed = Inr ([], changed)"
| "rewriteStmts pq dispatchID r defaultSchema (raw # raws) changed =
     bind_sum
       (case Stmt raw of
          None \<Rightarrow> Inr (raw, changed)
        | Some m \<Rightarrow> bind_sum (rewriteFunctionTree pq dispatchID r defaultSchema m changed)
            (\<lambda>(m', changed'). Inr (raw\<lparr>Stmt := Some m'\<rparr>, changed')))
       (\<lambda>(raw', changed1). bind_sum (rewriteStmts pq dispatchID r defaultSchema raws changed1)
          (\<lambda>(raws', changed2). Inr (raw' # raws', changed2)))"

definition rewriteRegisteredFunctions ::
  "pg_query \<Rightarrow> string \<Rightarrow> 'f functionRegistry \<Rightarrow> 'w ctx \<Rightarrow> string \<Rightarrow> string \<Rightarrow> string \<Rightarrow> 'w \<Rightarrow> go_error + string" where
  "rewriteRegisteredFunctions pq dispatchID r ctx defaultSchema source statement w =
     (case ctx w of
        Some e \<Rightarrow> Inl e
      | None \<Rightarrow>
          if \<not> hasAny r \<and> \<not> contains (toLower statement) dispatchFunctionName then Inr statement
          else (case Parse pq statement of
              Inl e \<Rightarrow> Inl (Wrapf ''pgmem: parse translated statement for registered functions: '' e '''')
            | Inr parsed \<Rightarrow>
                (case rewriteStmts pq dispatchID r defaultSchema parsed False of
                   Inl e \<Rightarrow> Inl (PgError (Error_struct ''0A000''
                     ''pgmem: internal function dispatcher cannot be called directly'' source
                     (Some (Sentinel ErrUnsupported))))
                 | Inr (stmts, changed) \<Rightarrow>
                     if \<not> changed then Inr statement
                     else (case Deparse pq stmts of
                         Inl e \<Rightarrow> Inl (Wrapf ''pgmem: deparse registered function call: '' e '''')
                       | Inr rewritten \<Rightarrow> Inr (trimSpace rewritten)))))"

section \<open>The dispatcher\<close>

text \<open>
  What a call of an implementation does: it returns a value and an error, or panics with an
  error value, or panics with another value, given by what \<^verbatim>\<open>%v\<close> prints of it.
\<close>

datatype scalar_outcome =
    Returned govalue "go_error option"
  | PanickedError go_error
  | PanickedValue string

definition function_label :: "string \<Rightarrow> string \<Rightarrow> string" where
  "function_label schemaName functionName = ''pgmem function '' @ schemaName @ ''.'' @ functionName"

definition invokeScalarFunction ::
  "('f \<Rightarrow> govalue list \<Rightarrow> 'w \<Rightarrow> scalar_outcome \<times> 'w)
     \<Rightarrow> string \<Rightarrow> string \<Rightarrow> 'f \<Rightarrow> govalue list \<Rightarrow> 'w \<Rightarrow> (go_error + govalue) \<times> 'w" where
  "invokeScalarFunction call schemaName functionName impl arguments w =
     (let label = function_label schemaName functionName in
      case call impl arguments w of
        (PanickedError e, w') \<Rightarrow> (Inl (Wrapf (label @ '' panicked: '') e ''''), w')
      | (PanickedValue v, w') \<Rightarrow> (Inl (ErrorText (label @ '' panicked: '' @ v)), w')
      | (Returned v (Some e), w') \<Rightarrow> (Inl (Wrapf (label @ '' failed: '') e ''''), w')
      | (Returned v None, w') \<Rightarrow>
          (case normalizeFunctionResult v of
             Inl e \<Rightarrow> (Inl (Wrapf (label @ '' returned an invalid value: '') e ''''), w')
           | Inr v' \<Rightarrow> (Inr v', w')))"

text \<open>
  \<open>functionDatabases\<close> is the process-wide map from dispatch identifiers to databases, here
  to their function registries.
\<close>

definition dispatchScalarFunction ::
  "('f \<Rightarrow> govalue list \<Rightarrow> 'w \<Rightarrow> scalar_outcome \<times> 'w)
     \<Rightarrow> (string \<Rightarrow> 'f functionRegistry option) \<Rightarrow> govalue list \<Rightarrow> 'w \<Rightarrow> (go_error + govalue) \<times> 'w" where
  "dispatchScalarFunction call functionDatabases arguments w =
     (case arguments of
        a # b # c # rest \<Rightarrow>
          (case (a, b, c) of
             (VString databaseID, VString schemaName, VString functionName) \<Rightarrow>
               (case functionDatabases databaseID of
                  None \<Rightarrow> (Inl (ErrorText (function_label schemaName functionName @ '': database is closed'')), w)
                | Some functions \<Rightarrow>
                    (case implementation functions schemaName functionName (int (length rest)) of
                       None \<Rightarrow> (Inl (ErrorText (function_label schemaName functionName
                         @ '': no overload accepts '' @ decimal (length rest) @ '' arguments'')), w)
                     | Some impl \<Rightarrow>
                         invokeScalarFunction call schemaName functionName impl (map cloneDriverValue rest) w))
           | _ \<Rightarrow> (Inl (ErrorText ''pgmem function dispatcher: invalid routing arguments''), w))
      | _ \<Rightarrow> (Inl (ErrorText ''pgmem function dispatcher: expected routing arguments''), w))"

end
