(* ===== verification/Translator.thy ===== *)
theory Translator imports ProtoTree Quoting
begin

text \<open>
  Models \<^verbatim>\<open>translator.go\<close>: the rewriting of a PostgreSQL parse tree into the dialect of the
  embedded engine.  Relations are pinned to an engine schema, type names are mapped to
  storage types, \<^verbatim>\<open>ILIKE\<close> becomes \<^verbatim>\<open>LIKE\<close>, and the qualifier of a foreign key target is
  removed when it names the schema of the table being created.
\<close>

section \<open>Node rewrites\<close>

definition rewriteRangeVar :: "string \<Rightarrow> msg \<Rightarrow> msg" where
  "rewriteRangeVar defaultSchema node =
     (let schemaname = get_string ''schemaname'' node in
      if schemaname = ''public'' then set_string ''schemaname'' ''main'' node
      else if schemaname = '''' \<and> defaultSchema = ''public'' then set_string ''schemaname'' ''main'' node
      else if schemaname = '''' then set_string ''schemaname'' defaultSchema node
      else node)"

definition type_table :: "(string \<times> string) list" where
  "type_table =
     [(''bigserial'', ''integer''), (''bytea'', ''blob''), (''int2'', ''integer''),
      (''int4'', ''integer''), (''int8'', ''integer''), (''jsonb'', ''json''),
      (''serial'', ''integer''), (''serial2'', ''integer''), (''serial4'', ''integer''),
      (''serial8'', ''integer''), (''smallserial'', ''integer''),
      (''timestamptz'', ''timestamp''), (''uuid'', ''text'')]"

definition rewritePostgreSQLType :: "msg \<Rightarrow> msg" where
  "rewritePostgreSQLType typeName =
     (let names = get_list ''names'' typeName in
      if names = [] then typeName
      else (case get_String (last names) of
          None \<Rightarrow> typeName
        | Some lastName \<Rightarrow>
            (case map_of type_table (toLower (get_string ''sval'' lastName)) of
               None \<Rightarrow> typeName
             | Some mapped \<Rightarrow> set_field ''names'' (FList [MakeStrNode mapped]) typeName)))"

definition rewriteOperator :: "msg \<Rightarrow> msg" where
  "rewriteOperator operator =
     (if get_string ''sval'' operator = ''~~*'' then set_string ''sval'' ''~~'' operator
      else if get_string ''sval'' operator = ''!~~*'' then set_string ''sval'' ''!~~'' operator
      else operator)"

definition rewriteILike :: "msg \<Rightarrow> msg" where
  "rewriteILike node =
     (if get_enum ''kind'' node = ''AEXPR_ILIKE''
      then update_list ''name'' (update_msg ''string'' rewriteOperator)
             (set_field ''kind'' (FScalar (SEnum ''AEXPR_LIKE'')) node)
      else node)"

definition rewriteNode :: "string \<Rightarrow> msg \<Rightarrow> msg" where
  "rewriteNode defaultSchema m = (case kind m of
     RangeVar \<Rightarrow> rewriteRangeVar defaultSchema m
   | TypeName \<Rightarrow> rewritePostgreSQLType m
   | A_Expr \<Rightarrow> rewriteILike m
   | _ \<Rightarrow> m)"

definition clearConstraint :: "string \<Rightarrow> msg \<Rightarrow> msg" where
  "clearConstraint tableSchema m =
     (if kind m = Constraint then
        (case get_msg ''pktable'' m of
           Some pktable \<Rightarrow>
             (if get_string ''schemaname'' pktable = tableSchema
              then set_field ''pktable'' (FMsg (set_string ''schemaname'' '''' pktable)) m
              else m)
         | None \<Rightarrow> m)
      else m)"

lemma msize_clearConstraint: "msize (clearConstraint ts m) \<le> msize m"
proof (cases "get_msg ''pktable'' m")
  case (Some pk)
  then have "get_field ''pktable'' m = Some (FMsg pk)"
    by (auto simp: get_msg_def split: option.splits fvalue.splits)
  with Some msize_set_field [of "''pktable''" "FMsg (set_string ''schemaname'' '''' pk)" m]
    msize_set_string [of "''schemaname''" "''''" pk]
  show ?thesis by (simp add: clearConstraint_def)
qed (simp add: clearConstraint_def)

lemma msize_rewritePostgreSQLType: "msize (rewritePostgreSQLType m) \<le> msize m"
proof -
  have "msize (set_field ''names'' (FList [MakeStrNode t]) m) \<le> msize m"
    if ne: "get_list ''names'' m \<noteq> []" and str: "get_String (last (get_list ''names'' m)) = Some l" for t l
  proof -
    let ?ns = "get_list ''names'' m"
    have "get_field ''names'' m = Some (FList ?ns)"
      using ne by (auto simp: get_list_def split: option.splits fvalue.splits)
    moreover have "2 \<le> sum_list (map msize ?ns)"
      using get_String_msize [OF str] member_le_sum_list [of "msize (last ?ns)" "map msize ?ns"] ne
      by simp
    ultimately show ?thesis
      using msize_set_field [of "''names''" "FList [MakeStrNode t]" m] by simp
  qed
  then show ?thesis
    by (auto simp: rewritePostgreSQLType_def Let_def split: option.split)
qed

lemma msize_rewriteILike: "msize (rewriteILike m) \<le> msize m"
proof -
  have "msize (set_field ''kind'' (FScalar x) m) \<le> msize m" for x
    using msize_set_field [of "''kind''" "FScalar x" m] by simp
  moreover have "msize (rewriteOperator op) \<le> msize op" for op
    by (simp add: rewriteOperator_def msize_set_string)
  ultimately show ?thesis
    by (auto simp: rewriteILike_def intro!: order_trans [OF msize_update_list] msize_update_msg)
qed

lemma msize_rewriteNode: "msize (rewriteNode ds m) \<le> msize m"
  by (simp add: rewriteNode_def rewriteRangeVar_def Let_def msize_set_string
      msize_rewritePostgreSQLType msize_rewriteILike split: mkind.split)

section \<open>Tree rewrites\<close>

function clearSameSchemaForeignKeyQualifiers :: "string \<Rightarrow> msg \<Rightarrow> msg" where
  "clearSameSchemaForeignKeyQualifiers tableSchema m =
     map_children (clearSameSchemaForeignKeyQualifiers tableSchema) (clearConstraint tableSchema m)"
  by pat_completeness auto
termination
  by (relation "measure (\<lambda>(s, m). msize m)")
    (auto intro: less_le_trans [OF children_smaller msize_clearConstraint])

definition finishCreateStmt :: "msg \<Rightarrow> msg" where
  "finishCreateStmt m =
     (if kind m = CreateStmt then
        (case get_msg ''relation'' m of
           Some relation \<Rightarrow>
             update_list ''table_elts''
               (clearSameSchemaForeignKeyQualifiers (get_string ''schemaname'' relation)) m
         | None \<Rightarrow> m)
      else m)"

function rewritePostgreSQLTree :: "string \<Rightarrow> msg \<Rightarrow> msg" where
  "rewritePostgreSQLTree defaultSchema m =
     finishCreateStmt (map_children (rewritePostgreSQLTree defaultSchema) (rewriteNode defaultSchema m))"
  by pat_completeness auto
termination
  by (relation "measure (\<lambda>(s, m). msize m)")
    (auto intro: less_le_trans [OF children_smaller msize_rewriteNode])

declare clearSameSchemaForeignKeyQualifiers.simps [simp del] rewritePostgreSQLTree.simps [simp del]

section \<open>The default translator\<close>

type_synonym 'w translator = "'w ctx \<Rightarrow> string \<Rightarrow> string \<Rightarrow> 'w \<Rightarrow> (go_error + string) \<times> 'w"

definition defaultTranslate :: "pg_query \<Rightarrow> 'w translator" where
  "defaultTranslate pq ctx defaultSchema statement w =
     (case ctx w of
        Some e \<Rightarrow> (Inl e, w)
      | None \<Rightarrow>
          (case Parse pq statement of
             Inl e \<Rightarrow>
               (Inl (PgError (Error_struct ''42601'' ''invalid PostgreSQL syntax'' statement (Some e))), w)
           | Inr parsed \<Rightarrow>
               (case Deparse pq (map (\<lambda>raw. raw\<lparr>Stmt := map_option (rewritePostgreSQLTree defaultSchema) (Stmt raw)\<rparr>) parsed) of
                  Inl e \<Rightarrow> (Inl (Wrapf ''deparse PostgreSQL AST: '' e ''''), w)
                | Inr translated \<Rightarrow> (Inr (trimSpace translated), w))))"

end
