(* ===== verification/State.thy ===== *)
theory State imports Functions Translator
begin

text \<open>
  The state a \<^verbatim>\<open>DB\<close> value keeps (\<^verbatim>\<open>database.go\<close>) with its schemas (\<^verbatim>\<open>schema.go\<close>), their query
  interceptors (\<^verbatim>\<open>intercept.go\<close>) and the registered functions, and the environment its
  operations call: the parser, the translator, the SQL engine behind \<^verbatim>\<open>database/sql\<close> and the
  user's callbacks.  What the environment does is a parameter: an operation of the
  environment transforms the whole state, because a callback may call the package again.

  A \<^verbatim>\<open>*Schema\<close> is the name of the schema (\<^term>\<open>None\<close> for nil): the database creates one
  \<^verbatim>\<open>Schema\<close> for a name and never drops it.
\<close>

section \<open>The state of a database\<close>

record 'i interceptorRegistration =
  reg_id :: "64 word"
  interceptor :: 'i

record 'i interceptorRegistry =
  nextID :: "64 word"
  entries :: "'i interceptorRegistration list"

text \<open>
  The fields of \<^verbatim>\<open>DB\<close>, with the map of schemas in some order; \<open>outside\<close> is the state of
  everything else: the SQL connection, files, other databases, the caller.
\<close>

record ('f, 'i, 'o) DB =
  schemas :: "(string \<times> 'i interceptorRegistry) list"
  dispatchID :: string
  fn_registry :: "'f functionRegistry"
  db_closed :: bool
  outside :: 'o

definition empty_interceptors :: "'i interceptorRegistry" where
  "empty_interceptors = \<lparr>nextID = 0, entries = []\<rparr>"

definition interceptors_of :: "('f, 'i, 'o) DB \<Rightarrow> string \<Rightarrow> 'i interceptorRegistry" where
  "interceptors_of db name =
     (case map_of (schemas db) name of None \<Rightarrow> empty_interceptors | Some reg \<Rightarrow> reg)"

definition set_interceptors :: "string \<Rightarrow> 'i interceptorRegistry \<Rightarrow> ('f, 'i, 'o) DB \<Rightarrow> ('f, 'i, 'o) DB" where
  "set_interceptors name reg db = db\<lparr>schemas := AList.update name reg (schemas db)\<rparr>"

definition isClosed :: "('f, 'i, 'o) DB \<Rightarrow> bool" where
  "isClosed db = db_closed db"

section \<open>The environment\<close>

text \<open>A successful \<^verbatim>\<open>sql.Result\<close> is the answer of its \<^verbatim>\<open>RowsAffected()\<close>.\<close>

type_synonym exec_result = "go_error + 64 word"

text \<open>
  The operations of \<^verbatim>\<open>*sql.DB\<close> and \<^verbatim>\<open>*sql.Tx\<close> that run statements; a transaction is known by
  a number.  \<open>DB_QueryRowScan\<close> is \<^verbatim>\<open>QueryRowContext\<close> with \<^verbatim>\<open>Scan\<close>, whose error is that of
  either.  The rows of a query are given with all that stepping through them yields, and the
  state is that after they have been closed.
\<close>

record 'w sql_engine =
  DB_ExecContext :: "'w ctx \<Rightarrow> string \<Rightarrow> govalue list \<Rightarrow> 'w \<Rightarrow> (go_error + exec_result) \<times> 'w"
  DB_QueryContext :: "'w ctx \<Rightarrow> string \<Rightarrow> govalue list \<Rightarrow> 'w \<Rightarrow> (go_error + rowset) \<times> 'w"
  DB_QueryRowScan :: "'w ctx \<Rightarrow> string \<Rightarrow> govalue list \<Rightarrow> 'w \<Rightarrow> go_error option \<times> 'w"
  DB_BeginTx :: "'w ctx \<Rightarrow> 'w \<Rightarrow> (go_error + nat) \<times> 'w"
  Tx_ExecContext :: "nat \<Rightarrow> 'w ctx \<Rightarrow> string \<Rightarrow> govalue list \<Rightarrow> 'w \<Rightarrow> (go_error + exec_result) \<times> 'w"
  Tx_QueryContext :: "nat \<Rightarrow> 'w ctx \<Rightarrow> string \<Rightarrow> govalue list \<Rightarrow> 'w \<Rightarrow> (go_error + rowset) \<times> 'w"
  Tx_Commit :: "nat \<Rightarrow> 'w \<Rightarrow> go_error option \<times> 'w"
  Tx_Rollback :: "nat \<Rightarrow> 'w \<Rightarrow> go_error option \<times> 'w"
  DB_Close :: "'w \<Rightarrow> go_error option \<times> 'w"

record ('i, 'w) env =
  parser :: pg_query
  translator :: "'w translator"
  engine :: "'w sql_engine"
  call_interceptor ::
    "'i \<Rightarrow> 'w ctx \<Rightarrow> string \<Rightarrow> govalue list \<Rightarrow> 'w \<Rightarrow> (result \<times> bool \<times> go_error option) \<times> 'w"

section \<open>Facts\<close>

lemma interceptors_of_set [simp]:
  "interceptors_of (set_interceptors n reg db) m = (if m = n then reg else interceptors_of db m)"
  by (simp add: interceptors_of_def set_interceptors_def update_conv')

lemma set_interceptors_fields [simp]:
  "fn_registry (set_interceptors n reg db) = fn_registry db"
  "db_closed (set_interceptors n reg db) = db_closed db"
  "dispatchID (set_interceptors n reg db) = dispatchID db"
  "outside (set_interceptors n reg db) = outside db"
  by (simp_all add: set_interceptors_def)

end
