(* ===== verification/Intercept.thy ===== *)
theory Intercept imports State
begin

text \<open>
  Models \<^verbatim>\<open>intercept.go\<close>: registering and removing query interceptors and running them, and
  \<^verbatim>\<open>statementCommand\<close> of \<^verbatim>\<open>schema.go\<close>, which labels an intercepted result.
\<close>

section \<open>The command of a statement\<close>

definition has_msg :: "string \<Rightarrow> msg option \<Rightarrow> bool" where
  "has_msg f node = (case node of None \<Rightarrow> False | Some m \<Rightarrow> get_msg f m \<noteq> None)"

definition parsedCommand :: "msg option \<Rightarrow> string option" where
  "parsedCommand node =
     (if has_msg ''select_stmt'' node then Some ''SELECT''
      else if has_msg ''insert_stmt'' node then Some ''INSERT''
      else if has_msg ''update_stmt'' node then Some ''UPDATE''
      else if has_msg ''delete_stmt'' node then Some ''DELETE''
      else if has_msg ''create_stmt'' node \<or> has_msg ''create_table_as_stmt'' node then Some ''CREATE''
      else if has_msg ''alter_table_stmt'' node then Some ''ALTER''
      else if has_msg ''drop_stmt'' node then Some ''DROP''
      else if has_msg ''truncate_stmt'' node then Some ''TRUNCATE''
      else None)"

definition firstWordCommand :: "string \<Rightarrow> string" where
  "firstWordCommand statement =
     (case strings_fields statement of [] \<Rightarrow> '''' | word # words \<Rightarrow> toUpper word)"

definition statementCommand :: "pg_query \<Rightarrow> string \<Rightarrow> string" where
  "statementCommand pq statement =
     (case Parse pq statement of
        Inr (raw # raws) \<Rightarrow>
          (case parsedCommand (Stmt raw) of Some command \<Rightarrow> command | None \<Rightarrow> firstWordCommand statement)
      | _ \<Rightarrow> firstWordCommand statement)"

section \<open>Registration\<close>

text \<open>A subscription: whether its \<^verbatim>\<open>once\<close> has run, and what its closure captured.\<close>

record subscription =
  once_done :: bool
  sub_schema :: string
  sub_id :: "64 word"

definition addInterceptor :: "'i \<Rightarrow> 'i interceptorRegistry \<Rightarrow> 64 word \<times> 'i interceptorRegistry" where
  "addInterceptor i reg =
     (let newID = nextID reg + 1 in
      (newID, reg\<lparr>nextID := newID, entries := entries reg @ [\<lparr>reg_id = newID, interceptor = i\<rparr>]\<rparr>))"

text \<open>The result of \<^verbatim>\<open>InterceptQueries\<close>, or the value it panics with.\<close>

definition InterceptQueries ::
  "string option \<Rightarrow> 'i option \<Rightarrow> ('f, 'i, 'o) DB \<Rightarrow> string + subscription \<times> ('f, 'i, 'o) DB" where
  "InterceptQueries s i db =
     (case i of
        None \<Rightarrow> Inl ''pgmem: query interceptor must not be nil''
      | Some callback \<Rightarrow>
          (case s of
             None \<Rightarrow> Inl ''pgmem: cannot register an interceptor on a nil schema''
           | Some name \<Rightarrow>
               (let (newID, reg) = addInterceptor callback (interceptors_of db name)
                in Inr (\<lparr>once_done = False, sub_schema = name, sub_id = newID\<rparr>,
                    set_interceptors name reg db))))"

text \<open>
  The loop of the closure: the first entry with the identifier is overwritten by its
  successors and the last place cut off.
\<close>

fun removeEntry :: "64 word \<Rightarrow> 'i interceptorRegistration list \<Rightarrow> 'i interceptorRegistration list" where
  "removeEntry n [] = []"
| "removeEntry n (e # es) = (if reg_id e \<noteq> n then e # removeEntry n es else es)"

definition removeInterceptor :: "64 word \<Rightarrow> 'i interceptorRegistry \<Rightarrow> 'i interceptorRegistry" where
  "removeInterceptor n reg = reg\<lparr>entries := removeEntry n (entries reg)\<rparr>"

definition Unsubscribe ::
  "subscription option \<Rightarrow> ('f, 'i, 'o) DB \<Rightarrow> subscription option \<times> ('f, 'i, 'o) DB" where
  "Unsubscribe s db =
     (case s of
        None \<Rightarrow> (None, db)
      | Some sub \<Rightarrow>
          if once_done sub then (Some sub, db)
          else (Some (sub\<lparr>once_done := True\<rparr>),
            set_interceptors (sub_schema sub)
              (removeInterceptor (sub_id sub) (interceptors_of db (sub_schema sub))) db))"

section \<open>Running the interceptors\<close>

type_synonym intercepted = "result \<times> bool \<times> go_error option"

text \<open>What a handled result becomes: a copy, with row count and command filled in.\<close>

definition handledResult :: "pg_query \<Rightarrow> string \<Rightarrow> result \<Rightarrow> result" where
  "handledResult pq statement res =
     (let hasRows = (Rows res \<noteq> None);
          copied = cloneResult res;
          counted = (if hasRows then copied\<lparr>RowCount := of_nat (length (result_rows copied))\<rparr> else copied)
      in if Command counted = '''' then counted\<lparr>Command := statementCommand pq statement\<rparr> else counted)"

fun run_entries ::
  "('i, 'w) env \<Rightarrow> 'w ctx \<Rightarrow> string \<Rightarrow> govalue list \<Rightarrow> 'i interceptorRegistration list \<Rightarrow> 'w \<Rightarrow> intercepted \<times> 'w" where
  "run_entries env ctx statement arguments [] w = ((zero_result, False, None), w)"
| "run_entries env ctx statement arguments (entry # rest) w =
     (case call_interceptor env (interceptor entry) ctx statement (cloneArguments arguments) w of
        ((res, handled, Some e), w') \<Rightarrow>
          ((zero_result, False, Some (Wrapf ''pgmem: intercept query: '' e '''')), w')
      | ((res, handled, None), w') \<Rightarrow>
          (if \<not> handled then run_entries env ctx statement arguments rest w'
           else ((handledResult (parser env) statement res, True, None), w')))"

text \<open>The entries are copied under the lock and run without it.\<close>

definition runInterceptors ::
  "('i, ('f, 'i, 'o) DB) env \<Rightarrow> string option \<Rightarrow> ('f, 'i, 'o) DB ctx \<Rightarrow> string \<Rightarrow> govalue list
     \<Rightarrow> ('f, 'i, 'o) DB \<Rightarrow> intercepted \<times> ('f, 'i, 'o) DB" where
  "runInterceptors env s ctx statement arguments db =
     (case ctx db of
        Some e \<Rightarrow> ((zero_result, False, Some e), db)
      | None \<Rightarrow>
          (case s of
             None \<Rightarrow> ((zero_result, False, Some (Sentinel ErrClosed)), db)
           | Some name \<Rightarrow>
               (if isClosed db then ((zero_result, False, Some (Sentinel ErrClosed)), db)
                else run_entries env ctx statement arguments (entries (interceptors_of db name)) db)))"

section \<open>Registration lists\<close>

text \<open>
  The contract of a list of registrations with keys handed out on registration, as long as
  there are keys left (\<open>room n r\<close>: for \<open>n\<close> more registrations): a registration is added at
  the end under a new key, removing a key removes its registration and keeps the others in
  order.
\<close>

locale registrations =
  fixes add :: "'i \<Rightarrow> 'r \<Rightarrow> 'k \<times> 'r" and remove :: "'k \<Rightarrow> 'r \<Rightarrow> 'r"
    and items :: "'r \<Rightarrow> ('k \<times> 'i) list" and room :: "nat \<Rightarrow> 'r \<Rightarrow> bool"
  assumes items_add: "room (Suc n) r \<Longrightarrow> items (snd (add i r)) = items r @ [(fst (add i r), i)]"
    and fresh_add: "room (Suc n) r \<Longrightarrow> fst (add i r) \<notin> fst ` set (items r)"
    and room_add: "room (Suc n) r \<Longrightarrow> room n (snd (add i r))"
    and items_remove: "room n r \<Longrightarrow> items (remove k r) = filter (\<lambda>(k', i). k' \<noteq> k) (items r)"
    and room_remove: "room n r \<Longrightarrow> room n (remove k r)"
begin

lemma remove_added:
  assumes "room (Suc n) r"
  shows "items (remove (fst (add i r)) (snd (add i r))) = items r"
proof -
  have "filter (\<lambda>(k', j). k' \<noteq> fst (add i r)) (items r) = items r"
    using fresh_add [OF assms, of i] by (intro filter_True) force
  then show ?thesis
    using items_remove [OF room_add [OF assms], of "fst (add i r)" i] items_add [OF assms, of i] by simp
qed

lemma remove_twice: "room n r \<Longrightarrow> items (remove k (remove k r)) = items (remove k r)"
  by (simp add: items_remove [OF room_remove] items_remove comp_def split_def)

lemma distinct_add:
  assumes "room (Suc n) r" and "distinct (map fst (items r))"
  shows "distinct (map fst (items (snd (add i r))))"
  using assms fresh_add [OF assms(1), of i] by (simp add: items_add)

lemma distinct_remove:
  "room n r \<Longrightarrow> distinct (map fst (items r)) \<Longrightarrow> distinct (map fst (items (remove k r)))"
  by (simp add: items_remove distinct_map_filter)

text \<open>Removing other registrations in between does not matter.\<close>

lemma remove_commute:
  "room n r \<Longrightarrow> items (remove k (remove j r)) = items (remove j (remove k r))"
  by (simp add: items_remove [OF room_remove] items_remove comp_def split_def conj_commute)

end

definition registry_items :: "'i interceptorRegistry \<Rightarrow> (64 word \<times> 'i) list" where
  "registry_items reg = map (\<lambda>e. (reg_id e, interceptor e)) (entries reg)"

text \<open>
  The identifiers given out are distinct and not above \<open>nextID\<close>, and the counter has \<open>n\<close>
  more increments before it wraps around.
\<close>

definition registry_room :: "nat \<Rightarrow> 'i interceptorRegistry \<Rightarrow> bool" where
  "registry_room n reg \<longleftrightarrow> unat (nextID reg) + n < 2 ^ 64
     \<and> distinct (map reg_id (entries reg))
     \<and> list_all (\<lambda>e. unat (reg_id e) \<le> unat (nextID reg)) (entries reg)"

lemma removeEntry_filter:
  "distinct (map reg_id es) \<Longrightarrow> removeEntry n es = filter (\<lambda>e. reg_id e \<noteq> n) es"
  by (induction es) (auto intro!: filter_True [symmetric], metis imageI)

lemma unat_Suc_nextID:
  assumes "unat (w :: 64 word) + Suc n < 2 ^ 64"
  shows "unat (w + 1) = Suc (unat w)"
proof -
  have "unat w + unat (1 :: 64 word) < 2 ^ LENGTH(64)" using assms by simp
  then show ?thesis by (subst unat_add_lem [THEN iffD1]) simp_all
qed

interpretation interceptors: registrations addInterceptor removeInterceptor registry_items registry_room
proof
  fix n i and reg :: "'a interceptorRegistry" and k
  {
    assume room: "registry_room (Suc n) reg"
    then have new: "unat (nextID reg + 1) = Suc (unat (nextID reg))"
      by (intro unat_Suc_nextID [of _ n]) (simp add: registry_room_def)
    show "registry_items (snd (addInterceptor i reg)) = registry_items reg @ [(fst (addInterceptor i reg), i)]"
      by (simp add: registry_items_def addInterceptor_def Let_def)
    show fresh: "fst (addInterceptor i reg) \<notin> fst ` set (registry_items reg)"
      using room new
      by (force simp: registry_items_def addInterceptor_def Let_def registry_room_def list_all_iff)
    show "registry_room n (snd (addInterceptor i reg))"
      using room new fresh
      by (auto simp: registry_items_def addInterceptor_def Let_def registry_room_def list_all_iff)
  next
    assume room: "registry_room n reg"
    then have eq: "removeEntry k (entries reg) = filter (\<lambda>e. reg_id e \<noteq> k) (entries reg)"
      by (intro removeEntry_filter) (simp add: registry_room_def)
    show "registry_items (removeInterceptor k reg) = filter (\<lambda>(k', i). k' \<noteq> k) (registry_items reg)"
      by (simp add: registry_items_def removeInterceptor_def eq filter_map comp_def)
    show "registry_room n (removeInterceptor k reg)"
      using room
      by (auto simp: registry_room_def removeInterceptor_def eq list_all_iff distinct_map_filter)
  }
qed

section \<open>Histories of a registry\<close>

text \<open>
  A history of registrations and removals, what the registry does with it, and the list a
  caller expects: the interceptors that are registered and not removed since, in the order
  of their registration, where the registrations are numbered from 1.
\<close>

datatype 'i registry_op = Subscribe 'i | Cancel nat

fun registry_run :: "'i registry_op list \<Rightarrow> 'i interceptorRegistry \<Rightarrow> 'i interceptorRegistry" where
  "registry_run [] reg = reg"
| "registry_run (Subscribe i # ops) reg = registry_run ops (snd (addInterceptor i reg))"
| "registry_run (Cancel k # ops) reg = registry_run ops (removeInterceptor (of_nat k) reg)"

fun expected_run :: "'i registry_op list \<Rightarrow> nat \<times> (nat \<times> 'i) list \<Rightarrow> nat \<times> (nat \<times> 'i) list" where
  "expected_run [] s = s"
| "expected_run (Subscribe i # ops) (n, xs) = expected_run ops (Suc n, xs @ [(Suc n, i)])"
| "expected_run (Cancel k # ops) (n, xs) = expected_run ops (n, filter (\<lambda>(m, i). m \<noteq> k) xs)"

fun op_in_range :: "'i registry_op \<Rightarrow> bool" where
  "op_in_range (Subscribe i) = True"
| "op_in_range (Cancel k) = (k < 2 ^ 64)"

definition counted_items :: "'i interceptorRegistry \<Rightarrow> (nat \<times> 'i) list" where
  "counted_items reg = map (\<lambda>(k, i). (unat k, i)) (registry_items reg)"

lemma registry_run_refines:
  assumes "registry_room (length ops) reg" and "list_all op_in_range ops"
  shows "(unat (nextID (registry_run ops reg)), counted_items (registry_run ops reg))
     = expected_run ops (unat (nextID reg), counted_items reg)"
  using assms
proof (induction ops arbitrary: reg)
  case (Cons opn ops)
  show ?case
  proof (cases opn)
    case (Subscribe i)
    have room: "registry_room (Suc (length ops)) reg" using Cons.prems by simp
    then have "unat (nextID reg + 1) = Suc (unat (nextID reg))"
      by (intro unat_Suc_nextID [of _ "length ops"]) (simp add: registry_room_def)
    then show ?thesis
      using Cons.IH [OF interceptors.room_add [OF room]] Cons.prems Subscribe
      by (simp add: counted_items_def interceptors.items_add [OF room])
        (simp add: addInterceptor_def Let_def)
  next
    case (Cancel k)
    have room: "registry_room (length ops) reg"
      using Cons.prems by (simp add: registry_room_def)
    have "unat (of_nat k :: 64 word) = k"
      using Cons.prems Cancel by (simp add: unat_of_nat)
    then have "(x \<noteq> of_nat k) = (unat x \<noteq> k)" for x :: "64 word"
      by (metis word_unat_eq_iff)
    then have "counted_items (removeInterceptor (of_nat k) reg) = filter (\<lambda>(m, i). m \<noteq> k) (counted_items reg)"
      by (simp add: counted_items_def interceptors.items_remove [OF room] filter_map comp_def split_def)
    then show ?thesis
      using Cons.IH [OF interceptors.room_remove [OF room]] Cons.prems Cancel
      by (simp add: removeInterceptor_def)
  qed
qed simp

section \<open>The interceptor that decides\<close>

text \<open>Running entries none of which handles the statement or fails; the state they leave.\<close>

fun passed ::
  "('i, 'w) env \<Rightarrow> 'w ctx \<Rightarrow> string \<Rightarrow> govalue list \<Rightarrow> 'i interceptorRegistration list \<Rightarrow> 'w \<Rightarrow> 'w option" where
  "passed env ctx statement arguments [] w = Some w"
| "passed env ctx statement arguments (e # es) w =
     (case call_interceptor env (interceptor e) ctx statement (cloneArguments arguments) w of
        ((res, False, None), w') \<Rightarrow> passed env ctx statement arguments es w'
      | _ \<Rightarrow> None)"

text \<open>What a handling or failing call of an interceptor makes of the statement.\<close>

definition decided :: "pg_query \<Rightarrow> string \<Rightarrow> (result \<times> bool \<times> go_error option) \<times> 'w \<Rightarrow> (intercepted \<times> 'w) option" where
  "decided pq statement outcome =
     (case outcome of
        ((res, handled, Some e), w) \<Rightarrow> Some ((zero_result, False, Some (Wrapf ''pgmem: intercept query: '' e '''')), w)
      | ((res, True, None), w) \<Rightarrow> Some ((handledResult pq statement res, True, None), w)
      | ((res, False, None), w) \<Rightarrow> None)"

lemma run_entries_passed:
  "passed env ctx statement arguments es w = Some w' \<Longrightarrow>
     run_entries env ctx statement arguments (es @ rest) w = run_entries env ctx statement arguments rest w'"
  by (induction es arbitrary: w) (auto split: prod.splits bool.splits option.splits)

lemma run_entries_decided:
  assumes "decided (parser env) statement
      (call_interceptor env (interceptor e) ctx statement (cloneArguments arguments) w) = Some r"
  shows "run_entries env ctx statement arguments (e # rest) w = r"
  using assms by (auto simp: decided_def split: prod.splits option.splits bool.splits)

lemma passed_or_decided:
  "passed env ctx statement arguments es w = None \<Longrightarrow>
     \<exists>pre e post w1 r. es = pre @ e # post \<and> passed env ctx statement arguments pre w = Some w1
       \<and> decided (parser env) statement
           (call_interceptor env (interceptor e) ctx statement (cloneArguments arguments) w1) = Some r"
proof (induction es arbitrary: w)
  case (Cons e es)
  show ?case
  proof (cases "decided (parser env) statement
      (call_interceptor env (interceptor e) ctx statement (cloneArguments arguments) w)")
    case (Some r)
    then have "e # es = [] @ e # es \<and> passed env ctx statement arguments [] w = Some w
       \<and> decided (parser env) statement
           (call_interceptor env (interceptor e) ctx statement (cloneArguments arguments) w) = Some r"
      by simp
    then show ?thesis by blast
  next
    case None
    then obtain res w1 where call: "call_interceptor env (interceptor e) ctx statement (cloneArguments arguments) w
        = ((res, False, None), w1)"
      by (auto simp: decided_def split: prod.splits option.splits bool.splits)
    with Cons.prems have "passed env ctx statement arguments es w1 = None" by simp
    then obtain pre e' post w2 r where "es = pre @ e' # post" "passed env ctx statement arguments pre w1 = Some w2"
      "decided (parser env) statement
        (call_interceptor env (interceptor e') ctx statement (cloneArguments arguments) w2) = Some r"
      using Cons.IH by blast
    moreover from this call have "passed env ctx statement arguments (e # pre) w = Some w2" by simp
    ultimately show ?thesis by (metis append_Cons)
  qed
qed simp

lemma handledResult_fields:
  "Rows (handledResult pq st res) = map_option (map cloneRow) (Rows res)"
  "RowCount (handledResult pq st res) =
     (case Rows res of None \<Rightarrow> RowCount res | Some rs \<Rightarrow> of_nat (length rs))"
  "Command (handledResult pq st res) = (if Command res = '''' then statementCommand pq st else Command res)"
  by (auto simp: handledResult_def cloneResult_def result_rows_def Let_def split: option.split)

section \<open>Properties\<close>

text \<open>
  C18: whatever interceptors are registered and removed, in any order and removing any number
  of times, the registry holds exactly the registrations not removed since, in registration
  order, and gives every registration a new identifier, as long as fewer than 2^64
  registrations are made.
\<close>

theorem interceptor_history:
  assumes "length ops < 2 ^ 64" and "list_all op_in_range ops"
  shows "counted_items (registry_run ops empty_interceptors) = snd (expected_run ops (0, []))
     \<and> distinct (map fst (counted_items (registry_run ops empty_interceptors)))"
proof -
  have room: "registry_room (length ops) empty_interceptors"
    using assms by (simp add: registry_room_def empty_interceptors_def)
  have start: "unat (nextID empty_interceptors) = 0" "counted_items empty_interceptors = []"
    by (simp_all add: empty_interceptors_def counted_items_def registry_items_def)
  have "registry_room 0 (registry_run ops reg)" if "registry_room (length ops) reg" for reg :: "'a interceptorRegistry"
    using that
  proof (induction ops arbitrary: reg)
    case (Cons opn ops)
    then show ?case
      by (cases opn) (auto intro!: Cons.IH interceptors.room_add interceptors.room_remove
          simp: registry_room_def [of "Suc (length ops)" reg] registry_room_def [of "length ops" reg])
  qed simp
  from this [OF room] have "distinct (map fst (counted_items (registry_run ops empty_interceptors)))"
    by (simp add: registry_room_def counted_items_def registry_items_def comp_def distinct_map inj_on_def
        word_unat_eq_iff [symmetric])
  with registry_run_refines [OF room assms(2)] show ?thesis
    by (simp add: start prod_eq_iff)
qed

theorem interceptor_history_witness:
  "counted_items (registry_run [Subscribe ''a'', Subscribe ''b'', Cancel 1, Subscribe ''c'', Cancel 1] empty_interceptors)
     = [(2, ''b''), (3, ''c'')]"
proof -
  let ?ops = "[Subscribe ''a'', Subscribe ''b'', Cancel 1, Subscribe ''c'', Cancel 1]"
  have "length ?ops < 2 ^ 64" and "list_all op_in_range ?ops" by simp_all
  from interceptor_history [OF this] show ?thesis by simp
qed

text \<open>
  \<^verbatim>\<open>Unsubscribe\<close> undoes \<^verbatim>\<open>InterceptQueries\<close>: it removes this registration and no other, in
  no other schema, and calling it again, in any later state, does nothing.
\<close>

theorem unsubscribe_restores:
  assumes "registry_room 1 (interceptors_of db s)"
    and "InterceptQueries (Some s) (Some i) db = Inr (sub, db1)"
  shows "registry_items (interceptors_of db1 s) = registry_items (interceptors_of db s) @ [(sub_id sub, i)]
     \<and> registry_items (interceptors_of (snd (Unsubscribe (Some sub) db1)) t) = registry_items (interceptors_of db t)
     \<and> Unsubscribe (fst (Unsubscribe (Some sub) db1)) db2 = (fst (Unsubscribe (Some sub) db1), db2)"
proof -
  have room: "registry_room (Suc 0) (interceptors_of db s)" using assms(1) by simp
  have sub: "sub = \<lparr>once_done = False, sub_schema = s, sub_id = fst (addInterceptor i (interceptors_of db s))\<rparr>"
    and db1: "db1 = set_interceptors s (snd (addInterceptor i (interceptors_of db s))) db"
    using assms(2) by (simp_all add: InterceptQueries_def split_def Let_def)
  show ?thesis
    by (simp add: sub db1 Unsubscribe_def interceptors.items_add [OF room] interceptors.remove_added [OF room])
qed

definition example_db :: "(nat, string, nat) DB" where
  "example_db = \<lparr>schemas = [(''public'', \<lparr>nextID = 1, entries = [\<lparr>reg_id = 1, interceptor = ''a''\<rparr>]\<rparr>)],
     dispatchID = ''id'', fn_registry = [], db_closed = False, outside = 0\<rparr>"

theorem unsubscribe_restores_witness:
  "case InterceptQueries (Some ''public'') (Some ''b'') example_db of
     Inl e \<Rightarrow> False
   | Inr (sub, db1) \<Rightarrow> registry_items (interceptors_of db1 ''public'') = [(1, ''a''), (2, ''b'')]
       \<and> registry_items (interceptors_of (snd (Unsubscribe (Some sub) db1)) ''public'') = [(1, ''a'')]"
proof -
  have items: "registry_items (interceptors_of example_db ''public'') = [(1, ''a'')]"
    and room: "registry_room 1 (interceptors_of example_db ''public'')"
    by (simp_all add: example_db_def interceptors_of_def registry_items_def registry_room_def)
  obtain sub db1 where q: "InterceptQueries (Some ''public'') (Some ''b'') example_db = Inr (sub, db1)"
    by (simp add: InterceptQueries_def split_def Let_def)
  have "sub_id sub = 2"
    using q by (auto simp: InterceptQueries_def split_def addInterceptor_def Let_def
        example_db_def interceptors_of_def)
  with unsubscribe_restores [OF room q, of "''public''" example_db] q items show ?thesis by simp
qed

text \<open>
  C17: the interceptors of a schema see a statement in registration order until one decides:
  an error stops the statement, the first handled result answers it (with the rows copied,
  the row count set to their number and a command filled in when it has none), no later
  interceptor is called, and the statement goes on to the engine only when all have passed
  it; on a cancelled context or a closed database none is called.
\<close>

theorem interceptors_decide:
  "case ctx db of
     Some e \<Rightarrow> runInterceptors env (Some s) ctx statement arguments db = ((zero_result, False, Some e), db)
   | None \<Rightarrow>
       if isClosed db
       then runInterceptors env (Some s) ctx statement arguments db
         = ((zero_result, False, Some (Sentinel ErrClosed)), db)
       else (case passed env ctx statement arguments (entries (interceptors_of db s)) db of
           Some db' \<Rightarrow> runInterceptors env (Some s) ctx statement arguments db = ((zero_result, False, None), db')
         | None \<Rightarrow> (\<exists>pre e post db1 r. entries (interceptors_of db s) = pre @ e # post
             \<and> passed env ctx statement arguments pre db = Some db1
             \<and> decided (parser env) statement
                 (call_interceptor env (interceptor e) ctx statement (cloneArguments arguments) db1) = Some r
             \<and> runInterceptors env (Some s) ctx statement arguments db = r))"
proof (cases "ctx db = None \<and> \<not> isClosed db")
  case True
  let ?es = "entries (interceptors_of db s)"
  have run: "runInterceptors env (Some s) ctx statement arguments db
      = run_entries env ctx statement arguments ?es db"
    using True by (simp add: runInterceptors_def)
  show ?thesis
  proof (cases "passed env ctx statement arguments ?es db")
    case None
    from passed_or_decided [OF this] obtain pre e post db1 r where split: "?es = pre @ e # post"
      "passed env ctx statement arguments pre db = Some db1"
      "decided (parser env) statement
        (call_interceptor env (interceptor e) ctx statement (cloneArguments arguments) db1) = Some r"
      by blast
    then have "runInterceptors env (Some s) ctx statement arguments db = r"
      unfolding run split(1) run_entries_passed [OF split(2)] by (intro run_entries_decided)
    with split True None show ?thesis by (simp del: split_paired_Ex) blast
  next
    case (Some db')
    with run_entries_passed [OF Some, of "[]"] True show ?thesis by (simp add: run)
  qed
qed (auto simp: runInterceptors_def split: option.split)

end
