(* ===== verification/SchemaExec.thy ===== *)
theory SchemaExec imports Intercept
begin

text \<open>
  Models \<^verbatim>\<open>schema.go\<close>: translating a statement or script, executing it directly or inside a
  transaction, materializing its rows, and the entry points \<^verbatim>\<open>Exec\<close>, \<^verbatim>\<open>None\<close>, \<^verbatim>\<open>Query\<close>,
  \<^verbatim>\<open>Many\<close> and \<^verbatim>\<open>One\<close>.  A pair of a zero result and an error is \<^term>\<open>Inl\<close> of the error.
\<close>

section \<open>Translation\<close>

record executableStatement =
  source :: string
  translated :: string

definition emptyStatement :: go_error where
  "emptyStatement = ErrorText ''pgmem: statement must not be empty''"

definition translate ::
  "('i, ('f, 'i, 'o) DB) env \<Rightarrow> string option \<Rightarrow> ('f, 'i, 'o) DB ctx \<Rightarrow> string
     \<Rightarrow> ('f, 'i, 'o) DB \<Rightarrow> (go_error + string) \<times> ('f, 'i, 'o) DB" where
  "translate env s ctx statement db =
     (case s of
        None \<Rightarrow> (Inl (Sentinel ErrClosed), db)
      | Some name \<Rightarrow>
          if isClosed db then (Inl (Sentinel ErrClosed), db)
          else (case translator env ctx name statement db of
              (Inl e, db') \<Rightarrow> (Inl (Wrapf ''pgmem: translate statement: '' e ''''), db')
            | (Inr t, db') \<Rightarrow>
                if trimSpace t = '''' then (Inl emptyStatement, db')
                else (rewriteRegisteredFunctions (parser env) (dispatchID db') (fn_registry db') ctx name
                    statement t db', db')))"

definition translateOnly ::
  "('i, ('f, 'i, 'o) DB) env \<Rightarrow> string option \<Rightarrow> ('f, 'i, 'o) DB ctx \<Rightarrow> string
     \<Rightarrow> ('f, 'i, 'o) DB \<Rightarrow> (go_error + executableStatement list) \<times> ('f, 'i, 'o) DB" where
  "translateOnly env s ctx script db =
     (case translate env s ctx script db of
        (Inl e, db') \<Rightarrow> (Inl e, db')
      | (Inr t, db') \<Rightarrow> (Inr [\<lparr>source = script, translated = t\<rparr>], db'))"

fun translateParts ::
  "('i, ('f, 'i, 'o) DB) env \<Rightarrow> string option \<Rightarrow> ('f, 'i, 'o) DB ctx \<Rightarrow> string list
     \<Rightarrow> ('f, 'i, 'o) DB \<Rightarrow> (go_error + executableStatement list) \<times> ('f, 'i, 'o) DB" where
  "translateParts env s ctx [] db = (Inr [], db)"
| "translateParts env s ctx (part # parts) db =
     (if trimSpace part = '''' then translateParts env s ctx parts db
      else (case translate env s ctx part db of
          (Inl e, db') \<Rightarrow> (Inl e, db')
        | (Inr t, db') \<Rightarrow>
            (case translateParts env s ctx parts db' of
               (Inl e, db'') \<Rightarrow> (Inl e, db'')
             | (Inr statements, db'') \<Rightarrow> (Inr (\<lparr>source = part, translated = t\<rparr> # statements), db''))))"

definition translateStatements ::
  "('i, ('f, 'i, 'o) DB) env \<Rightarrow> string option \<Rightarrow> ('f, 'i, 'o) DB ctx \<Rightarrow> string
     \<Rightarrow> ('f, 'i, 'o) DB \<Rightarrow> (go_error + executableStatement list) \<times> ('f, 'i, 'o) DB" where
  "translateStatements env s ctx script db =
     (if CHR 0x3B \<notin> set script then translateOnly env s ctx script db
      else (case SplitWithParser (parser env) script of
          Inl e \<Rightarrow> translateOnly env s ctx script db
        | Inr parts \<Rightarrow>
            (case translateParts env s ctx parts db of
               (Inl e, db') \<Rightarrow> (Inl e, db')
             | (Inr statements, db') \<Rightarrow>
                 if length statements = 0 then (Inl emptyStatement, db') else (Inr statements, db'))))"

section \<open>One statement\<close>

text \<open>
  The executor of \<^verbatim>\<open>execOne\<close> and the querier of \<^verbatim>\<open>queryOne\<close> are methods of the database or
  of a transaction.
\<close>

type_synonym 'w executor = "'w ctx \<Rightarrow> string \<Rightarrow> govalue list \<Rightarrow> 'w \<Rightarrow> (go_error + exec_result) \<times> 'w"
type_synonym 'w querier = "'w ctx \<Rightarrow> string \<Rightarrow> govalue list \<Rightarrow> 'w \<Rightarrow> (go_error + rowset) \<times> 'w"

definition execOne ::
  "pg_query \<Rightarrow> 'w ctx \<Rightarrow> 'w executor \<Rightarrow> executableStatement \<Rightarrow> govalue list \<Rightarrow> 'w \<Rightarrow> (go_error + result) \<times> 'w" where
  "execOne pq ctx executor statement arguments w =
     (case executor ctx (translated statement) arguments w of
        (Inl e, w') \<Rightarrow> (Inl (executionError (source statement) e), w')
      | (Inr (Inl e), w') \<Rightarrow> (Inl (executionError (source statement) e), w')
      | (Inr (Inr rowCount), w') \<Rightarrow>
          (Inr \<lparr>Rows = None, RowCount = rowCount, Command = statementCommand pq (source statement)\<rparr>, w'))"

definition queryOne ::
  "pg_query \<Rightarrow> 'w ctx \<Rightarrow> 'w querier \<Rightarrow> executableStatement \<Rightarrow> govalue list \<Rightarrow> 'w \<Rightarrow> (go_error + result) \<times> 'w" where
  "queryOne pq ctx querier statement arguments w =
     (case querier ctx (translated statement) arguments w of
        (Inl e, w') \<Rightarrow> (Inl (executionError (source statement) e), w')
      | (Inr rows, w') \<Rightarrow>
          (case materializeRows rows of
             Inl e \<Rightarrow> (Inl (executionError (source statement) e), w')
           | Inr materialized \<Rightarrow>
               (Inr \<lparr>Rows = Some materialized, RowCount = of_nat (length materialized),
                  Command = statementCommand pq (source statement)\<rparr>, w')))"

section \<open>Scripts\<close>

fun execAll ::
  "pg_query \<Rightarrow> 'w ctx \<Rightarrow> 'w executor \<Rightarrow> executableStatement list \<Rightarrow> result \<Rightarrow> 'w \<Rightarrow> (go_error + result) \<times> 'w" where
  "execAll pq ctx executor [] res w = (Inr res, w)"
| "execAll pq ctx executor (statement # statements) res w =
     (case execOne pq ctx executor statement [] w of
        (Inl e, w') \<Rightarrow> (Inl e, w')
      | (Inr res', w') \<Rightarrow> execAll pq ctx executor statements res' w')"

text \<open>
  A transaction around \<open>body\<close>: \<^verbatim>\<open>BeginTx\<close>, the body, \<^verbatim>\<open>Commit\<close>, and the deferred \<^verbatim>\<open>Rollback\<close>
  on every path that has not committed.
\<close>

definition inTransaction ::
  "'w sql_engine \<Rightarrow> 'w ctx \<Rightarrow> string \<Rightarrow> (nat \<Rightarrow> 'w \<Rightarrow> (go_error + result) \<times> 'w) \<Rightarrow> 'w \<Rightarrow> (go_error + result) \<times> 'w" where
  "inTransaction eng ctx statement body w =
     (case DB_BeginTx eng ctx w of
        (Inl e, w1) \<Rightarrow> (Inl (executionError statement e), w1)
      | (Inr transaction, w1) \<Rightarrow>
          (case body transaction w1 of
             (Inl e, w2) \<Rightarrow> (Inl e, snd (Tx_Rollback eng transaction w2))
           | (Inr res, w2) \<Rightarrow>
               (case Tx_Commit eng transaction w2 of
                  (Some e, w3) \<Rightarrow> (Inl (executionError statement e), snd (Tx_Rollback eng transaction w3))
                | (None, w3) \<Rightarrow> (Inr res, w3))))"

definition execScript ::
  "('i, 'w) env \<Rightarrow> 'w ctx \<Rightarrow> string \<Rightarrow> executableStatement list \<Rightarrow> 'w \<Rightarrow> (go_error + result) \<times> 'w" where
  "execScript env ctx statement statements w =
     inTransaction (engine env) ctx statement
       (\<lambda>tx. execAll (parser env) ctx (Tx_ExecContext (engine env) tx) statements zero_result) w"

definition queryScript ::
  "('i, 'w) env \<Rightarrow> 'w ctx \<Rightarrow> string \<Rightarrow> executableStatement list \<Rightarrow> 'w \<Rightarrow> (go_error + result) \<times> 'w" where
  "queryScript env ctx statement statements w =
     inTransaction (engine env) ctx statement
       (\<lambda>tx w1. case execAll (parser env) ctx (Tx_ExecContext (engine env) tx) (butlast statements) zero_result w1 of
          (Inl e, w2) \<Rightarrow> (Inl e, w2)
        | (Inr res, w2) \<Rightarrow>
            queryOne (parser env) ctx (Tx_QueryContext (engine env) tx) (last statements) [] w2) w"

definition scriptParameters :: "string \<Rightarrow> go_error" where
  "scriptParameters statement =
     PgError (Error_struct ''0A000'' ''parameters in multi-statement scripts are not supported'' statement
       (Some (Sentinel ErrUnsupported)))"

section \<open>Entry points\<close>

definition ExecContext ::
  "('i, ('f, 'i, 'o) DB) env \<Rightarrow> string option \<Rightarrow> ('f, 'i, 'o) DB ctx \<Rightarrow> string \<Rightarrow> govalue list
     \<Rightarrow> ('f, 'i, 'o) DB \<Rightarrow> (go_error + result) \<times> ('f, 'i, 'o) DB" where
  "ExecContext env s ctx statement arguments db =
     (case runInterceptors env s ctx statement arguments db of
        ((res, handled, Some e), db1) \<Rightarrow> (Inl e, db1)
      | ((res, True, None), db1) \<Rightarrow> (Inr res, db1)
      | ((res, False, None), db1) \<Rightarrow>
          (case translateStatements env s ctx statement db1 of
             (Inl e, db2) \<Rightarrow> (Inl e, db2)
           | (Inr statements, db2) \<Rightarrow>
               if length statements = 1
               then execOne (parser env) ctx (DB_ExecContext (engine env)) (hd statements) arguments db2
               else if length arguments > 0 then (Inl (scriptParameters statement), db2)
               else execScript env ctx statement statements db2))"

definition QueryContext ::
  "('i, ('f, 'i, 'o) DB) env \<Rightarrow> string option \<Rightarrow> ('f, 'i, 'o) DB ctx \<Rightarrow> string \<Rightarrow> govalue list
     \<Rightarrow> ('f, 'i, 'o) DB \<Rightarrow> (go_error + result) \<times> ('f, 'i, 'o) DB" where
  "QueryContext env s ctx statement arguments db =
     (case runInterceptors env s ctx statement arguments db of
        ((res, handled, Some e), db1) \<Rightarrow> (Inl e, db1)
      | ((res, True, None), db1) \<Rightarrow> (Inr res, db1)
      | ((res, False, None), db1) \<Rightarrow>
          (case translateStatements env s ctx statement db1 of
             (Inl e, db2) \<Rightarrow> (Inl e, db2)
           | (Inr statements, db2) \<Rightarrow>
               if length statements = 1
               then queryOne (parser env) ctx (DB_QueryContext (engine env)) (hd statements) arguments db2
               else if length arguments > 0 then (Inl (scriptParameters statement), db2)
               else queryScript env ctx statement statements db2))"

definition NoneContext ::
  "('i, ('f, 'i, 'o) DB) env \<Rightarrow> string option \<Rightarrow> ('f, 'i, 'o) DB ctx \<Rightarrow> string \<Rightarrow> govalue list
     \<Rightarrow> ('f, 'i, 'o) DB \<Rightarrow> go_error option \<times> ('f, 'i, 'o) DB" where
  "NoneContext env s ctx statement arguments db =
     (case ExecContext env s ctx statement arguments db of
        (Inl e, db') \<Rightarrow> (Some e, db')
      | (Inr res, db') \<Rightarrow> (None, db'))"

definition ManyContext ::
  "('i, ('f, 'i, 'o) DB) env \<Rightarrow> string option \<Rightarrow> ('f, 'i, 'o) DB ctx \<Rightarrow> string \<Rightarrow> govalue list
     \<Rightarrow> ('f, 'i, 'o) DB \<Rightarrow> (go_error + row list option) \<times> ('f, 'i, 'o) DB" where
  "ManyContext env s ctx statement arguments db =
     (case QueryContext env s ctx statement arguments db of
        (Inl e, db') \<Rightarrow> (Inl e, db')
      | (Inr res, db') \<Rightarrow> (Inr (Rows res), db'))"

definition exactlyOne :: "row list \<Rightarrow> go_error + row" where
  "exactlyOne rows =
     (case rows of
        [] \<Rightarrow> Inl (Sentinel ErrNoRows)
      | [r] \<Rightarrow> Inr r
      | _ \<Rightarrow> Inl (Wrapf '''' (Sentinel ErrTooManyRows) ('': got '' @ decimal (length rows))))"

definition OneContext ::
  "('i, ('f, 'i, 'o) DB) env \<Rightarrow> string option \<Rightarrow> ('f, 'i, 'o) DB ctx \<Rightarrow> string \<Rightarrow> govalue list
     \<Rightarrow> ('f, 'i, 'o) DB \<Rightarrow> (go_error + row) \<times> ('f, 'i, 'o) DB" where
  "OneContext env s ctx statement arguments db =
     (case ManyContext env s ctx statement arguments db of
        (Inl e, db') \<Rightarrow> (Inl e, db')
      | (Inr rows, db') \<Rightarrow> (exactlyOne (case rows of None \<Rightarrow> [] | Some rs \<Rightarrow> rs), db'))"

text \<open>\<^verbatim>\<open>Name\<close>, which panics, here \<^term>\<open>None\<close>, on a nil receiver.\<close>

definition Schema_Name :: "string option \<Rightarrow> string option" where
  "Schema_Name s = (case s of None \<Rightarrow> None | Some name \<Rightarrow> Some name)"

text \<open>The entry points without a context.\<close>

definition Exec ::
  "('i, ('f, 'i, 'o) DB) env \<Rightarrow> string option \<Rightarrow> string \<Rightarrow> govalue list
     \<Rightarrow> ('f, 'i, 'o) DB \<Rightarrow> (go_error + result) \<times> ('f, 'i, 'o) DB" where
  "Exec env s = ExecContext env s Background"

definition Query ::
  "('i, ('f, 'i, 'o) DB) env \<Rightarrow> string option \<Rightarrow> string \<Rightarrow> govalue list
     \<Rightarrow> ('f, 'i, 'o) DB \<Rightarrow> (go_error + result) \<times> ('f, 'i, 'o) DB" where
  "Query env s = QueryContext env s Background"

definition Many ::
  "('i, ('f, 'i, 'o) DB) env \<Rightarrow> string option \<Rightarrow> string \<Rightarrow> govalue list
     \<Rightarrow> ('f, 'i, 'o) DB \<Rightarrow> (go_error + row list option) \<times> ('f, 'i, 'o) DB" where
  "Many env s = ManyContext env s Background"

definition One ::
  "('i, ('f, 'i, 'o) DB) env \<Rightarrow> string option \<Rightarrow> string \<Rightarrow> govalue list
     \<Rightarrow> ('f, 'i, 'o) DB \<Rightarrow> (go_error + row) \<times> ('f, 'i, 'o) DB" where
  "One env s = OneContext env s Background"

definition Schema_None ::
  "('i, ('f, 'i, 'o) DB) env \<Rightarrow> string option \<Rightarrow> string \<Rightarrow> govalue list
     \<Rightarrow> ('f, 'i, 'o) DB \<Rightarrow> go_error option \<times> ('f, 'i, 'o) DB" where
  "Schema_None env s = NoneContext env s Background"

end
