(* ===== verification/Tables.thy ===== *)
theory Tables imports SchemaExec Quoting
begin

text \<open>
  Models \<^verbatim>\<open>table.go\<close>: checked table handles, and inserting and finding raw rows through
  generated SQL.  A Go map of columns is a list of pairs; sorting the keys makes the
  statement independent of the order.
\<close>

section \<open>Handles\<close>

text \<open>A handle; a nil schema of the handle is \<^term>\<open>None\<close>.\<close>

record table_handle =
  t_schema :: "string option"
  t_name :: string

definition existsQuery :: "string \<Rightarrow> string" where
  "existsQuery schemaName =
     ''SELECT 1 FROM '' @ quoteIdentifier (internalName schemaName)
       @ ''.sqlite_schema WHERE type IN ('' @ [CHR 0x27] @ ''table'' @ [CHR 0x27] @ '', ''
       @ [CHR 0x27] @ ''view'' @ [CHR 0x27] @ '') AND name = $1''"

definition TableContext ::
  "('i, ('f, 'i, 'o) DB) env \<Rightarrow> string option \<Rightarrow> ('f, 'i, 'o) DB ctx \<Rightarrow> string
     \<Rightarrow> ('f, 'i, 'o) DB \<Rightarrow> (go_error + table_handle) \<times> ('f, 'i, 'o) DB" where
  "TableContext env s ctx name db =
     (case s of
        None \<Rightarrow> (Inl (Sentinel ErrClosed), db)
      | Some schemaName \<Rightarrow>
          if isClosed db then (Inl (Sentinel ErrClosed), db)
          else if trimSpace name = '''' \<or> CHR 0x00 \<in> set name
          then (Inl (Wrapf '''' (Sentinel ErrRelationNotFound) ('': '' @ go_quote name)), db)
          else (let query = existsQuery schemaName in
            case DB_QueryRowScan (engine env) ctx query [VString name] db of
              (None, db') \<Rightarrow> (Inr \<lparr>t_schema = Some schemaName, t_name = name\<rparr>, db')
            | (Some e, db') \<Rightarrow>
                if errors_is e (Std SqlErrNoRows)
                then (Inl (PgError (Error_struct ''42P01'' (''relation '' @ go_quote name @ '' does not exist'')
                  query (Some (Sentinel ErrRelationNotFound)))), db')
                else (Inl (executionError query e), db')))"

definition Table_Name :: "table_handle option \<Rightarrow> string" where
  "Table_Name t = (case t of None \<Rightarrow> '''' | Some h \<Rightarrow> t_name h)"

definition Table_Schema :: "table_handle option \<Rightarrow> string option" where
  "Table_Schema t = (case t of None \<Rightarrow> None | Some h \<Rightarrow> t_schema h)"

section \<open>Statements\<close>

definition qualifiedName :: "string \<Rightarrow> string \<Rightarrow> string" where
  "qualifiedName schemaName name = quoteIdentifier (internalName schemaName) @ ''.'' @ quoteIdentifier name"

definition sortedRowKeys :: "row \<Rightarrow> string list" where
  "sortedRowKeys r = sort_strings (map fst r)"

definition placeholder :: "nat \<Rightarrow> string" where
  "placeholder n = ''$'' @ decimal n"

text \<open>The statement and arguments of \<^verbatim>\<open>InsertContext\<close>.\<close>

definition insertStatement :: "string \<Rightarrow> string \<Rightarrow> row \<Rightarrow> string \<times> govalue list" where
  "insertStatement schemaName name r =
     (let columns = sortedRowKeys r;
          body = (if length columns = 0 then '' DEFAULT VALUES''
            else '' ('' @ join (map quoteIdentifier columns) '', '' @ '') VALUES (''
              @ join (map (\<lambda>index. placeholder (index + 1)) [0..<length columns]) '', '' @ '')'')
      in (''INSERT INTO '' @ qualifiedName schemaName name @ body @ '' RETURNING *'', map (row_get r) columns))"

text \<open>The loop of \<^verbatim>\<open>FindContext\<close>: predicates and arguments so far.\<close>

fun findPredicates :: "row \<Rightarrow> string list \<Rightarrow> string list \<Rightarrow> govalue list \<Rightarrow> string list \<times> govalue list" where
  "findPredicates template [] predicates arguments = (predicates, arguments)"
| "findPredicates template (column # columns) predicates arguments =
     (if row_get template column = VNil
      then findPredicates template columns (predicates @ [quoteIdentifier column @ '' IS NULL'']) arguments
      else (let arguments' = arguments @ [row_get template column] in
        findPredicates template columns
          (predicates @ [quoteIdentifier column @ '' = '' @ placeholder (length arguments')]) arguments'))"

definition findStatement :: "string \<Rightarrow> string \<Rightarrow> row \<Rightarrow> string \<times> govalue list" where
  "findStatement schemaName name template =
     (let columns = sortedRowKeys template; statement = ''SELECT * FROM '' @ qualifiedName schemaName name in
      if length columns > 0 then
        (let (predicates, arguments) = findPredicates template columns [] []
         in (statement @ '' WHERE '' @ join predicates '' AND '', arguments))
      else (statement, []))"

section \<open>Operations\<close>

definition InsertContext ::
  "('i, ('f, 'i, 'o) DB) env \<Rightarrow> table_handle option \<Rightarrow> ('f, 'i, 'o) DB ctx \<Rightarrow> row
     \<Rightarrow> ('f, 'i, 'o) DB \<Rightarrow> (go_error + row) \<times> ('f, 'i, 'o) DB" where
  "InsertContext env t ctx r db =
     (case Table_Schema t of
        None \<Rightarrow> (Inl (Sentinel ErrRelationNotFound), db)
      | Some schemaName \<Rightarrow>
          (let (statement, arguments) = insertStatement schemaName (Table_Name t) r
           in OneContext env (Some schemaName) ctx statement arguments db))"

definition FindContext ::
  "('i, ('f, 'i, 'o) DB) env \<Rightarrow> table_handle option \<Rightarrow> ('f, 'i, 'o) DB ctx \<Rightarrow> row
     \<Rightarrow> ('f, 'i, 'o) DB \<Rightarrow> (go_error + row list option) \<times> ('f, 'i, 'o) DB" where
  "FindContext env t ctx template db =
     (case Table_Schema t of
        None \<Rightarrow> (Inl (Sentinel ErrRelationNotFound), db)
      | Some schemaName \<Rightarrow>
          (let (statement, arguments) = findStatement schemaName (Table_Name t) template
           in ManyContext env (Some schemaName) ctx statement arguments db))"

text \<open>The entry points without a context.\<close>

definition Schema_Table ::
  "('i, ('f, 'i, 'o) DB) env \<Rightarrow> string option \<Rightarrow> string
     \<Rightarrow> ('f, 'i, 'o) DB \<Rightarrow> (go_error + table_handle) \<times> ('f, 'i, 'o) DB" where
  "Schema_Table env s = TableContext env s Background"

definition GetTable ::
  "('i, ('f, 'i, 'o) DB) env \<Rightarrow> string option \<Rightarrow> string
     \<Rightarrow> ('f, 'i, 'o) DB \<Rightarrow> (go_error + table_handle) \<times> ('f, 'i, 'o) DB" where
  "GetTable env s = Schema_Table env s"

definition Insert ::
  "('i, ('f, 'i, 'o) DB) env \<Rightarrow> table_handle option \<Rightarrow> row
     \<Rightarrow> ('f, 'i, 'o) DB \<Rightarrow> (go_error + row) \<times> ('f, 'i, 'o) DB" where
  "Insert env t = InsertContext env t Background"

definition Find ::
  "('i, ('f, 'i, 'o) DB) env \<Rightarrow> table_handle option \<Rightarrow> row
     \<Rightarrow> ('f, 'i, 'o) DB \<Rightarrow> (go_error + row list option) \<times> ('f, 'i, 'o) DB" where
  "Find env t = FindContext env t Background"

section \<open>Order of the columns\<close>

lemma row_get_perm:
  assumes "mset r = mset r'" and "distinct (map fst r)"
  shows "row_get r = row_get r'"
proof -
  have "set r = set r'" using assms(1) by (rule mset_eq_setD)
  moreover have "distinct (map fst r')"
    using assms by (metis mset_map mset_eq_imp_distinct_iff)
  ultimately have "map_of r = map_of r'" using assms(2) by (simp add: map_of_inject_set)
  then show ?thesis by (simp add: row_get_def fun_eq_iff)
qed

lemma sortedRowKeys_perm: "mset r = mset r' \<Longrightarrow> sortedRowKeys r = sortedRowKeys r'"
  unfolding sortedRowKeys_def by (intro sort_strings_perm) (metis mset_map)

lemma findPredicates_row_get:
  "row_get r = row_get r' \<Longrightarrow> findPredicates r cs ps as = findPredicates r' cs ps as"
  by (induction cs arbitrary: ps as) simp_all

section \<open>The meaning of a template\<close>

text \<open>
  A predicate of a \<^verbatim>\<open>WHERE\<close> clause, its text, and when a row satisfies it: \<open>sql_eq\<close> is the
  engine's equality of a stored value with an argument, and an argument is looked up by
  its number, counted from 1.
\<close>

datatype predicate = IsNull string | EqualsArg string nat

fun render :: "predicate \<Rightarrow> string" where
  "render (IsNull c) = quoteIdentifier c @ '' IS NULL''"
| "render (EqualsArg c n) = quoteIdentifier c @ '' = '' @ placeholder n"

fun satisfies :: "(govalue \<Rightarrow> govalue \<Rightarrow> bool) \<Rightarrow> govalue list \<Rightarrow> (string \<Rightarrow> govalue) \<Rightarrow> predicate \<Rightarrow> bool" where
  "satisfies sql_eq args r (IsNull c) = (r c = VNil)"
| "satisfies sql_eq args r (EqualsArg c n) = (0 < n \<and> n \<le> length args \<and> sql_eq (r c) (args ! (n - 1)))"

fun template_predicates :: "row \<Rightarrow> string list \<Rightarrow> nat \<Rightarrow> predicate list" where
  "template_predicates template [] n = []"
| "template_predicates template (c # cs) n =
     (if row_get template c = VNil then IsNull c # template_predicates template cs n
      else EqualsArg c (Suc n) # template_predicates template cs (Suc n))"

definition template_arguments :: "row \<Rightarrow> string list \<Rightarrow> govalue list" where
  "template_arguments template cs = filter (\<lambda>v. v \<noteq> VNil) (map (row_get template) cs)"

lemma findPredicates_predicates:
  "findPredicates template cs ps as =
     (ps @ map render (template_predicates template cs (length as)), as @ template_arguments template cs)"
  by (induction cs arbitrary: ps as) (simp_all add: template_arguments_def Let_def)

lemma template_predicates_meaning:
  "list_all (satisfies sql_eq (as @ template_arguments template cs) r) (template_predicates template cs (length as))
    \<longleftrightarrow> list_all (\<lambda>c. if row_get template c = VNil then r c = VNil else sql_eq (r c) (row_get template c)) cs"
proof (induction cs arbitrary: as)
  case (Cons c cs)
  show ?case
  proof (cases "row_get template c = VNil")
    case True
    then show ?thesis using Cons.IH [of as] by (simp add: template_arguments_def)
  next
    case False
    then show ?thesis using Cons.IH [of "as @ [row_get template c]"]
      by (simp add: template_arguments_def nth_append)
  qed
qed (simp add: template_arguments_def)

section \<open>Unambiguous statements\<close>

lemma quoted_list_inject:
  assumes "join (map quoteIdentifier (c # cs)) '', '' @ '')'' @ u = join (map quoteIdentifier (d # ds)) '', '' @ '')'' @ v"
  shows "c # cs = d # ds \<and> u = v"
  using assms
proof (induction cs arbitrary: c d ds)
  case Nil
  show ?case
  proof (cases ds)
    case Nil
    with Nil.prems ident.quote_prefix_free [of c "'')'' @ u" d "'')'' @ v"] show ?thesis
      by (simp add: ends_quote_def)
  next
    case (Cons e es)
    with Nil.prems ident.quote_prefix_free [of c "'')'' @ u" d "'', '' @ join (map quoteIdentifier (e # es)) '', '' @ '')'' @ v"]
    show ?thesis by (simp add: ends_quote_def)
  qed
next
  case (Cons c' cs)
  show ?case
  proof (cases ds)
    case Nil
    with Cons.prems ident.quote_prefix_free [of c "'', '' @ join (map quoteIdentifier (c' # cs)) '', '' @ '')'' @ u" d "'')'' @ v"]
    show ?thesis by (simp add: ends_quote_def)
  next
    case (Cons e es)
    with Cons.prems ident.quote_prefix_free [of c "'', '' @ join (map quoteIdentifier (c' # cs)) '', '' @ '')'' @ u"
        d "'', '' @ join (map quoteIdentifier (e # es)) '', '' @ '')'' @ v"]
    have "c = d" "join (map quoteIdentifier (c' # cs)) '', '' @ '')'' @ u = join (map quoteIdentifier (e # es)) '', '' @ '')'' @ v"
      by (simp_all add: ends_quote_def)
    with Cons.IH [of c' e es] \<open>ds = e # es\<close> show ?thesis by simp
  qed
qed

lemma insert_text_split:
  "fst (insertStatement s n r) = ''INSERT INTO '' @ quoteIdentifier (internalName s) @ ''.'' @ quoteIdentifier n
     @ '' '' @ (case sortedRowKeys r of [] \<Rightarrow> ''DEFAULT VALUES RETURNING *''
         | c # cs \<Rightarrow> ''('' @ join (map quoteIdentifier (c # cs)) '', '' @ '')'' @ '' VALUES (''
             @ join (map (\<lambda>index. placeholder (index + 1)) [0..<length (c # cs)]) '', '' @ '') RETURNING *'')"
  by (simp add: insertStatement_def qualifiedName_def Let_def split: list.split)

lemma insert_unambiguous:
  assumes "fst (insertStatement s n r) = fst (insertStatement s' n' r')"
  shows "internalName s = internalName s' \<and> n = n' \<and> sortedRowKeys r = sortedRowKeys r'"
proof -
  let ?tail = "\<lambda>r. case sortedRowKeys r of [] \<Rightarrow> ''DEFAULT VALUES RETURNING *''
         | c # cs \<Rightarrow> ''('' @ join (map quoteIdentifier (c # cs)) '', '' @ '')'' @ '' VALUES (''
             @ join (map (\<lambda>index. placeholder (index + 1)) [0..<length (c # cs)]) '', '' @ '') RETURNING *''"
  have "internalName s = internalName s' \<and> ''.'' @ quoteIdentifier n @ '' '' @ ?tail r = ''.'' @ quoteIdentifier n' @ '' '' @ ?tail r'"
    using assms unfolding insert_text_split
    by (intro ident.quote_prefix_free) (simp_all add: ends_quote_def)
  then have s: "internalName s = internalName s'"
    and "quoteIdentifier n @ '' '' @ ?tail r = quoteIdentifier n' @ '' '' @ ?tail r'"
    by simp_all
  moreover from this(2) have "n = n' \<and> '' '' @ ?tail r = '' '' @ ?tail r'"
    by (intro ident.quote_prefix_free) (simp_all add: ends_quote_def)
  ultimately have n: "n = n'" and tail: "?tail r = ?tail r'" by simp_all
  have "sortedRowKeys r = sortedRowKeys r'"
  proof (cases "sortedRowKeys r")
    case Nil
    with tail show ?thesis by (cases "sortedRowKeys r'") simp_all
  next
    case r: (Cons c cs)
    show ?thesis
    proof (cases "sortedRowKeys r'")
      case r': (Cons d ds)
      have "join (map quoteIdentifier (c # cs)) '', '' @ '')'' @ '' VALUES (''
             @ join (map (\<lambda>index. placeholder (index + 1)) [0..<length (c # cs)]) '', '' @ '') RETURNING *''
        = join (map quoteIdentifier (d # ds)) '', '' @ '')'' @ '' VALUES (''
             @ join (map (\<lambda>index. placeholder (index + 1)) [0..<length (d # ds)]) '', '' @ '') RETURNING *''"
        using tail unfolding r r' list.case by (rule same_append_eq [THEN iffD1])
      from quoted_list_inject [OF this] show ?thesis by (simp add: r r')
    qed (use tail r in simp)
  qed
  with s n show ?thesis by simp
qed

section \<open>Properties\<close>


text \<open>
  C23: \<^verbatim>\<open>Find\<close> selects exactly the rows that match the template: the \<^verbatim>\<open>WHERE\<close> clause is the
  conjunction of the rendered predicates, and a row satisfies them with the arguments passed
  if and only if for every column of the template it is null where the template is nil and
  equal to the template's value elsewhere; nil values take no placeholder and no argument.
\<close>

theorem find_statement_exact:
  "let predicates = template_predicates template (sortedRowKeys template) 0;
       (statement, arguments) = findStatement s n template in
     statement = ''SELECT * FROM '' @ qualifiedName s n
       @ (if template = [] then '''' else '' WHERE '' @ join (map render predicates) '' AND '')
   \<and> (list_all (satisfies sql_eq arguments r) predicates \<longleftrightarrow>
        list_all (\<lambda>c. if row_get template c = VNil then r c = VNil else sql_eq (r c) (row_get template c))
          (map fst template))
   \<and> length arguments = length (filter (\<lambda>c. row_get template c \<noteq> VNil) (sortedRowKeys template))"
proof -
  have "list_all P (sortedRowKeys template) = list_all P (map fst template)" for P
    by (simp add: sortedRowKeys_def list_all_iff)
  moreover have "sortedRowKeys template = [] \<longleftrightarrow> template = []"
    using set_sort_strings [of "map fst template"] unfolding sortedRowKeys_def by (metis list.map_disc_iff set_empty)
  moreover have "length (template_arguments template cs) = length (filter (\<lambda>c. row_get template c \<noteq> VNil) cs)" for cs
    by (simp add: template_arguments_def filter_map comp_def)
  ultimately show ?thesis
    using template_predicates_meaning [of sql_eq "[]" template "sortedRowKeys template" r]
    by (auto simp: findStatement_def findPredicates_predicates Let_def template_arguments_def)
qed

text \<open>
  C35: Go iterates over the columns of a row in a random order; the statement and the
  arguments of \<^verbatim>\<open>Insert\<close> and \<^verbatim>\<open>Find\<close> do not depend on it.
\<close>

theorem column_order_irrelevant:
  assumes "mset r = mset r'" and "distinct (map fst r)"
  shows "insertStatement s n r = insertStatement s n r' \<and> findStatement s n r = findStatement s n r'"
  using row_get_perm [OF assms] sortedRowKeys_perm [OF assms(1)] findPredicates_row_get [of r r']
  by (simp add: insertStatement_def findStatement_def Let_def)

theorem column_order_irrelevant_witness:
  "insertStatement ''public'' ''notes'' [(''id'', VInt64 1), (''body'', VNil)]
     = insertStatement ''public'' ''notes'' [(''body'', VNil), (''id'', VInt64 1)]"
  using column_order_irrelevant [of "[(''id'', VInt64 1), (''body'', VNil)]" "[(''body'', VNil), (''id'', VInt64 1)]"]
  by simp

end
