(* ===== verification/Database.thy ===== *)
theory Database imports Tables
begin

text \<open>
  Models \<^verbatim>\<open>database.go\<close> and \<^verbatim>\<open>options.go\<close>: opening a database, its schemas, registering
  functions through a schema and closing.  The first part works on the state of one
  database; the second on a process that holds several databases, the sequence numbers of
  their connections and the process-wide map the function dispatcher looks databases up in.
\<close>

section \<open>Schemas of a database\<close>

definition Public :: "('f, 'i, 'o) DB \<Rightarrow> string option" where
  "Public db = (case map_of (schemas db) ''public'' of None \<Rightarrow> None | Some reg \<Rightarrow> Some ''public'')"

definition Schema :: "string \<Rightarrow> ('f, 'i, 'o) DB \<Rightarrow> string option" where
  "Schema name db = (case map_of (schemas db) (toLower name) of None \<Rightarrow> None | Some reg \<Rightarrow> Some (toLower name))"

definition SchemaNames :: "('f, 'i, 'o) DB \<Rightarrow> string list" where
  "SchemaNames db = sort_strings (map fst (schemas db))"

definition invalidSchema :: "string \<Rightarrow> go_error" where
  "invalidSchema name = Wrapf '''' (Sentinel ErrInvalidSchema) ('': '' @ go_quote name)"

definition attachStatement :: "string \<Rightarrow> string" where
  "attachStatement name =
     ''ATTACH DATABASE '' @ [CHR 0x27] @ '':memory:'' @ [CHR 0x27] @ '' AS '' @ quoteIdentifier name"

definition CreateSchema ::
  "('i, ('f, 'i, 'o) DB) env \<Rightarrow> ('f, 'i, 'o) DB ctx \<Rightarrow> string
     \<Rightarrow> ('f, 'i, 'o) DB \<Rightarrow> (go_error + string) \<times> ('f, 'i, 'o) DB" where
  "CreateSchema env ctx requestedName db =
     (if \<not> schemaNamePattern requestedName then (Inl (invalidSchema requestedName), db)
      else (let name = toLower requestedName in
        if name = ''main'' \<or> name = ''temp'' \<or> name = ''public'' then (Inl (invalidSchema requestedName), db)
        else if db_closed db then (Inl (Sentinel ErrClosed), db)
        else if map_of (schemas db) name \<noteq> None
        then (Inl (PgError (Error_struct ''42P06'' (''schema '' @ go_quote name @ '' already exists'') '''' None)), db)
        else (case DB_ExecContext (engine env) ctx (attachStatement name) [] db of
            (Inl e, db1) \<Rightarrow> (Inl (executionError '''' e), db1)
          | (Inr r, db1) \<Rightarrow>
              if db_closed db1 then (Inl (Sentinel ErrClosed), db1)
              else (Inr name, db1\<lparr>schemas := AList.update name empty_interceptors (schemas db1)\<rparr>))))"

text \<open>\<^verbatim>\<open>RegisterFunction\<close> of a schema, and of a database for its public schema.\<close>

definition Schema_RegisterFunction ::
  "string option \<Rightarrow> 'f scalar_fn \<Rightarrow> ('f, 'i, 'o) DB \<Rightarrow> go_error option \<times> ('f, 'i, 'o) DB" where
  "Schema_RegisterFunction s f db =
     (case RegisterFunction s (db_closed db) f (fn_registry db) of
        Inl e \<Rightarrow> (Some e, db)
      | Inr r \<Rightarrow> (None, db\<lparr>fn_registry := r\<rparr>))"

definition DB_RegisterFunction :: "'f scalar_fn \<Rightarrow> ('f, 'i, 'o) DB \<Rightarrow> go_error option \<times> ('f, 'i, 'o) DB" where
  "DB_RegisterFunction f db = Schema_RegisterFunction (Public db) f db"

section \<open>Options\<close>

text \<open>An option changes the configuration, here the translator, or fails; a nil option is \<^term>\<open>None\<close>.\<close>

type_synonym 't db_option = "'t \<Rightarrow> go_error + 't"

definition WithTranslator :: "'t option \<Rightarrow> 't db_option" where
  "WithTranslator new cfg =
     (case new of None \<Rightarrow> Inl (ErrorText ''pgmem: translator must not be nil'') | Some t \<Rightarrow> Inr t)"

fun applyOptions :: "'t db_option option list \<Rightarrow> 't \<Rightarrow> go_error + 't" where
  "applyOptions [] cfg = Inr cfg"
| "applyOptions (None # options) cfg = Inl (ErrorText ''pgmem: option must not be nil'')"
| "applyOptions (Some opt # options) cfg = bind_sum (opt cfg) (applyOptions options)"

section \<open>A process\<close>

text \<open>
  What the package asks of the operating system and \<^verbatim>\<open>database/sql\<close> to open and close a
  database: 32 random bytes, a pool for a data source name, a statement on it, closing it.
\<close>

record 'w platform =
  rand_Read :: "'w \<Rightarrow> (go_error + string) \<times> 'w"
  sql_Open :: "string \<Rightarrow> string \<Rightarrow> 'w \<Rightarrow> (go_error + nat) \<times> 'w"
  pool_Exec :: "nat \<Rightarrow> 'w ctx \<Rightarrow> string \<Rightarrow> 'w \<Rightarrow> go_error option \<times> 'w"
  pool_Close :: "nat \<Rightarrow> 'w \<Rightarrow> go_error option \<times> 'w"

record ('f, 'i, 't) opened =
  sqlDB :: nat
  od_translator :: 't
  od_state :: "('f, 'i, unit) DB"

text \<open>
  The package-level variables, the databases opened so far (a \<^verbatim>\<open>*DB\<close> is an index into them)
  and the world.
\<close>

record ('f, 'i, 't, 'w) process =
  databaseSequence :: "64 word"
  functionDatabases :: "(string \<times> nat) list"
  databases :: "('f, 'i, 't) opened list"
  world :: 'w

definition hex_digit :: "nat \<Rightarrow> char" where
  "hex_digit n = (if n < 10 then char_of (48 + n) else char_of (87 + n))"

definition hexEncode :: "string \<Rightarrow> string" where
  "hexEncode bytes = concat (map (\<lambda>c. [hex_digit (of_char c div 16), hex_digit (of_char c mod 16)]) bytes)"

definition newDispatchID :: "'w platform \<Rightarrow> 'w \<Rightarrow> (go_error + string) \<times> 'w" where
  "newDispatchID os w =
     (case rand_Read os w of
        (Inl e, w') \<Rightarrow> (Inl (Wrapf ''generate function-dispatch capability: '' e ''''), w')
      | (Inr capability, w') \<Rightarrow> (Inr (hexEncode capability), w'))"

definition dataSourceName :: "64 word \<Rightarrow> string" where
  "dataSourceName n = ''file:pgmem-'' @ decimal (unat n) @ ''?mode=memory&cache=shared''"

definition initialState :: "string \<Rightarrow> ('f, 'i, unit) DB" where
  "initialState did =
     \<lparr>schemas = [(''public'', empty_interceptors)], dispatchID = did, fn_registry = [],
      db_closed = False, outside = ()\<rparr>"

definition NewContext ::
  "'w platform \<Rightarrow> 't \<Rightarrow> 'w ctx \<Rightarrow> 't db_option option list
     \<Rightarrow> ('f, 'i, 't, 'w) process \<Rightarrow> (go_error + nat) \<times> ('f, 'i, 't, 'w) process" where
  "NewContext os defaultTranslator ctx options p =
     (case applyOptions options defaultTranslator of
        Inl e \<Rightarrow> (Inl e, p)
      | Inr cfg \<Rightarrow>
          (case newDispatchID os (world p) of
             (Inl e, w1) \<Rightarrow> (Inl (Wrapf ''pgmem: '' e ''''), p\<lparr>world := w1\<rparr>)
           | (Inr did, w1) \<Rightarrow>
               (let seqno = databaseSequence p + 1;
                    p1 = p\<lparr>databaseSequence := seqno\<rparr>
                in case sql_Open os ''sqlite'' (dataSourceName seqno) w1 of
                  (Inl e, w2) \<Rightarrow> (Inl (Wrapf ''pgmem: open internal database: '' e ''''), p1\<lparr>world := w2\<rparr>)
                | (Inr pool, w2) \<Rightarrow>
                    (case pool_Exec os pool ctx ''PRAGMA foreign_keys = ON'' w2 of
                       (Some e, w3) \<Rightarrow>
                         (Inl (Wrapf ''pgmem: enable foreign keys: '' e ''''),
                          p1\<lparr>world := snd (pool_Close os pool w3)\<rparr>)
                     | (None, w3) \<Rightarrow>
                         (let h = length (databases p1) in
                          (Inr h,
                           p1\<lparr>databases := databases p1 @ [\<lparr>sqlDB = pool, od_translator = cfg, od_state = initialState did\<rparr>],
                              functionDatabases := AList.update did h (functionDatabases p1),
                              world := w3\<rparr>))))))"

definition Close :: "'w platform \<Rightarrow> nat \<Rightarrow> ('f, 'i, 't, 'w) process \<Rightarrow> go_error option \<times> ('f, 'i, 't, 'w) process" where
  "Close os h p =
     (let d = databases p ! h; st = od_state d in
      if db_closed st then (None, p)
      else (let (e, w') = pool_Close os (sqlDB d) (world p) in
        (e, p\<lparr>databases := (databases p)[h := d\<lparr>od_state := st\<lparr>db_closed := True\<rparr>\<rparr>],
              functionDatabases := AList.delete (dispatchID st) (functionDatabases p),
              world := w'\<rparr>)))"

definition process_RegisterFunction ::
  "nat \<Rightarrow> string option \<Rightarrow> 'f scalar_fn \<Rightarrow> ('f, 'i, 't, 'w) process \<Rightarrow> go_error option \<times> ('f, 'i, 't, 'w) process" where
  "process_RegisterFunction h s f p =
     (let d = databases p ! h; (e, st) = Schema_RegisterFunction s f (od_state d) in
      (e, p\<lparr>databases := (databases p)[h := d\<lparr>od_state := st\<rparr>]\<rparr>))"

text \<open>What the dispatcher loads for an identifier.\<close>

definition loadFunctions :: "('f, 'i, 't, 'w) process \<Rightarrow> string \<Rightarrow> 'f functionRegistry option" where
  "loadFunctions p did =
     map_option (\<lambda>h. fn_registry (od_state (databases p ! h))) (map_of (functionDatabases p) did)"

section \<open>Entry points without a context\<close>

definition New ::
  "'w platform \<Rightarrow> 't \<Rightarrow> 't db_option option list
     \<Rightarrow> ('f, 'i, 't, 'w) process \<Rightarrow> (go_error + nat) \<times> ('f, 'i, 't, 'w) process" where
  "New os defaultTranslator options = NewContext os defaultTranslator Background options"

text \<open>\<^verbatim>\<open>MustNew\<close> panics, here \<^term>\<open>None\<close>, where \<^verbatim>\<open>New\<close> reports an error.\<close>

definition MustNew ::
  "'w platform \<Rightarrow> 't \<Rightarrow> 't db_option option list
     \<Rightarrow> ('f, 'i, 't, 'w) process \<Rightarrow> nat option \<times> ('f, 'i, 't, 'w) process" where
  "MustNew os defaultTranslator options p =
     (case New os defaultTranslator options p of (Inl e, p') \<Rightarrow> (None, p') | (Inr h, p') \<Rightarrow> (Some h, p'))"

text \<open>The pool itself, known by its number.\<close>

definition SQLDB :: "nat \<Rightarrow> ('f, 'i, 't, 'w) process \<Rightarrow> nat" where
  "SQLDB h p = sqlDB (databases p ! h)"

end
