(* ===== verification/TranslatorCorrect.thy ===== *)
theory TranslatorCorrect imports Translator
begin

text \<open>
  Correctness of the tree rewriting of \<^verbatim>\<open>translator.go\<close>: every relation of a translated
  tree is pinned to an engine schema, nothing PostgreSQL-specific that the translator knows
  is left, translating again changes nothing, and the targets of foreign keys keep their
  meaning although their qualifiers are removed.
\<close>

section \<open>Passes over trees\<close>

text \<open>
  A node rewrite, followed by the same pass over the children and a finishing step that
  sees the rewritten children: the shape of both recursive functions of the file.  Facts
  about every message of the result follow from facts about one node.
\<close>

locale tree_pass =
  fixes step :: "msg \<Rightarrow> msg" and finish :: "msg \<Rightarrow> msg" and pass :: "msg \<Rightarrow> msg"
  assumes pass_eq: "pass m = finish (map_children pass (step m))"
    and step_size: "msize (step m) \<le> msize m"
    and kind_step: "kind (step m) = kind m"
    and kind_finish: "kind (finish m) = kind m"
begin

lemma kind_pass: "kind (pass m) = kind m"
  by (subst pass_eq) (simp add: kind_finish kind_step)

lemma pass_induct [case_names node]:
  assumes "\<And>m. (\<And>c. c \<in> set (children (step m)) \<Longrightarrow> P c) \<Longrightarrow> P m"
  shows "P m"
proof (induction m rule: msize_induct)
  case (step m)
  show ?case
  proof (rule assms)
    fix c assume "c \<in> set (children (step m))"
    then have "msize c < msize m" using step_size by (rule children_smaller [THEN less_le_trans])
    then show "P c" by (rule step.IH)
  qed
qed

end

lemma clear_eq:
  "clearSameSchemaForeignKeyQualifiers ts m =
     map_children (clearSameSchemaForeignKeyQualifiers ts) (clearConstraint ts m)"
  by (subst clearSameSchemaForeignKeyQualifiers.simps) (rule refl)

lemma kind_clearConstraint [simp]: "kind (clearConstraint ts m) = kind m"
  by (auto simp: clearConstraint_def split: option.split)

lemma kind_rewriteNode [simp]: "kind (rewriteNode ds m) = kind m"
  by (auto simp: rewriteNode_def rewriteRangeVar_def rewritePostgreSQLType_def rewriteILike_def Let_def
      split: mkind.split option.split)

lemma kind_finishCreateStmt [simp]: "kind (finishCreateStmt m) = kind m"
  by (auto simp: finishCreateStmt_def split: option.split)

interpretation clear: tree_pass "clearConstraint ts" id "clearSameSchemaForeignKeyQualifiers ts" for ts
  by unfold_locales (auto simp: msize_clearConstraint intro: clear_eq)

interpretation rewrite: tree_pass "rewriteNode ds" finishCreateStmt "rewritePostgreSQLTree ds" for ds
  by unfold_locales (auto simp: msize_rewriteNode rewritePostgreSQLTree.simps)

text \<open>Fields that no step of a pass assigns.\<close>

lemma get_field_clearConstraint:
  "n \<noteq> ''pktable'' \<Longrightarrow> get_field n (clearConstraint ts m) = get_field n m"
  by (auto simp: clearConstraint_def split: option.split)

lemma get_field_rewriteNode:
  "n \<noteq> ''schemaname'' \<Longrightarrow> n \<noteq> ''names'' \<Longrightarrow> n \<noteq> ''kind'' \<Longrightarrow> n \<noteq> ''name''
     \<Longrightarrow> get_field n (rewriteNode ds m) = get_field n m"
  by (auto simp: rewriteNode_def rewriteRangeVar_def rewritePostgreSQLType_def rewriteILike_def
      Let_def set_string_def get_field_update split: mkind.split option.split)

lemma get_field_finishCreateStmt:
  "n \<noteq> ''table_elts'' \<Longrightarrow> get_field n (finishCreateStmt m) = get_field n m"
  by (auto simp: finishCreateStmt_def get_field_update split: option.split)

lemma get_field_clear:
  "n \<noteq> ''pktable'' \<Longrightarrow> get_field n (clearSameSchemaForeignKeyQualifiers ts m) =
     map_option (map_fvalue (clearSameSchemaForeignKeyQualifiers ts)) (get_field n m)"
  by (subst clear_eq) (simp add: get_field_map_children get_field_clearConstraint)

lemma get_field_rewrite:
  "n \<noteq> ''schemaname'' \<Longrightarrow> n \<noteq> ''names'' \<Longrightarrow> n \<noteq> ''kind'' \<Longrightarrow> n \<noteq> ''name'' \<Longrightarrow> n \<noteq> ''table_elts''
     \<Longrightarrow> get_field n (rewritePostgreSQLTree ds m) =
       map_option (map_fvalue (rewritePostgreSQLTree ds)) (get_field n m)"
  by (subst rewrite.pass_eq)
    (simp add: get_field_finishCreateStmt get_field_map_children get_field_rewriteNode)

lemma get_of_mapped_field:
  assumes "get_field n x = map_option (map_fvalue f) (get_field n m)"
  shows "get_string n x = get_string n m" and "get_enum n x = get_enum n m"
    and "get_msg n x = map_option f (get_msg n m)"
    and "get_list n x = map f (get_list n m)"
  using assms
  by (auto simp: get_string_def get_enum_def get_msg_def get_list_def map_option_case
      split: option.split fvalue.split)

lemmas clear_fields [simp] =
  get_of_mapped_field [OF get_field_clear]

lemma rewrite_string_fields [simp]:
  "get_string ''sval'' (rewritePostgreSQLTree ds m) = get_string ''sval'' m"
  "get_String (rewritePostgreSQLTree ds m) = map_option (rewritePostgreSQLTree ds) (get_String m)"
  "get_msg ''pktable'' (rewritePostgreSQLTree ds m) =
     map_option (rewritePostgreSQLTree ds) (get_msg ''pktable'' m)"
  "get_msg ''relation'' (rewritePostgreSQLTree ds m) =
     map_option (rewritePostgreSQLTree ds) (get_msg ''relation'' m)"
  by (simp_all add: get_of_mapped_field [OF get_field_rewrite] get_String_def)

section \<open>Schema qualification\<close>

text \<open>The engine schema a relation of the source denotes.\<close>

definition qualify :: "string \<Rightarrow> string \<Rightarrow> string" where
  "qualify defaultSchema s =
     (if s = ''public'' then ''main''
      else if s = '''' then (if defaultSchema = ''public'' then ''main'' else defaultSchema)
      else s)"

lemma qualify_main: "qualify ds s \<noteq> ''public''"
  by (simp add: qualify_def)

lemma qualify_nonempty: "ds \<noteq> '''' \<Longrightarrow> qualify ds s \<noteq> ''''"
  by (simp add: qualify_def)

lemma schemaname_rewriteRangeVar:
  "get_string ''schemaname'' (rewriteRangeVar ds m) = qualify ds (get_string ''schemaname'' m)"
  by (simp add: rewriteRangeVar_def qualify_def Let_def)

lemma schemaname_rewrite:
  assumes "kind m = RangeVar"
  shows "get_string ''schemaname'' (rewritePostgreSQLTree ds m) =
     qualify ds (get_string ''schemaname'' m)"
proof -
  have "kind (rewriteRangeVar ds m) = RangeVar"
    using assms kind_rewriteNode [of ds m] by (simp add: rewriteNode_def)
  with assms schemaname_rewriteRangeVar [of ds m] show ?thesis
    by (subst rewrite.pass_eq) (simp add: finishCreateStmt_def rewriteNode_def)
qed

text \<open>
  Every relation below a message names a schema and none is PostgreSQL's \<open>public\<close>; the
  target of a foreign key (\<open>fk\<close>) may be without a qualifier.
\<close>

function pinned :: "bool \<Rightarrow> msg \<Rightarrow> bool" where
  "pinned fk m =
     ((if kind m = RangeVar
       then get_string ''schemaname'' m \<noteq> ''public'' \<and> (fk \<or> get_string ''schemaname'' m \<noteq> '''')
       else True)
      \<and> list_all (\<lambda>(n, v). list_all (pinned (kind m = Constraint \<and> n = ''pktable'')) (submsgs v))
          (populated m))"
  by pat_completeness auto
termination
  by (relation "measure (\<lambda>(b, m). msize m)") (auto intro: children_smaller)

declare pinned.simps [simp del]

lemma pinned_iff:
  "pinned fk m \<longleftrightarrow>
     (kind m = RangeVar \<longrightarrow> get_string ''schemaname'' m \<noteq> ''public''
        \<and> (fk \<or> get_string ''schemaname'' m \<noteq> ''''))
     \<and> (\<forall>n v c. (n, v) \<in> set (populated m) \<longrightarrow> c \<in> set (submsgs v)
          \<longrightarrow> pinned (kind m = Constraint \<and> n = ''pktable'') c)"
  by (subst pinned.simps) (auto simp: list_all_iff)

lemma pinned_weaken: "pinned False m \<Longrightarrow> pinned fk m"
  by (simp add: pinned_iff [of _ m])

lemma pinned_children:
  assumes "kind m \<noteq> Constraint"
  shows "pinned fk m \<longleftrightarrow>
     (kind m = RangeVar \<longrightarrow> get_string ''schemaname'' m \<noteq> ''public''
        \<and> (fk \<or> get_string ''schemaname'' m \<noteq> ''''))
     \<and> (\<forall>c \<in> set (children m). pinned False c)"
  using assms by (auto simp: pinned_iff [of fk m] children_iff)

lemma populated_map_children:
  "populated (map_children f m) = map (\<lambda>(n, v). (n, map_fvalue f v)) (populated m)"
  by (simp add: map_children_def)

lemma submsgs_map_fvalue [simp]: "submsgs (map_fvalue f v) = map f (submsgs v)"
  by (cases v) simp_all

lemma pinned_map_children:
  assumes "kind m = RangeVar \<Longrightarrow> get_string ''schemaname'' m \<noteq> ''public''
        \<and> (fk \<or> get_string ''schemaname'' m \<noteq> '''')"
    and "\<And>n v c. (n, v) \<in> set (populated m) \<Longrightarrow> c \<in> set (submsgs v) \<Longrightarrow>
          pinned (kind m = Constraint \<and> n = ''pktable'') (f c)"
  shows "pinned fk (map_children f m)"
  using assms by (auto simp: pinned_iff [of fk "map_children f m"] populated_map_children)

lemma set_update_subset: "set (AList.update f v fs) \<subseteq> insert (f, v) (set fs)"
  by (induction fs) auto

lemma pinned_clearConstraint:
  assumes "pinned fk m" shows "pinned fk (clearConstraint ts m)"
proof (cases "get_msg ''pktable'' m")
  case (Some pk)
  have pk: "(''pktable'', FMsg pk) \<in> set (populated m)"
    using Some by (auto simp: get_msg_def get_field_def split: option.splits fvalue.splits
        dest: map_of_SomeD)
  have q: "pinned True (set_string ''schemaname'' '''' pk)" if "kind m = Constraint"
  proof -
    have "pinned True pk"
      using assms pk that by (fastforce simp: pinned_iff [of fk m])
    moreover have "set (populated (clear_field ''schemaname'' pk)) \<subseteq> set (populated pk)"
      by (auto simp: clear_field_def)
    ultimately show ?thesis
      by (auto simp: pinned_iff [of _ "clear_field ''schemaname'' pk"] pinned_iff [of _ pk]
          set_string_def get_string_def)
  qed
  show ?thesis
    using assms q set_update_subset [of "''pktable''"] 
    by (fastforce simp: clearConstraint_def Some pinned_iff [of fk m] set_field_def
        pinned_iff [of fk "Msg _ _"])
qed (use assms in \<open>simp add: clearConstraint_def\<close>)

lemma pinned_clear:
  "pinned fk m \<Longrightarrow> pinned fk (clearSameSchemaForeignKeyQualifiers ts m)"
proof (induction m arbitrary: fk rule: clear.pass_induct [where ts = ts])
  case (node m)
  from pinned_clearConstraint [OF node.prems, of ts] show ?case
    by (subst clear_eq, intro pinned_map_children)
      (auto simp: pinned_iff [of fk "clearConstraint ts m"] intro!: node.IH)
qed

lemma pinned_finishCreateStmt:
  assumes "pinned False m" shows "pinned False (finishCreateStmt m)"
proof -
  have "pinned False (update_list ''table_elts'' (clearSameSchemaForeignKeyQualifiers ts) m)"
    if kind: "kind m = CreateStmt" for ts
  proof -
    have "pinned False c" if "c \<in> set (children m)" for c
      using assms that kind by (simp add: pinned_children)
    moreover from this have "pinned False (clearSameSchemaForeignKeyQualifiers ts x)"
      if "x \<in> set (get_list ''table_elts'' m)" for x
      using that by (intro pinned_clear) (blast intro: get_list_child)
    ultimately show ?thesis
      using kind by (auto simp: pinned_children dest!: children_update_list)
  qed
  then show ?thesis
    using assms by (simp add: finishCreateStmt_def split: option.split)
qed

lemma pinned_rewrite:
  assumes "ds \<noteq> ''''"
  shows "pinned False (rewritePostgreSQLTree ds m)"
proof (induction m rule: rewrite.pass_induct [where ds = ds])
  case (node m)
  have "pinned False (map_children (rewritePostgreSQLTree ds) (rewriteNode ds m))"
  proof (rule pinned_map_children)
    assume "kind (rewriteNode ds m) = RangeVar"
    then have "kind m = RangeVar" by simp
    then show "get_string ''schemaname'' (rewriteNode ds m) \<noteq> ''public''
        \<and> (False \<or> get_string ''schemaname'' (rewriteNode ds m) \<noteq> '''')"
      using assms by (simp add: rewriteNode_def schemaname_rewriteRangeVar qualify_main qualify_nonempty)
  qed (rule pinned_weaken [OF node], rule child_of_field)
  then show ?case
    by (subst rewrite.pass_eq) (rule pinned_finishCreateStmt)
qed

section \<open>The internal dialect\<close>

definition type_name :: "msg \<Rightarrow> string option" where
  "type_name m = (let names = get_list ''names'' m in
     if names = [] then None else map_option (get_string ''sval'') (get_String (last names)))"

text \<open>Nothing the translator replaces is left in a node.\<close>

definition node_internal :: "msg \<Rightarrow> bool" where
  "node_internal m = (case kind m of
     RangeVar \<Rightarrow> get_string ''schemaname'' m \<noteq> ''public''
   | TypeName \<Rightarrow> (case type_name m of None \<Rightarrow> True | Some t \<Rightarrow> map_of type_table (toLower t) = None)
   | A_Expr \<Rightarrow> get_enum ''kind'' m \<noteq> ''AEXPR_ILIKE''
   | _ \<Rightarrow> True)"

definition internal_dialect :: "msg \<Rightarrow> bool" where
  "internal_dialect m = list_all node_internal (all_msgs m)"

lemma list_all_all_msgs:
  "list_all P (all_msgs m) \<longleftrightarrow> P m \<and> (\<forall>c \<in> set (children m). list_all P (all_msgs c))"
  by (subst all_msgs.simps) (auto simp: list_all_iff)

lemma internal_dialect_iff:
  "internal_dialect m \<longleftrightarrow> node_internal m \<and> (\<forall>c \<in> set (children m). internal_dialect c)"
  unfolding internal_dialect_def by (rule list_all_all_msgs)

text \<open>The storage types of the table are not themselves replaced.\<close>

lemma type_table_range:
  "map_of type_table t = Some u \<Longrightarrow> map_of type_table (toLower u) = None"
proof -
  assume "map_of type_table t = Some u"
  then have "u \<in> snd ` set type_table" by (force dest: map_of_SomeD)
  moreover have "list_all (\<lambda>(t, u). map_of type_table (toLower u) = None) type_table" by code_simp
  ultimately show ?thesis by (auto simp: list_all_iff)
qed

lemma type_name_set_names: "type_name (set_field ''names'' (FList [MakeStrNode t]) m) = Some t"
  by (simp add: type_name_def get_list_def)

lemma node_internal_rewritePostgreSQLType:
  "case type_name (rewritePostgreSQLType m) of None \<Rightarrow> True
   | Some t \<Rightarrow> map_of type_table (toLower t) = None"
proof (cases "type_name m")
  case None
  then have "rewritePostgreSQLType m = m"
    by (auto simp: type_name_def rewritePostgreSQLType_def Let_def split: if_splits)
  with None show ?thesis by simp
next
  case (Some t)
  then obtain l where l: "get_list ''names'' m \<noteq> []" "get_String (last (get_list ''names'' m)) = Some l"
    "t = get_string ''sval'' l"
    by (auto simp: type_name_def Let_def split: if_splits)
  show ?thesis
  proof (cases "map_of type_table (toLower t)")
    case None
    with l Some show ?thesis by (simp add: rewritePostgreSQLType_def)
  next
    case (Some u)
    with l type_table_range [OF Some] show ?thesis
      by (simp add: rewritePostgreSQLType_def type_name_set_names)
  qed
qed

lemma node_internal_rewriteNode: "node_internal (rewriteNode ds m)"
proof (cases "kind m")
  case RangeVar
  then show ?thesis
    using kind_rewriteNode [of ds m] schemaname_rewriteRangeVar [of ds m]
    by (simp add: node_internal_def rewriteNode_def qualify_main)
next
  case TypeName
  then show ?thesis
    using kind_rewriteNode [of ds m]
    by (simp add: node_internal_def rewriteNode_def node_internal_rewritePostgreSQLType)
next
  case A_Expr
  then show ?thesis
    using kind_rewriteNode [of ds m]
    by (auto simp: node_internal_def rewriteNode_def rewriteILike_def get_enum_def get_field_update)
qed (use kind_rewriteNode [of ds m] in \<open>simp_all add: node_internal_def\<close>)

lemma type_name_map_children:
  assumes "\<And>x. get_String (f x) = map_option f (get_String x)"
    and "\<And>x. get_string ''sval'' (f x) = get_string ''sval'' x"
  shows "type_name (map_children f m) = type_name m"
  by (simp add: type_name_def Let_def assms last_map option.map_comp comp_def)

lemma node_internal_map_children:
  assumes "\<And>x. get_String (f x) = map_option f (get_String x)"
    and "\<And>x. get_string ''sval'' (f x) = get_string ''sval'' x"
  shows "node_internal (map_children f m) = node_internal m"
  using type_name_map_children [of f m, OF assms]
  by (cases "kind m") (simp_all add: node_internal_def)

lemma clear_string_fields [simp]:
  "get_string ''sval'' (clearSameSchemaForeignKeyQualifiers ts m) = get_string ''sval'' m"
  "get_string ''schemaname'' (clearSameSchemaForeignKeyQualifiers ts m) = get_string ''schemaname'' m"
  "get_String (clearSameSchemaForeignKeyQualifiers ts m) =
     map_option (clearSameSchemaForeignKeyQualifiers ts) (get_String m)"
  by (simp_all add: get_String_def)

lemma node_internal_set_schemaname: "node_internal pk \<Longrightarrow> node_internal (set_string ''schemaname'' '''' pk)"
  by (cases "kind pk") (simp_all add: node_internal_def type_name_def)

lemma internal_set_schemaname:
  "internal_dialect pk \<Longrightarrow> internal_dialect (set_string ''schemaname'' '''' pk)"
  using children_set_string [of "''schemaname''" "''''" pk]
  by (auto simp: internal_dialect_iff [of pk] internal_dialect_iff [of "set_string _ _ _"]
      node_internal_set_schemaname)

lemma internal_clearConstraint:
  assumes "internal_dialect m" shows "internal_dialect (clearConstraint ts m)"
proof (cases "kind m = Constraint")
  case True
  have "internal_dialect c" if "c \<in> set (children (clearConstraint ts m))" for c
  proof (cases "get_msg ''pktable'' m")
    case (Some pk)
    have pk: "internal_dialect pk"
      using assms get_msg_child [OF Some] internal_dialect_iff [of m] by blast
    show ?thesis
      using that assms internal_set_schemaname [OF pk] internal_dialect_iff [of m]
      by (auto simp: clearConstraint_def Some True split: if_splits dest: subsetD [OF children_set_field])
  qed (use that True assms internal_dialect_iff [of m] in \<open>simp add: clearConstraint_def\<close>)
  then show ?thesis
    by (simp add: internal_dialect_iff [of "clearConstraint ts m"] node_internal_def True)
qed (use assms in \<open>simp add: clearConstraint_def\<close>)

lemma internal_clear:
  "internal_dialect m \<Longrightarrow> internal_dialect (clearSameSchemaForeignKeyQualifiers ts m)"
proof (induction m rule: clear.pass_induct [where ts = ts])
  case (node m)
  have "internal_dialect (clearConstraint ts m)"
    using node.prems by (rule internal_clearConstraint)
  then show ?case
    by (subst clear_eq)
      (auto simp: internal_dialect_iff [of "clearConstraint ts m"] internal_dialect_iff [of "map_children _ _"]
        node_internal_map_children intro: node.IH)
qed

lemma internal_rewrite: "internal_dialect (rewritePostgreSQLTree ds m)"
proof (induction m rule: rewrite.pass_induct [where ds = ds])
  case (node m)
  let ?y = "map_children (rewritePostgreSQLTree ds) (rewriteNode ds m)"
  have y: "internal_dialect ?y"
    by (auto simp: internal_dialect_iff [of ?y] node_internal_map_children node_internal_rewriteNode
        intro: node)
  have "internal_dialect (update_list ''table_elts'' (clearSameSchemaForeignKeyQualifiers ts) ?y)"
    if "kind m = CreateStmt" for ts
  proof -
    have "internal_dialect c" if "c \<in> set (children ?y)" for c
      using y that internal_dialect_iff [of ?y] by blast
    moreover from this have "internal_dialect (clearSameSchemaForeignKeyQualifiers ts x)"
      if "x \<in> set (get_list ''table_elts'' ?y)" for x
      using that by (intro internal_clear) (blast intro: get_list_child)
    ultimately show ?thesis
      using that by (auto simp: internal_dialect_iff [of "update_list _ _ _"] node_internal_def
          simp del: get_list_map_children children_map_children dest!: children_update_list)
  qed
  with y show ?case
    by (subst rewrite.pass_eq) (simp add: finishCreateStmt_def split: option.split)
qed

section \<open>Fixed points\<close>

text \<open>A node that the translator leaves alone, whatever the receiving schema.\<close>

definition node_fixed :: "msg \<Rightarrow> bool" where
  "node_fixed m \<longleftrightarrow> node_internal m \<and> kind m \<noteq> CreateStmt
     \<and> (if kind m = RangeVar then get_string ''schemaname'' m \<noteq> '''' else True)"

lemma rewriteNode_fixed: "node_fixed m \<Longrightarrow> rewriteNode ds m = m"
  by (cases "kind m")
    (auto simp: node_fixed_def node_internal_def rewriteNode_def rewriteRangeVar_def
      rewriteILike_def rewritePostgreSQLType_def type_name_def Let_def split: option.splits if_splits)

lemma rewrite_fixed:
  "list_all node_fixed (all_msgs m) \<Longrightarrow> rewritePostgreSQLTree ds m = m"
proof (induction m rule: rewrite.pass_induct [where ds = ds])
  case (node m)
  have fixed: "rewriteNode ds m = m" "kind m \<noteq> CreateStmt"
    using node.prems by (simp_all add: list_all_all_msgs [of _ m] rewriteNode_fixed node_fixed_def)
  have "map_children (rewritePostgreSQLTree ds) m = m"
    using node.IH node.prems fixed by (intro map_children_id) (simp add: list_all_all_msgs [of _ m])
  with fixed show ?case by (subst rewrite.pass_eq) (simp add: finishCreateStmt_def)
qed

text \<open>
  The messages below a rewritten node: those of the node, except that the string nodes a
  type name or an operator is made of may be exchanged for others.
\<close>

definition is_str_node :: "msg \<Rightarrow> bool" where
  "is_str_node c \<longleftrightarrow> c = MakeStrNode (case get_String c of Some s \<Rightarrow> get_string ''sval'' s | None \<Rightarrow> '''')"

lemma is_str_node_iff: "is_str_node c \<longleftrightarrow> (\<exists>s. c = MakeStrNode s)"
  by (auto simp: is_str_node_def)

definition names_typed :: "msg \<Rightarrow> bool" where
  "names_typed m = (case kind m of
     TypeName \<Rightarrow> list_all is_str_node (get_list ''names'' m)
   | A_Expr \<Rightarrow> list_all is_str_node (get_list ''name'' m)
   | _ \<Rightarrow> True)"

lemma rewriteOperator_MakeStrNode:
  "\<exists>t. update_msg ''string'' rewriteOperator (MakeStrNode s) = MakeStrNode t"
proof -
  have "set_string ''sval'' t (string_msg s) = string_msg t" if "s \<noteq> ''''" "t \<noteq> ''''" for t
    using that by (simp add: set_string_def string_msg_def set_field_def)
  then have "\<exists>t. rewriteOperator (string_msg s) = string_msg t"
    by (auto simp: rewriteOperator_def)
  then show ?thesis
    by (auto simp: update_msg_def MakeStrNode_def get_field_def set_field_def)
qed

lemma children_rewriteNode:
  assumes "names_typed m" and "c \<in> set (children (rewriteNode ds m))"
  shows "c \<in> set (children m) \<or> is_str_node c"
proof (cases "kind m")
  case RangeVar
  with assms(2) children_set_string show ?thesis
    by (fastforce simp: rewriteNode_def rewriteRangeVar_def Let_def split: if_splits)
next
  case TypeName
  with assms(2) children_set_field [of "''names''" _ m] show ?thesis
    by (force simp: rewriteNode_def rewritePostgreSQLType_def Let_def is_str_node_iff
        split: if_splits option.splits)
next
  case A_Expr
  let ?m = "set_field ''kind'' (FScalar (SEnum ''AEXPR_LIKE'')) m"
  have names: "get_list ''name'' ?m = get_list ''name'' m" by (simp add: get_list_def)
  have "list_all is_str_node (get_list ''name'' m)"
    using assms(1) A_Expr by (simp add: names_typed_def)
  then have "is_str_node (update_msg ''string'' rewriteOperator x)"
    if "x \<in> set (get_list ''name'' m)" for x
    using that rewriteOperator_MakeStrNode by (force simp: list_all_iff is_str_node_iff)
  with assms(2) A_Expr names children_set_field [of "''kind''" "FScalar (SEnum ''AEXPR_LIKE'')" m]
  show ?thesis
    by (auto simp: rewriteNode_def rewriteILike_def split: if_splits dest!: children_update_list)
qed (use assms(2) in \<open>simp_all add: rewriteNode_def\<close>)

lemma kind_str_nodes [simp]: "kind (MakeStrNode s) = Node" "kind (string_msg s) = StringMsg"
  by (simp_all add: MakeStrNode_def string_msg_def)

lemma all_msgs_MakeStrNode [simp]: "all_msgs (MakeStrNode s) = [MakeStrNode s, string_msg s]"
proof -
  have "children (MakeStrNode s) = [string_msg s]" "children (string_msg s) = []"
    by (simp_all add: MakeStrNode_def string_msg_def children_def)
  then show ?thesis by (simp add: all_msgs.simps [of "MakeStrNode s"] all_msgs.simps [of "string_msg s"])
qed

text \<open>
  The trees on which translation is a projection: no \<^verbatim>\<open>CREATE TABLE\<close> statement, whose
  foreign keys are treated by their context, and names made of string nodes, as the
  parser builds them.
\<close>

definition plain_tree :: "msg \<Rightarrow> bool" where
  "plain_tree m = list_all (\<lambda>x. kind x \<noteq> CreateStmt \<and> names_typed x) (all_msgs m)"

lemma plain_tree_iff:
  "plain_tree m \<longleftrightarrow> kind m \<noteq> CreateStmt \<and> names_typed m \<and> (\<forall>c \<in> set (children m). plain_tree c)"
  unfolding plain_tree_def by (subst list_all_all_msgs) simp

lemma plain_tree_children_rewriteNode:
  assumes "plain_tree m" and "c \<in> set (children (rewriteNode ds m))"
  shows "plain_tree c"
proof -
  have "names_typed m" using assms(1) by (simp add: plain_tree_iff [of m])
  then have "c \<in> set (children m) \<or> is_str_node c"
    using assms(2) by (rule children_rewriteNode)
  then show ?thesis
  proof
    assume "is_str_node c"
    then show ?thesis by (auto simp: is_str_node_iff plain_tree_def names_typed_def)
  qed (use assms(1) plain_tree_iff [of m] in blast)
qed

lemma fixed_rewrite:
  assumes "ds \<noteq> ''''"
  shows "plain_tree m \<Longrightarrow> list_all node_fixed (all_msgs (rewritePostgreSQLTree ds m))"
proof (induction m rule: rewrite.pass_induct [where ds = ds])
  case (node m)
  let ?y = "map_children (rewritePostgreSQLTree ds) (rewriteNode ds m)"
  have kind: "kind m \<noteq> CreateStmt" using node.prems by (simp add: plain_tree_iff [of m])
  then have eq: "rewritePostgreSQLTree ds m = ?y"
    by (subst rewrite.pass_eq) (simp add: finishCreateStmt_def)
  have "kind m = RangeVar \<Longrightarrow> get_string ''schemaname'' (rewriteNode ds m) \<noteq> ''''"
    using assms by (simp add: rewriteNode_def schemaname_rewriteRangeVar qualify_nonempty)
  then have "node_fixed ?y"
    using kind by (simp add: node_fixed_def node_internal_map_children node_internal_rewriteNode)
  moreover have "list_all node_fixed (all_msgs (rewritePostgreSQLTree ds c))"
    if "c \<in> set (children (rewriteNode ds m))" for c
    using that node.IH plain_tree_children_rewriteNode [OF node.prems] by blast
  ultimately show ?case
    unfolding eq by (subst list_all_all_msgs) simp
qed

section \<open>Foreign keys\<close>

text \<open>
  The schema qualifiers of the foreign key targets of a tree, in order; \<open>resolve\<close> is how
  the engine reads one inside a table of schema \<open>ts\<close>: an unqualified target is a table of
  the same database.
\<close>

definition fk_local :: "msg \<Rightarrow> string list" where
  "fk_local m = (if kind m = Constraint then
     (case get_msg ''pktable'' m of Some pk \<Rightarrow> [get_string ''schemaname'' pk] | None \<Rightarrow> []) else [])"

definition fk_schemas :: "msg \<Rightarrow> string list" where
  "fk_schemas m = concat (map fk_local (all_msgs m))"

definition resolve :: "string \<Rightarrow> string \<Rightarrow> string" where
  "resolve ts s = (if s = '''' then ts else s)"

text \<open>How the parser builds relations and foreign keys.\<close>

definition fk_typed :: "msg \<Rightarrow> bool" where
  "fk_typed m = (case kind m of
     RangeVar \<Rightarrow> list_all (\<lambda>(n, v). n \<noteq> ''schemaname'' \<or> submsgs v = []) (populated m)
   | Constraint \<Rightarrow> (case get_field ''pktable'' m of
       None \<Rightarrow> True
     | Some v \<Rightarrow> (case v of FMsg pk \<Rightarrow> kind pk = RangeVar | _ \<Rightarrow> False))
   | _ \<Rightarrow> True)"

definition table_element :: "msg \<Rightarrow> bool" where
  "table_element m \<longleftrightarrow> plain_tree m \<and> list_all fk_typed (all_msgs m)"

lemma fk_schemas_iff: "fk_schemas m = fk_local m @ concat (map fk_schemas (children m))"
  unfolding fk_schemas_def by (subst all_msgs.simps) (simp add: concat_map_concat)

lemma concat_children_set_field:
  assumes "concat (map g (submsgs v)) =
     (case get_field f m of None \<Rightarrow> [] | Some w \<Rightarrow> concat (map g (submsgs w)))"
  shows "concat (map g (children (set_field f v m))) = concat (map g (children m))"
proof -
  have "concat (map g (concat (map (\<lambda>(n, v). submsgs v) (AList.update f v fs))))
      = concat (map g (concat (map (\<lambda>(n, v). submsgs v) fs)))"
    if "concat (map g (submsgs v)) =
      (case map_of fs f of None \<Rightarrow> [] | Some w \<Rightarrow> concat (map g (submsgs w)))" for fs
    using that by (induction fs) (auto split: if_splits)
  with assms show ?thesis by (simp add: children_def set_field_def get_field_def)
qed

lemma children_set_schemaname:
  assumes "fk_typed m" and "kind m = RangeVar"
  shows "children (set_string ''schemaname'' s m) = children m"
proof -
  have scalar: "\<forall>(n, v) \<in> set (populated m). n = ''schemaname'' \<longrightarrow> submsgs v = []"
    using assms by (auto simp: fk_typed_def list_all_iff)
  have update: "concat (map (\<lambda>(n, v). submsgs v) (AList.update f (FScalar x) fs))
      = concat (map (\<lambda>(n, v). submsgs v) fs)"
    if "\<forall>(n, v) \<in> set fs. n = f \<longrightarrow> submsgs v = []" for f x fs
    using that by (induction fs) auto
  have filter: "concat (map (\<lambda>(n, v). submsgs v) (filter (\<lambda>(n, v). n \<noteq> f) fs))
      = concat (map (\<lambda>(n, v). submsgs v) fs)"
    if "\<forall>(n, v) \<in> set fs. n = f \<longrightarrow> submsgs v = []" for f fs
    using that by (induction fs) auto
  from scalar show ?thesis
    by (auto simp: set_string_def set_field_def clear_field_def children_def update filter)
qed

lemma fk_schemas_MakeStrNode [simp]: "fk_schemas (MakeStrNode s) = []"
  by (simp add: fk_schemas_def fk_local_def)

lemma fk_schemas_names: "list_all is_str_node ns \<Longrightarrow> concat (map fk_schemas ns) = []"
  by (auto simp: list_all_iff is_str_node_iff)

lemma fk_children_rewriteNode:
  assumes "names_typed m" and "fk_typed m"
  shows "concat (map fk_schemas (children (rewriteNode ds m))) = concat (map fk_schemas (children m))"
proof (cases "kind m")
  case RangeVar
  with assms show ?thesis
    by (simp add: rewriteNode_def rewriteRangeVar_def Let_def children_set_schemaname)
next
  case TypeName
  have "concat (map fk_schemas (get_list ''names'' m)) = []"
    using assms(1) TypeName by (simp add: names_typed_def fk_schemas_names)
  moreover have "get_field ''names'' m = Some (FList (get_list ''names'' m))" if "get_list ''names'' m \<noteq> []"
    using that by (auto simp: get_list_def split: option.splits fvalue.splits)
  ultimately show ?thesis
    using TypeName
    by (simp add: rewriteNode_def rewritePostgreSQLType_def Let_def concat_children_set_field
        del: concat_eq_Nil_conv split: option.split)
next
  case A_Expr
  let ?m = "set_field ''kind'' (FScalar (SEnum ''AEXPR_LIKE'')) m"
  show ?thesis
  proof (cases "get_enum ''kind'' m = ''AEXPR_ILIKE''")
    case True
    have kind: "concat (map fk_schemas (children ?m)) = concat (map fk_schemas (children m))"
      using True by (intro concat_children_set_field)
        (auto simp: get_enum_def split: option.splits fvalue.splits)
    have list: "list_all is_str_node (get_list ''name'' m)"
      using assms(1) A_Expr by (simp add: names_typed_def)
    have "concat (map fk_schemas (map (update_msg ''string'' rewriteOperator) xs)) = []"
      and "concat (map fk_schemas xs) = []"
      if "get_field ''name'' m = Some (FList xs)" for xs
      using that list fk_schemas_names [of xs] rewriteOperator_MakeStrNode
      by (auto simp: get_list_def list_all_iff is_str_node_iff)
        (metis fk_schemas_MakeStrNode)+
    then have "concat (map fk_schemas (children (update_list ''name'' (update_msg ''string'' rewriteOperator) ?m)))
        = concat (map fk_schemas (children ?m))"
      by (auto simp: update_list_def split: option.split fvalue.split
          intro!: concat_children_set_field simp del: concat_eq_Nil_conv map_map)
    with kind True A_Expr show ?thesis by (simp add: rewriteNode_def rewriteILike_def)
  qed (simp add: A_Expr rewriteNode_def rewriteILike_def)
qed (simp_all add: rewriteNode_def)

lemma fk_local_clear:
  "fk_local (clearSameSchemaForeignKeyQualifiers ts m) =
     map (\<lambda>s. if s = ts then '''' else s) (fk_local m)"
proof (cases "get_msg ''pktable'' m")
  case None
  then show ?thesis by (subst clear_eq) (simp add: fk_local_def clearConstraint_def)
next
  case (Some pk)
  have "get_msg ''pktable'' (set_field ''pktable'' (FMsg x) m) = Some x" for x
    by (simp add: get_msg_def)
  with Some show ?thesis by (subst clear_eq) (simp add: fk_local_def clearConstraint_def)
qed

lemma fk_children_clearConstraint:
  assumes "list_all fk_typed (all_msgs m)"
  shows "concat (map fk_schemas (children (clearConstraint ts m))) = concat (map fk_schemas (children m))"
proof (cases "kind m = Constraint")
  case True
  have "fk_typed m" using assms by (simp add: list_all_all_msgs [of _ m])
  have "concat (map fk_schemas (children (set_field ''pktable'' (FMsg (set_string ''schemaname'' '''' pk)) m)))
      = concat (map fk_schemas (children m))" if pk: "get_msg ''pktable'' m = Some pk" for pk
  proof -
    have "kind pk = RangeVar"
      using \<open>fk_typed m\<close> pk True by (auto simp: fk_typed_def get_msg_def split: option.splits fvalue.splits)
    moreover have "list_all fk_typed (all_msgs pk)"
      using assms get_msg_child [OF pk] by (simp add: list_all_all_msgs [of _ m])
    then have "fk_typed pk" by (simp add: list_all_all_msgs [of _ pk])
    ultimately have "fk_schemas (set_string ''schemaname'' '''' pk) = fk_schemas pk"
      by (simp add: fk_schemas_iff [of pk] fk_schemas_iff [of "set_string _ _ _"]
          children_set_schemaname fk_local_def)
    with pk show ?thesis
      by (intro concat_children_set_field)
        (auto simp: get_msg_def split: option.splits fvalue.splits)
  qed
  then show ?thesis by (simp add: clearConstraint_def split: option.split)
qed (simp add: clearConstraint_def)

lemma fk_typed_set_schemaname:
  "fk_typed pk \<Longrightarrow> kind pk = RangeVar \<Longrightarrow> fk_typed (set_string ''schemaname'' s pk)"
  by (auto simp: fk_typed_def list_all_iff set_string_def set_field_def clear_field_def
      dest!: subsetD [OF set_update_subset])

lemma fk_typed_children_clearConstraint:
  assumes "list_all fk_typed (all_msgs m)" and c: "c \<in> set (children (clearConstraint ts m))"
  shows "list_all fk_typed (all_msgs c)"
proof (cases "c \<in> set (children m)")
  case True
  with assms(1) show ?thesis by (simp add: list_all_all_msgs [of _ m])
next
  case False
  with c obtain pk where pk: "get_msg ''pktable'' m = Some pk" "kind m = Constraint"
    "c = set_string ''schemaname'' '''' pk"
    by (auto simp: clearConstraint_def split: if_splits option.splits dest: subsetD [OF children_set_field])
  have pkt: "list_all fk_typed (all_msgs pk)"
    using assms(1) get_msg_child [OF pk(1)] by (simp add: list_all_all_msgs [of _ m])
  have "kind pk = RangeVar"
    using assms(1) pk by (auto simp: list_all_all_msgs [of _ m] fk_typed_def get_msg_def
        split: option.splits fvalue.splits)
  with pkt show ?thesis
    using children_set_string [of "''schemaname''" "''''" pk]
    by (auto simp: pk(3) list_all_all_msgs [of _ pk] list_all_all_msgs [of _ "set_string _ _ _"]
        fk_typed_set_schemaname)
qed

lemma fk_schemas_clear:
  "list_all fk_typed (all_msgs m) \<Longrightarrow>
     fk_schemas (clearSameSchemaForeignKeyQualifiers ts m) =
     map (\<lambda>s. if s = ts then '''' else s) (fk_schemas m)"
proof (induction m rule: clear.pass_induct [where ts = ts])
  case (node m)
  let ?e = "\<lambda>s. if s = ts then '''' else s"
  have "children (clearSameSchemaForeignKeyQualifiers ts m)
      = map (clearSameSchemaForeignKeyQualifiers ts) (children (clearConstraint ts m))"
    by (subst clear_eq) simp
  moreover have "map (\<lambda>c. fk_schemas (clearSameSchemaForeignKeyQualifiers ts c)) (children (clearConstraint ts m))
      = map (\<lambda>c. map ?e (fk_schemas c)) (children (clearConstraint ts m))"
    using node.IH fk_typed_children_clearConstraint [OF node.prems, where ts = ts] by simp
  ultimately have "fk_schemas (clearSameSchemaForeignKeyQualifiers ts m)
      = map ?e (fk_local m) @ map ?e (concat (map fk_schemas (children (clearConstraint ts m))))"
    by (subst fk_schemas_iff) (simp add: fk_local_clear comp_def map_concat cong: map_cong)
  then show ?case
    by (simp add: fk_children_clearConstraint [OF node.prems] fk_schemas_iff [of m])
qed

text \<open>The same for the rewriting of a table element.\<close>

lemma table_element_iff:
  "table_element m \<longleftrightarrow> kind m \<noteq> CreateStmt \<and> names_typed m \<and> fk_typed m
     \<and> (\<forall>c \<in> set (children m). table_element c)"
  by (auto simp: table_element_def plain_tree_iff [of m] list_all_all_msgs [of fk_typed m])

lemma table_element_children_rewriteNode:
  assumes "table_element m" and "c \<in> set (children (rewriteNode ds m))"
  shows "table_element c"
proof -
  have "names_typed m" using assms(1) by (simp add: table_element_iff [of m])
  then have "c \<in> set (children m) \<or> is_str_node c"
    using assms(2) by (rule children_rewriteNode)
  then show ?thesis
  proof
    assume "is_str_node c"
    then show ?thesis
      by (auto simp: is_str_node_iff table_element_def plain_tree_def names_typed_def fk_typed_def)
  qed (use assms(1) table_element_iff [of m] in blast)
qed

lemma rewrite_table_element:
  "kind m \<noteq> CreateStmt \<Longrightarrow> rewritePostgreSQLTree ds m =
     map_children (rewritePostgreSQLTree ds) (rewriteNode ds m)"
  by (subst rewrite.pass_eq) (simp add: finishCreateStmt_def)

lemma fk_local_rewrite:
  assumes "table_element m"
  shows "fk_local (rewritePostgreSQLTree ds m) = map (qualify ds) (fk_local m)"
proof -
  have "kind pk = RangeVar" if "kind m = Constraint" "get_msg ''pktable'' m = Some pk" for pk
    using assms that by (auto simp: table_element_iff [of m] fk_typed_def get_msg_def
        split: option.splits fvalue.splits)
  then show ?thesis
    by (auto simp: fk_local_def rewrite.kind_pass schemaname_rewrite split: option.split)
qed

lemma fk_schemas_rewrite:
  "table_element m \<Longrightarrow> fk_schemas (rewritePostgreSQLTree ds m) = map (qualify ds) (fk_schemas m)"
proof (induction m rule: rewrite.pass_induct [where ds = ds])
  case (node m)
  note m = node.prems [unfolded table_element_iff [of m]]
  have "children (rewritePostgreSQLTree ds m)
      = map (rewritePostgreSQLTree ds) (children (rewriteNode ds m))"
    using m by (simp add: rewrite_table_element)
  moreover have "map (\<lambda>c. fk_schemas (rewritePostgreSQLTree ds c)) (children (rewriteNode ds m))
      = map (\<lambda>c. map (qualify ds) (fk_schemas c)) (children (rewriteNode ds m))"
    using node.IH table_element_children_rewriteNode [OF node.prems] by simp
  ultimately have "fk_schemas (rewritePostgreSQLTree ds m) = map (qualify ds) (fk_local m)
      @ map (qualify ds) (concat (map fk_schemas (children (rewriteNode ds m))))"
    by (subst fk_schemas_iff)
      (simp add: fk_local_rewrite [OF node.prems] comp_def map_concat cong: map_cong)
  with m show ?case by (simp add: fk_children_rewriteNode fk_schemas_iff [of m])
qed

lemma fk_typed_map_children:
  assumes "\<And>x. kind (f x) = kind x" and "fk_typed m"
  shows "fk_typed (map_children f m)"
proof (cases "kind m")
  case RangeVar
  with assms(2) show ?thesis
    by (auto simp: fk_typed_def populated_map_children list_all_iff)
next
  case Constraint
  with assms show ?thesis
    by (auto simp: fk_typed_def get_field_map_children split: option.splits fvalue.splits)
qed (simp_all add: fk_typed_def)

lemma fk_typed_rewriteNode: "fk_typed m \<Longrightarrow> fk_typed (rewriteNode ds m)"
proof (cases "kind m = RangeVar")
  case True
  moreover assume "fk_typed m"
  ultimately show ?thesis
    by (simp add: rewriteNode_def rewriteRangeVar_def Let_def fk_typed_set_schemaname)
next
  case False
  moreover assume "fk_typed m"
  ultimately show ?thesis
    using kind_rewriteNode [of ds m]
    by (cases "kind m") (simp_all add: fk_typed_def, simp add: rewriteNode_def)
qed

lemma fk_typed_rewrite:
  "table_element m \<Longrightarrow> list_all fk_typed (all_msgs (rewritePostgreSQLTree ds m))"
proof (induction m rule: rewrite.pass_induct [where ds = ds])
  case (node m)
  note m = node.prems [unfolded table_element_iff [of m]]
  have eq: "rewritePostgreSQLTree ds m = map_children (rewritePostgreSQLTree ds) (rewriteNode ds m)"
    using m by (simp add: rewrite_table_element)
  have "fk_typed (rewritePostgreSQLTree ds m)"
    unfolding eq using m by (intro fk_typed_map_children fk_typed_rewriteNode rewrite.kind_pass) simp
  moreover have "list_all fk_typed (all_msgs (rewritePostgreSQLTree ds c))"
    if "c \<in> set (children (rewriteNode ds m))" for c
    using that by (intro node.IH table_element_children_rewriteNode [OF node.prems])
  ultimately show ?case
    unfolding eq by (subst list_all_all_msgs) simp
qed

lemma table_elts_rewrite:
  assumes "kind m = CreateStmt" and "get_msg ''relation'' m = Some rel" and "kind rel = RangeVar"
  shows "get_list ''table_elts'' (rewritePostgreSQLTree ds m) =
     map (\<lambda>e. clearSameSchemaForeignKeyQualifiers (qualify ds (get_string ''schemaname'' rel))
       (rewritePostgreSQLTree ds e)) (get_list ''table_elts'' m)"
proof -
  have "get_list f (update_list f g x) = map g (get_list f x)" for f g x
    by (auto simp: get_list_def get_field_update map_option_case split: option.split fvalue.split)
  with assms show ?thesis
    by (subst rewrite.pass_eq)
      (simp add: finishCreateStmt_def rewriteNode_def schemaname_rewrite comp_def)
qed

section \<open>Properties\<close>

text \<open>A table with a foreign key, created through the schema \<^verbatim>\<open>audit\<close>, and a query.\<close>

definition example_relation :: "string \<Rightarrow> string \<Rightarrow> msg" where
  "example_relation schema name = Msg RangeVar
     ((if schema = '''' then [] else [(''schemaname'', FScalar (SString schema))])
      @ [(''relname'', FScalar (SString name)), (''inh'', FScalar (SBool True))])"

definition example_create :: msg where
  "example_create = Msg CreateStmt
     [(''relation'', FMsg (example_relation '''' ''children'')),
      (''table_elts'', FList
        [Msg Node [(''column_def'', FMsg (Msg (OtherMsg ''ColumnDef'')
          [(''colname'', FScalar (SString ''parent'')),
           (''type_name'', FMsg (Msg TypeName [(''names'', FList [MakeStrNode ''pg_catalog'', MakeStrNode ''int4''])])),
           (''constraints'', FList
             [Msg Node [(''constraint'', FMsg (Msg Constraint
               [(''contype'', FScalar (SEnum ''CONSTR_FOREIGN'')),
                (''pktable'', FMsg (example_relation ''audit'' ''parents''))]))],
              Msg Node [(''constraint'', FMsg (Msg Constraint
               [(''contype'', FScalar (SEnum ''CONSTR_FOREIGN'')),
                (''pktable'', FMsg (example_relation ''public'' ''parents''))]))]])]))]])]"

definition example_select :: msg where
  "example_select = Msg Node [(''select_stmt'', FMsg (Msg (OtherMsg ''SelectStmt'')
     [(''from_clause'', FList [Msg Node [(''range_var'', FMsg (example_relation ''public'' ''notes''))],
        Msg Node [(''range_var'', FMsg (example_relation '''' ''events''))]]),
      (''where_clause'', FMsg (Msg Node [(''a_expr'', FMsg (Msg A_Expr
        [(''kind'', FScalar (SEnum ''AEXPR_ILIKE'')),
         (''name'', FList [MakeStrNode ''!~~*''])]))]))]))]"

text \<open>
  The tree of \<^verbatim>\<open>DROP TABLE\<close> names its tables by lists of strings and has no relation node.
\<close>

definition drop_table :: "string list list \<Rightarrow> msg" where
  "drop_table tables = Msg Node [(''drop_stmt'', FMsg (Msg (OtherMsg ''DropStmt'')
     [(''objects'', FList (map (\<lambda>parts. Msg Node [(''list'', FMsg (Msg (OtherMsg ''List'')
        [(''items'', FList (map MakeStrNode parts))]))]) tables)),
      (''remove_type'', FScalar (SEnum ''OBJECT_TABLE''))]))]"


text \<open>
  C25: after translation every relation of a statement names an engine schema: none is left
  unqualified, where the engine would search the attached databases by itself, and none
  names PostgreSQL's \<^verbatim>\<open>public\<close>; only the target of a foreign key may lose its qualifier.
\<close>

theorem translated_relations_pinned:
  assumes "ds \<noteq> ''''"
  shows "pinned False (rewritePostgreSQLTree ds m)"
  using assms by (rule pinned_rewrite)

theorem translated_relations_pinned_witness:
  "pinned False (rewritePostgreSQLTree ''audit'' example_create) \<and> \<not> pinned False example_create"
proof -
  have "\<not> pinned False example_create" by code_simp
  then show ?thesis using translated_relations_pinned [of "''audit''" example_create] by simp
qed


text \<open>
  C27: outside \<^verbatim>\<open>CREATE TABLE\<close> a translated tree is a fixed point of translation, for any
  receiving schema: translating its text again, even through another schema, changes
  nothing.
\<close>

theorem translation_stable:
  assumes "ds \<noteq> ''''" and "plain_tree m"
  shows "rewritePostgreSQLTree ds' (rewritePostgreSQLTree ds m) = rewritePostgreSQLTree ds m"
  by (rule rewrite_fixed [OF fixed_rewrite [OF assms]])

theorem translation_stable_witness:
  "rewritePostgreSQLTree ''public'' (rewritePostgreSQLTree ''audit'' example_select)
     = rewritePostgreSQLTree ''audit'' example_select
   \<and> rewritePostgreSQLTree ''audit'' example_select \<noteq> example_select"
proof -
  have "plain_tree example_select" by code_simp
  moreover have "rewritePostgreSQLTree ''audit'' example_select \<noteq> example_select" by code_simp
  ultimately show ?thesis using translation_stable [of "''audit''" example_select "''public''"] by simp
qed

text \<open>
  C6: \<^verbatim>\<open>CREATE TABLE\<close> keeps the meaning of every foreign key.  The engine resolves an
  unqualified target inside the schema of the created table and rejects a qualifier that
  names it; the targets of the translated statement, resolved that way, are in order the
  schemas that the source's targets denote for the receiving schema, and no qualifier of
  the table's own schema is left.
\<close>

theorem create_table_foreign_keys:
  assumes "ds \<noteq> ''''" and "kind m = CreateStmt"
    and "get_msg ''relation'' m = Some rel" and "kind rel = RangeVar"
    and "list_all table_element (get_list ''table_elts'' m)"
  defines "ts \<equiv> qualify ds (get_string ''schemaname'' rel)"
    and "targets \<equiv> \<lambda>t. concat (map fk_schemas (get_list ''table_elts'' t))"
  shows "map (resolve ts) (targets (rewritePostgreSQLTree ds m)) = map (qualify ds) (targets m)
     \<and> ts \<notin> set (targets (rewritePostgreSQLTree ds m))"
proof -
  let ?erase = "\<lambda>s. if s = ts then '''' else s"
  have ts: "ts \<noteq> ''''" using assms(1) by (simp add: ts_def qualify_nonempty)
  have "fk_schemas (clearSameSchemaForeignKeyQualifiers ts (rewritePostgreSQLTree ds e))
      = map ?erase (map (qualify ds) (fk_schemas e))"
    if "e \<in> set (get_list ''table_elts'' m)" for e
  proof -
    have te: "table_element e" using that assms(5) by (simp add: list_all_iff)
    show ?thesis
      unfolding fk_schemas_clear [OF fk_typed_rewrite [OF te]] fk_schemas_rewrite [OF te] by simp
  qed
  then have "targets (rewritePostgreSQLTree ds m)
      = concat (map (\<lambda>e. map ?erase (map (qualify ds) (fk_schemas e))) (get_list ''table_elts'' m))"
    unfolding targets_def table_elts_rewrite [OF assms(2-4)] ts_def map_map
    by (intro arg_cong [of _ _ concat] map_cong) simp_all
  then have eq: "targets (rewritePostgreSQLTree ds m) = map ?erase (map (qualify ds) (targets m))"
    by (simp add: targets_def map_concat comp_def)
  have "ts \<notin> set (targets (rewritePostgreSQLTree ds m))"
    using ts by (auto simp: eq)
  moreover have "resolve ts (?erase (qualify ds s)) = qualify ds s" for s
    using assms(1) by (simp add: resolve_def qualify_nonempty)
  ultimately show ?thesis by (simp add: eq comp_def)
qed

theorem create_table_foreign_keys_witness:
  "map (resolve ''audit'') (concat (map fk_schemas (get_list ''table_elts''
       (rewritePostgreSQLTree ''audit'' example_create)))) = [''audit'', ''main'']"
proof -
  have "kind example_create = CreateStmt"
    and "get_msg ''relation'' example_create = Some (example_relation '''' ''children'')"
    and "kind (example_relation '''' ''children'') = RangeVar"
    and "list_all table_element (get_list ''table_elts'' example_create)"
    and "qualify ''audit'' (get_string ''schemaname'' (example_relation '''' ''children'')) = ''audit''"
    and "map (qualify ''audit'') (concat (map fk_schemas (get_list ''table_elts'' example_create)))
       = [''audit'', ''main'']"
    by code_simp+
  then show ?thesis
    using create_table_foreign_keys [of "''audit''" example_create "example_relation '''' ''children''"]
    by simp
qed

end
