(* ===== verification/FunctionsCorrect.thy ===== *)
theory FunctionsCorrect imports Functions TranslatorCorrect
begin

text \<open>
  Correctness of \<^verbatim>\<open>function.go\<close>: what the registry answers after a registration, stated as
  the contract of an overload registry; the rewriting of a tree against a reference
  rewriting without errors and flags; what the dispatcher returns.
\<close>

section \<open>Overload registries\<close>

text \<open>
  The contract the dispatcher relies on: a registration changes the overload it names and
  no other, and a lookup prefers the overload of the exact arity to the variadic one.
\<close>

locale overload_registry =
  fixes add :: "string \<Rightarrow> string \<Rightarrow> int \<Rightarrow> bool \<Rightarrow> 'f \<Rightarrow> 'r \<Rightarrow> 'r"
    and exact :: "'r \<Rightarrow> string \<Rightarrow> string \<Rightarrow> int \<Rightarrow> 'f option"
    and vararg :: "'r \<Rightarrow> string \<Rightarrow> string \<Rightarrow> (int \<times> 'f) option"
    and lookup :: "'r \<Rightarrow> string \<Rightarrow> string \<Rightarrow> int \<Rightarrow> 'f option"
  assumes exact_add: "exact (add s n a v f r) s' n' a' =
      (if \<not> v \<and> s' = s \<and> n' = n \<and> a' = a then Some f else exact r s' n' a')"
    and vararg_add: "vararg (add s n a v f r) s' n' =
      (if v \<and> s' = s \<and> n' = n then Some (a, f) else vararg r s' n')"
    and lookup_eq: "lookup r s n a = (case exact r s n a of
        Some f \<Rightarrow> Some f
      | None \<Rightarrow> (case vararg r s n of Some (least, f) \<Rightarrow> if least \<le> a then Some f else None | None \<Rightarrow> None))"
begin

lemma lookup_add:
  "lookup (add s n a v f r) s' n' a' =
     (if s' = s \<and> n' = n then
        (if v then (case exact r s n a' of Some g \<Rightarrow> Some g | None \<Rightarrow> if a \<le> a' then Some f else None)
         else if a' = a then Some f else lookup r s n a')
      else lookup r s' n' a')"
  by (simp add: lookup_eq exact_add vararg_add split: option.split)

lemma lookup_add_other: "(s', n') \<noteq> (s, n) \<Longrightarrow> lookup (add s n a v f r) s' n' = lookup r s' n'"
  by (auto simp: lookup_add fun_eq_iff)

text \<open>Registering again replaces; registrations of different functions commute.\<close>

lemma lookup_replace: "lookup (add s n a v f (add s n a v g r)) = lookup (add s n a v f r)"
  by (intro ext) (simp add: lookup_eq exact_add vararg_add split: option.split)

lemma lookup_commute:
  assumes "(s, n) \<noteq> (s', n') \<or> v \<noteq> v' \<or> \<not> v \<and> a \<noteq> a'"
  shows "lookup (add s n a v f (add s' n' a' v' g r)) = lookup (add s' n' a' v' g (add s n a v f r))"
proof -
  have "exact (add s n a v f (add s' n' a' v' g r)) = exact (add s' n' a' v' g (add s n a v f r))"
    using assms by (intro ext) (auto simp: exact_add)
  moreover have "vararg (add s n a v f (add s' n' a' v' g r)) = vararg (add s' n' a' v' g (add s n a v f r))"
    using assms by (intro ext) (auto simp: vararg_add)
  ultimately show ?thesis by (intro ext) (simp only: lookup_eq)
qed

end

definition fixed_overload :: "'f functionRegistry \<Rightarrow> string \<Rightarrow> string \<Rightarrow> int \<Rightarrow> 'f option" where
  "fixed_overload r s n a = (case overloads_of r s n of None \<Rightarrow> None | Some os \<Rightarrow> map_of (fixed os) a)"

definition variadic_overload :: "'f functionRegistry \<Rightarrow> string \<Rightarrow> string \<Rightarrow> (int \<times> 'f) option" where
  "variadic_overload r s n = (case overloads_of r s n of None \<Rightarrow> None | Some os \<Rightarrow> variadic os)"

lemma overloads_of_addOverload:
  "overloads_of (addOverload s n a v f r) s' n' =
     (if s' = s \<and> n' = n then
        (let os = (case overloads_of r s n of None \<Rightarrow> empty_overloads | Some os \<Rightarrow> os) in
         Some (if v then os\<lparr>variadic := Some (a, f)\<rparr> else os\<lparr>fixed := AList.update a f (fixed os)\<rparr>))
      else overloads_of r s' n')"
  by (auto simp: addOverload_def overloads_of_def update_conv' Let_def split: option.split)

lemma has_addOverload: "has (addOverload s n a v f r) s' n' \<longleftrightarrow> s' = s \<and> n' = n \<or> has r s' n'"
  by (cases "s' = s \<and> n' = n") (auto simp: has_def overloads_of_addOverload Let_def)

interpretation registry: overload_registry addOverload fixed_overload variadic_overload implementation
proof
  fix s n a v and f :: 'a and r s' n' a'
  show "fixed_overload (addOverload s n a v f r) s' n' a' =
      (if \<not> v \<and> s' = s \<and> n' = n \<and> a' = a then Some f else fixed_overload r s' n' a')"
    by (auto simp: fixed_overload_def overloads_of_addOverload empty_overloads_def update_conv'
        Let_def split: option.split)
  show "variadic_overload (addOverload s n a v f r) s' n' =
      (if v \<and> s' = s \<and> n' = n then Some (a, f) else variadic_overload r s' n')"
    by (auto simp: variadic_overload_def overloads_of_addOverload empty_overloads_def Let_def
        split: option.split)
next
  fix r :: "'a functionRegistry" and s n a
  show "implementation r s n a = (case fixed_overload r s n a of
        Some f \<Rightarrow> Some f
      | None \<Rightarrow> (case variadic_overload r s n of
          Some (least, f) \<Rightarrow> if least \<le> a then Some f else None | None \<Rightarrow> None))"
    by (auto simp: implementation_def fixed_overload_def variadic_overload_def split: option.split)
qed

section \<open>The reference rewriting\<close>

text \<open>
  A call of the dispatcher in the source, a call that is rewritten, and the rewriting
  without errors and flags.
\<close>

definition directCall :: "msg \<Rightarrow> bool" where
  "directCall m \<longleftrightarrow> kind m = FuncCall \<and> callsDispatcher m"

definition registeredCall :: "'f functionRegistry \<Rightarrow> string \<Rightarrow> msg \<Rightarrow> bool" where
  "registeredCall r ds m \<longleftrightarrow> kind m = FuncCall \<and> plainScalarCall m
     \<and> (case calledFunction m ds of None \<Rightarrow> False | Some (s, f) \<Rightarrow> has r s f)"

definition routeNode :: "pg_query \<Rightarrow> string \<Rightarrow> 'f functionRegistry \<Rightarrow> string \<Rightarrow> msg \<Rightarrow> msg" where
  "routeNode pq did r ds m =
     (if registeredCall r ds m
      then (case calledFunction m ds of None \<Rightarrow> m | Some (s, f) \<Rightarrow> routeCall pq did s f m)
      else m)"

function routeTree :: "pg_query \<Rightarrow> string \<Rightarrow> 'f functionRegistry \<Rightarrow> string \<Rightarrow> msg \<Rightarrow> msg" where
  "routeTree pq did r ds m = routeNode pq did r ds (map_children (routeTree pq did r ds) m)"
  by pat_completeness auto
termination
  by (relation "measure (\<lambda>(pq, d, r, s, m). msize m)") (auto intro: children_smaller)

declare routeTree.simps [simp del]

lemma kind_routeCall [simp]: "kind (routeCall pq did s f m) = kind m"
  by (simp add: routeCall_def Let_def)

lemma kind_routeNode [simp]: "kind (routeNode pq did r ds m) = kind m"
  by (simp add: routeNode_def split: option.split)

interpretation route: tree_pass "\<lambda>m. m" "routeNode pq did r ds" "routeTree pq did r ds" for pq did r ds
  by unfold_locales (simp_all add: routeTree.simps)

lemma get_field_routeTree:
  assumes "n \<noteq> ''funcname''" "n \<noteq> ''args''" "n \<noteq> ''location''"
  shows "get_field n (routeTree pq did r ds m) = map_option (map_fvalue (routeTree pq did r ds)) (get_field n m)"
  using assms
  by (subst route.pass_eq) (simp add: routeNode_def routeCall_def Let_def get_field_map_children split: option.split)

lemmas routeTree_fields [simp] = get_of_mapped_field [OF get_field_routeTree]

text \<open>What decides about a call does not depend on the messages below it.\<close>

lemma nameParts_map:
  assumes "\<And>x. get_String (g x) = map_option g (get_String x)"
    and "\<And>x. get_string ''sval'' (g x) = get_string ''sval'' x"
  shows "nameParts (map g ns) = nameParts ns"
  by (induction ns) (simp_all add: assms split: option.split)

lemma functionNameParts_route [simp]:
  "functionNameParts (map_children (routeTree pq did r ds) m) = functionNameParts m"
  by (simp add: functionNameParts_def nameParts_map get_String_def)

lemma call_classes_route [simp]:
  "callsDispatcher (map_children (routeTree pq did r ds) m) = callsDispatcher m"
  "calledFunction (map_children (routeTree pq did r ds) m) d = calledFunction m d"
  "plainScalarCall (map_children (routeTree pq did r ds) m) = plainScalarCall m"
  "registeredCall r' d (map_children (routeTree pq did r ds) m) = registeredCall r' d m"
  by (simp_all add: callsDispatcher_def calledFunction_def plainScalarCall_def registeredCall_def)

section \<open>The rewriting against its reference\<close>

lemma trav_list_reference:
  assumes "\<And>x c. x \<in> set ms \<Longrightarrow> f x c = (if E x then Inl e else Inr (g x, c \<or> R x))"
  shows "trav_list f ms c = (if list_ex E ms then Inl e else Inr (map g ms, c \<or> list_ex R ms))"
  using assms by (induction ms arbitrary: c) auto

lemma trav_children_reference:
  assumes "\<And>x c. x \<in> set (children m) \<Longrightarrow> f x c = (if E x then Inl e else Inr (g x, c \<or> R x))"
  shows "trav_children f m c =
     (if list_ex E (children m) then Inl e else Inr (map_children g m, c \<or> list_ex R (children m)))"
proof -
  have field: "trav_field f v c =
      (if list_ex E (submsgs v) then Inl e else Inr (map_fvalue g v, c \<or> list_ex R (submsgs v)))"
    if "\<And>x c. x \<in> set (submsgs v) \<Longrightarrow> f x c = (if E x then Inl e else Inr (g x, c \<or> R x))" for v c
    using that by (cases v) (auto simp: trav_list_reference)
  have fields: "trav_fields f fs c =
      (if list_ex E (concat (map (\<lambda>(n, v). submsgs v) fs)) then Inl e
       else Inr (map (\<lambda>(n, v). (n, map_fvalue g v)) fs,
         c \<or> list_ex R (concat (map (\<lambda>(n, v). submsgs v) fs))))"
    if "\<And>n v x c. (n, v) \<in> set fs \<Longrightarrow> x \<in> set (submsgs v) \<Longrightarrow>
      f x c = (if E x then Inl e else Inr (g x, c \<or> R x))" for fs c
    using that
  proof (induction fs arbitrary: c)
    case (Cons nv fs)
    obtain n v where nv: "nv = (n, v)" by force
    have "trav_field f v c =
        (if list_ex E (submsgs v) then Inl e else Inr (map_fvalue g v, c \<or> list_ex R (submsgs v)))" for c
      using Cons.prems [of n v] by (intro field) (simp add: nv)
    moreover have "trav_fields f fs c =
      (if list_ex E (concat (map (\<lambda>(n, v). submsgs v) fs)) then Inl e
       else Inr (map (\<lambda>(n, v). (n, map_fvalue g v)) fs,
         c \<or> list_ex R (concat (map (\<lambda>(n, v). submsgs v) fs))))" for c
      using Cons.prems by (intro Cons.IH) (meson list.set_intros(2))
    ultimately show ?case by (simp add: nv)
  qed simp
  have "trav_fields f (populated m) c =
      (if list_ex E (children m) then Inl e
       else Inr (map (\<lambda>(n, v). (n, map_fvalue g v)) (populated m), c \<or> list_ex R (children m)))"
    unfolding children_def by (intro fields) (use assms child_of_field in blast)
  then show ?thesis by (simp add: trav_children_def map_children_def)
qed

lemma list_ex_all_msgs: "list_ex P (all_msgs m) \<longleftrightarrow> P m \<or> list_ex (\<lambda>x. list_ex P (all_msgs x)) (children m)"
  by (subst all_msgs.simps) (auto simp: list_ex_iff)

lemma rewriteCall_reference:
  "rewriteCall pq did r ds m c =
     (if directCall m then Inl (Sentinel ErrUnsupported)
      else Inr (routeNode pq did r ds m, c \<or> registeredCall r ds m))"
  by (auto simp: rewriteCall_def directCall_def routeNode_def registeredCall_def split: option.splits prod.splits)

lemma rewriteFunctionTree_reference:
  "rewriteFunctionTree pq did r ds m c =
     (if list_ex directCall (all_msgs m) then Inl (Sentinel ErrUnsupported)
      else Inr (routeTree pq did r ds m, c \<or> list_ex (registeredCall r ds) (all_msgs m)))"
proof (induction m arbitrary: c rule: route.pass_induct)
  case (node m)
  have "trav_children (rewriteFunctionTree pq did r ds) m c =
      (if list_ex (\<lambda>x. list_ex directCall (all_msgs x)) (children m) then Inl (Sentinel ErrUnsupported)
       else Inr (map_children (routeTree pq did r ds) m,
         c \<or> list_ex (\<lambda>x. list_ex (registeredCall r ds) (all_msgs x)) (children m)))"
    by (rule trav_children_reference) (rule node)
  moreover have "directCall (map_children (routeTree pq did r ds) m) = directCall m"
    by (simp add: directCall_def)
  ultimately show ?case
    by (auto simp: rewriteFunctionTree.simps [of _ _ _ _ m] rewriteCall_reference
        list_ex_all_msgs [of _ m] routeTree.simps [of _ _ _ _ m])
qed

lemma routeTree_unchanged:
  "\<not> list_ex (registeredCall r ds) (all_msgs m) \<Longrightarrow> routeTree pq did r ds m = m"
proof (induction m rule: route.pass_induct)
  case (node m)
  have "map_children (routeTree pq did r ds) m = m"
    using node.IH node.prems
    by (intro map_children_id) (simp add: list_ex_all_msgs [of _ m], simp add: list_ex_iff)
  with node.prems show ?case
    by (subst route.pass_eq) (simp add: routeNode_def list_ex_all_msgs [of _ m])
qed

section \<open>Calls of a rewritten tree\<close>

text \<open>The functions a registry knows, by schema and name.\<close>

definition registered_names :: "'f functionRegistry \<Rightarrow> (string \<times> string) list" where
  "registered_names r =
     filter (\<lambda>(s, f). has r s f) (concat (map (\<lambda>(s, fs). map (\<lambda>(f, os). (s, f)) fs) r))"

lemma registered_names_iff: "(s, f) \<in> set (registered_names r) \<longleftrightarrow> has r s f"
  by (force simp: registered_names_def has_def overloads_of_def split: option.splits dest: map_of_SomeD)

text \<open>
  A call the engine may see: a call of the dispatcher carries the identifier of the database
  and a registered function, and every plain call of a registered function is such a call.
\<close>

definition settled :: "pg_query \<Rightarrow> string \<Rightarrow> 'f functionRegistry \<Rightarrow> string \<Rightarrow> msg \<Rightarrow> bool" where
  "settled pq did r ds m =
     (if directCall m
      then functionNameParts m = Some [dispatchFunctionName]
        \<and> list_ex (\<lambda>(s, f). take 3 (get_list ''args'' m) =
             [MakeAConstStrNode pq did (-1), MakeAConstStrNode pq s (-1), MakeAConstStrNode pq f (-1)])
           (registered_names r)
      else \<not> registeredCall r ds m)"

text \<open>The documented shape of a constant node: no function call is below it.\<close>

definition constant_nodes :: "pg_query \<Rightarrow> bool" where
  "constant_nodes pq \<longleftrightarrow> (\<forall>s l. list_all (\<lambda>x. kind x \<noteq> FuncCall) (all_msgs (MakeAConstStrNode pq s l)))"

lemma settled_no_call: "kind m \<noteq> FuncCall \<Longrightarrow> settled pq did r ds m"
  by (simp add: settled_def directCall_def registeredCall_def)

lemma settled_routeCall:
  assumes "has r s f"
  shows "settled pq did r ds (routeCall pq did s f m)"
proof (cases "kind m = FuncCall")
  case True
  have parts: "functionNameParts (routeCall pq did s f m) = Some [dispatchFunctionName]"
    by (simp add: routeCall_def Let_def functionNameParts_def get_list_def)
  have args: "take 3 (get_list ''args'' (routeCall pq did s f m)) =
      [MakeAConstStrNode pq did (-1), MakeAConstStrNode pq s (-1), MakeAConstStrNode pq f (-1)]"
    by (simp add: routeCall_def Let_def get_list_def)
  have "directCall (routeCall pq did s f m)"
    using True by (simp add: directCall_def callsDispatcher_def parts equalFold_def)
  with assms show ?thesis
    unfolding settled_def by (auto simp: parts args list_ex_iff registered_names_iff)
qed (simp add: settled_no_call)

lemma children_routeNode:
  assumes "x \<in> set (children (routeNode pq did r ds m))"
  shows "x \<in> set (children m) \<or> x = MakeStrNode dispatchFunctionName \<or> (\<exists>s. x = MakeAConstStrNode pq s (-1))"
proof (cases "registeredCall r ds m")
  case True
  then obtain s f where sf: "calledFunction m ds = Some (s, f)"
    by (auto simp: registeredCall_def split: option.splits)
  let ?m = "set_field ''funcname'' (FList [MakeStrNode dispatchFunctionName]) m"
  let ?args = "[MakeAConstStrNode pq did (-1), MakeAConstStrNode pq s (-1), MakeAConstStrNode pq f (-1)]
    @ get_list ''args'' m"
  have "x \<in> set (children (set_field ''args'' (FList ?args) ?m))"
    using assms True sf children_set_field [of "''location''" "FScalar (SInt (-1))"]
    by (auto simp: routeNode_def routeCall_def Let_def)
  then show ?thesis
    using children_set_field [of "''args''" "FList ?args" ?m]
      children_set_field [of "''funcname''" "FList [MakeStrNode dispatchFunctionName]" m] get_list_child
    by fastforce
qed (use assms in \<open>simp add: routeNode_def\<close>)

lemma settled_routeTree:
  assumes "constant_nodes pq"
  shows "\<not> list_ex directCall (all_msgs m) \<Longrightarrow> list_all (settled pq did r ds) (all_msgs (routeTree pq did r ds m))"
proof (induction m rule: route.pass_induct)
  case (node m)
  let ?y = "map_children (routeTree pq did r ds) m"
  have here: "settled pq did r ds (routeNode pq did r ds ?y)"
  proof (cases "registeredCall r ds m")
    case True
    then show ?thesis
      by (auto simp: routeNode_def registeredCall_def intro!: settled_routeCall split: option.splits)
  next
    case False
    moreover have "\<not> directCall m"
      using node.prems by (simp add: list_ex_all_msgs [of _ m])
    ultimately show ?thesis
      by (auto simp: routeNode_def settled_def directCall_def)
  qed
  have "list_all (settled pq did r ds) (all_msgs x)" if "x \<in> set (children (routeNode pq did r ds ?y))" for x
    using children_routeNode [OF that]
  proof (elim disjE exE)
    assume "x \<in> set (children ?y)"
    then obtain z where z: "z \<in> set (children m)" "x = routeTree pq did r ds z" by auto
    have "\<not> list_ex (\<lambda>x. list_ex directCall (all_msgs x)) (children m)"
      using node.prems list_ex_all_msgs [of directCall m] by blast
    with z(1) have "\<not> list_ex directCall (all_msgs z)" by (auto simp: list_ex_iff)
    with z(1) show ?thesis unfolding z(2) by (rule node.IH)
  next
    fix s assume "x = MakeAConstStrNode pq s (-1)"
    with assms show ?thesis by (auto simp: constant_nodes_def list_all_iff intro: settled_no_call)
  qed (simp add: settled_no_call)
  with here show ?case
    by (subst route.pass_eq, subst list_all_all_msgs) simp
qed

section \<open>Statements\<close>

definition stmt_ex :: "(msg \<Rightarrow> bool) \<Rightarrow> raw_stmt \<Rightarrow> bool" where
  "stmt_ex P raw = (case Stmt raw of None \<Rightarrow> False | Some m \<Rightarrow> list_ex P (all_msgs m))"

definition routeStmt :: "pg_query \<Rightarrow> string \<Rightarrow> 'f functionRegistry \<Rightarrow> string \<Rightarrow> raw_stmt \<Rightarrow> raw_stmt" where
  "routeStmt pq did r ds raw = raw\<lparr>Stmt := map_option (routeTree pq did r ds) (Stmt raw)\<rparr>"

lemma rewriteStmts_reference:
  "rewriteStmts pq did r ds raws c =
     (if list_ex (stmt_ex directCall) raws then Inl (Sentinel ErrUnsupported)
      else Inr (map (routeStmt pq did r ds) raws, c \<or> list_ex (stmt_ex (registeredCall r ds)) raws))"
proof (induction raws arbitrary: c)
  case (Cons raw raws)
  show ?case
  proof (cases "Stmt raw")
    case None
    then have "routeStmt pq did r ds raw = raw" by (cases raw) (simp add: routeStmt_def)
    with None show ?thesis by (simp add: Cons.IH stmt_ex_def [of _ raw])
  next
    case (Some m)
    then show ?thesis
      by (auto simp: Cons.IH stmt_ex_def [of _ raw] rewriteFunctionTree_reference routeStmt_def)
  qed
qed simp

section \<open>The dispatcher\<close>

lemma external_routine_state:
  "sqlState_of_text (p @ ''pgmem function'' @ t) = ''38000''"
proof -
  have "toLower (p @ ''pgmem function'' @ t) = toLower p @ ''pgmem function'' @ toLower t"
    by (simp add: toLower_def ascii_lower_def)
  then have "contains (toLower (p @ ''pgmem function'' @ t)) ''pgmem function''"
    by (auto simp: contains_split)
  then show ?thesis by (simp add: sqlState_of_text_def Let_def)
qed

lemma function_label_prefix: "\<exists>t. function_label s f @ u = ''pgmem function'' @ t"
  by (simp add: function_label_def)

lemma dispatch_error_text:
  assumes "fst (dispatchScalarFunction call dbs arguments w) = Inl e"
  shows "\<exists>t. error_text e = ''pgmem function'' @ t"
  using assms function_label_prefix
  by (auto simp: dispatchScalarFunction_def invokeScalarFunction_def Let_def function_label_def
      split: list.splits govalue.splits option.splits prod.splits scalar_outcome.splits sum.splits)

lemma normalize_driver_value: "normalizeFunctionResult v = Inr v' \<Longrightarrow> is_driver_value v'"
  by (cases v) (auto split: if_splits)

lemma dispatch_value:
  "fst (dispatchScalarFunction call dbs arguments w) = Inr v \<Longrightarrow> is_driver_value v"
  by (auto simp: dispatchScalarFunction_def invokeScalarFunction_def Let_def normalize_driver_value
      split: list.splits govalue.splits option.splits prod.splits scalar_outcome.splits sum.splits)

section \<open>Properties\<close>

text \<open>
  An example: a registry with one function, a parser that knows one statement, and the tree
  of \<^verbatim>\<open>SELECT audit.double(1)\<close>.
\<close>

definition example_call :: "string list \<Rightarrow> msg list \<Rightarrow> msg" where
  "example_call names arguments = Msg FuncCall
     [(''funcname'', FList (map MakeStrNode names)), (''args'', FList arguments),
      (''funcformat'', FScalar (SEnum ''COERCE_EXPLICIT_CALL''))]"

definition example_tree :: msg where
  "example_tree = Msg Node [(''select_stmt'', FMsg (Msg (OtherMsg ''SelectStmt'')
     [(''target_list'', FList [Msg Node [(''func_call'', FMsg (example_call [''audit'', ''Double'']
        [Msg Node [(''a_const'', FMsg (Msg AConst []))]]))]])]))]"

definition example_const :: "string \<Rightarrow> int \<Rightarrow> msg" where
  "example_const s l = Msg Node [(''a_const'', FMsg (Msg AConst [(''sval'', FMsg (string_msg s))]))]"

definition example_parser :: pg_query where
  "example_parser =
     \<lparr>Parse = (\<lambda>s. Inr [\<lparr>Stmt = Some example_tree, Stmt_location = 0, Stmt_len = 0\<rparr>]),
      Deparse = (\<lambda>raws. Inr '' SELECT routed ''),
      SplitWithParser = (\<lambda>s. Inr [s]),
      MakeAConstStrNode = example_const\<rparr>"

definition example_registry :: "nat functionRegistry" where
  "example_registry = addOverload ''audit'' ''double'' 1 False 7 []"

lemma all_msgs_example_const:
  "all_msgs (example_const s l) =
     [example_const s l, Msg AConst [(''sval'', FMsg (string_msg s))], string_msg s]"
proof -
  have "children (example_const s l) = [Msg AConst [(''sval'', FMsg (string_msg s))]]"
    "children (Msg AConst [(''sval'', FMsg (string_msg s))]) = [string_msg s]"
    "children (string_msg s) = []"
    by (simp_all add: example_const_def children_def string_msg_def)
  then show ?thesis
    by (simp add: all_msgs.simps [of "example_const s l"] all_msgs.simps [of "Msg AConst _"]
        all_msgs.simps [of "string_msg s"])
qed

lemma example_constant_nodes: "constant_nodes example_parser"
proof -
  have "list_all (\<lambda>x. kind x \<noteq> FuncCall) (all_msgs (example_const s l))" for s l
    unfolding all_msgs_example_const by (simp add: example_const_def string_msg_def)
  then show ?thesis by (simp add: constant_nodes_def example_parser_def)
qed

text \<open>
  The registry after \<^verbatim>\<open>RegisterFunction\<close>: an invalid function or a closed database is
  rejected; otherwise a lookup of the function's lower-case name in its schema finds the new
  implementation (for a variadic function, from its minimum arity on and unless a fixed
  overload takes the call), and every other function, schema and arity is as before.
\<close>

theorem registration_lookup:
  "case RegisterFunction (Some s) isClosed f r of
     Inl e \<Rightarrow> \<not> (\<not> isClosed \<and> schemaNamePattern (fn_Name f) \<and> \<not> equalFold (fn_Name f) dispatchFunctionName
       \<and> 0 \<le> Arity f \<and> Implementation f \<noteq> None)
   | Inr r' \<Rightarrow> \<not> isClosed \<and> has r' s (toLower (fn_Name f))
       \<and> (\<forall>s' n a. implementation r' s' n a =
            (if s' = s \<and> n = toLower (fn_Name f) then
               (if Variadic f
                then (case fixed_overload r s n a of
                    Some g \<Rightarrow> Some g
                  | None \<Rightarrow> if Arity f \<le> a then Implementation f else None)
                else if a = Arity f then Implementation f else implementation r s n a)
             else implementation r s' n a))"
  by (auto simp: RegisterFunction_def validFunction_def has_addOverload registry.lookup_add
      bind_sum_def split: option.split)

text \<open>
  C16: rewriting the calls of a tree is the reference rewriting: it fails exactly when the
  tree calls the dispatcher itself, anywhere and however the name is spelled or qualified,
  and otherwise routes every plain call of a registered function; the tree is changed only
  when there is one, and then the flag says so.
\<close>

theorem rewriteFunctionTree_exact:
  "rewriteFunctionTree pq did r ds m c =
     (if list_ex directCall (all_msgs m) then Inl (Sentinel ErrUnsupported)
      else Inr (routeTree pq did r ds m, c \<or> list_ex (registeredCall r ds) (all_msgs m)))
   \<and> (list_ex (registeredCall r ds) (all_msgs m) \<or> routeTree pq did r ds m = m)"
  using routeTree_unchanged [of r ds m pq did] by (auto simp: rewriteFunctionTree_reference)

text \<open>
  C2: after a successful rewriting no call can reach the dispatcher except for a registered
  function of this database: each dispatcher call of the tree has the arguments the package
  wrote (the identifier of the database, a registered schema and function), and no plain call
  of a registered function is left for the engine to resolve.
\<close>

theorem function_calls_settled:
  assumes "constant_nodes pq" and "rewriteFunctionTree pq did r ds m c = Inr (m', c')"
  shows "list_all (settled pq did r ds) (all_msgs m')"
  using assms settled_routeTree [OF assms(1), of m did r ds]
  by (auto simp: rewriteFunctionTree_reference split: if_splits)

theorem function_calls_settled_witness:
  "list_all (settled example_parser ''id'' example_registry ''audit'')
     (all_msgs (routeTree example_parser ''id'' example_registry ''audit'' example_tree))
   \<and> routeTree example_parser ''id'' example_registry ''audit'' example_tree \<noteq> example_tree"
proof -
  have "list_ex directCall (all_msgs example_tree) = False"
    and "routeTree example_parser ''id'' example_registry ''audit'' example_tree \<noteq> example_tree"
    by code_simp+
  then have "rewriteFunctionTree example_parser ''id'' example_registry ''audit'' example_tree True
      = Inr (routeTree example_parser ''id'' example_registry ''audit'' example_tree, True)"
    by (simp add: rewriteFunctionTree_reference)
  from function_calls_settled [OF example_constant_nodes this] show ?thesis by (rule conjI) fact
qed

text \<open>
  C3: the gate before the engine: when functions are registered, or the statement may name
  the dispatcher, a statement reaches the engine only if it parses and nowhere calls the
  dispatcher itself, which is reported as SQLSTATE 0A000 about the source statement; a
  statement without registered calls is passed on as it is, any other with its calls routed.
\<close>

theorem registered_functions_gate:
  assumes "ctx w = None" and "hasAny r \<or> contains (toLower statement) dispatchFunctionName"
    and "Parse pq statement = Inr parsed"
  shows "rewriteRegisteredFunctions pq did r ctx ds source statement w =
     (if list_ex (stmt_ex directCall) parsed
      then Inl (PgError (Error_struct ''0A000''
        ''pgmem: internal function dispatcher cannot be called directly'' source
        (Some (Sentinel ErrUnsupported))))
      else if \<not> list_ex (stmt_ex (registeredCall r ds)) parsed then Inr statement
      else (case Deparse pq (map (routeStmt pq did r ds) parsed) of
          Inl e \<Rightarrow> Inl (Wrapf ''pgmem: deparse registered function call: '' e '''')
        | Inr t \<Rightarrow> Inr (trimSpace t)))"
proof -
  have "\<not> (\<not> hasAny r \<and> \<not> contains (toLower statement) dispatchFunctionName)"
    using assms(2) by blast
  then show ?thesis
    by (simp add: rewriteRegisteredFunctions_def rewriteStmts_reference assms(1,3) del: de_Morgan_conj)
qed

theorem registered_functions_gate_witness:
  "rewriteRegisteredFunctions example_parser ''id'' example_registry Background ''audit''
     ''SELECT double(1)'' ''SELECT audit.double(1)'' () = Inr ''SELECT routed''"
proof -
  let ?raw = "\<lparr>Stmt = Some example_tree, Stmt_location = 0, Stmt_len = 0\<rparr>"
  have "hasAny example_registry" and "trimSpace '' SELECT routed '' = ''SELECT routed''"
    and "list_ex (stmt_ex directCall) [?raw] = False"
    and "list_ex (stmt_ex (registeredCall example_registry ''audit'')) [?raw] = True"
    by code_simp+
  then show ?thesis
    using registered_functions_gate [of Background "()" example_registry "''SELECT audit.double(1)''"
        example_parser "[?raw]" "''id''" "''audit''" "''SELECT double(1)''"]
    by (simp add: example_parser_def Background_def)
qed

text \<open>
  C33: a call of the dispatcher never escapes as a panic: whatever the registered function
  does, the engine receives a value it accepts or an error, and every such error is
  reported to the caller as SQLSTATE 38000, whatever text the engine puts around it.
\<close>

theorem dispatch_contained:
  "case fst (dispatchScalarFunction call dbs arguments w) of
     Inr v \<Rightarrow> is_driver_value v
   | Inl e \<Rightarrow> sqlState_of_text (p @ error_text e @ q) = ''38000''"
proof (cases "fst (dispatchScalarFunction call dbs arguments w)")
  case (Inl e)
  from dispatch_error_text [OF Inl] obtain t where "error_text e = ''pgmem function'' @ t" ..
  with Inl external_routine_state [of p "t @ q"] show ?thesis by simp
qed (use dispatch_value in auto)

text \<open>
  C34: a call routed to a freshly registered fixed overload runs that implementation, once,
  on copies of the arguments after the three routing arguments; the database is found by its
  identifier, so functions of other databases do not interfere.
\<close>

theorem registered_call_reaches_implementation:
  assumes "RegisterFunction (Some s) False f r = Inr r'" and "dbs did = Some r'"
    and "\<not> Variadic f" and "Arity f = int (length arguments)"
  shows "dispatchScalarFunction call dbs
      (VString did # VString s # VString (toLower (fn_Name f)) # arguments) w
    = invokeScalarFunction call s (toLower (fn_Name f)) (the (Implementation f))
        (map cloneDriverValue arguments) w"
proof -
  obtain impl where "Implementation f = Some impl"
    and "r' = addOverload s (toLower (fn_Name f)) (Arity f) False impl r"
    using assms(1,3) by (auto simp: RegisterFunction_def validFunction_def bind_sum_Inr_iff
        split: if_splits option.splits)
  with assms(2,4) show ?thesis
    by (simp add: dispatchScalarFunction_def registry.lookup_add)
qed

definition example_fn :: "nat scalar_fn" where
  "example_fn = \<lparr>fn_Name = ''Double'', Arity = 1, Variadic = False, Implementation = Some 7\<rparr>"

definition example_fn_call :: "nat \<Rightarrow> govalue list \<Rightarrow> nat \<Rightarrow> scalar_outcome \<times> nat" where
  "example_fn_call f arguments w =
     ((if f = 7 then Returned (hd arguments) None else PanickedValue []), Suc w)"

theorem registered_call_reaches_implementation_witness:
  "dispatchScalarFunction example_fn_call [''id'' \<mapsto> example_registry]
      [VString ''id'', VString ''audit'', VString ''double'', VInt64 21] 0 = (Inr (VInt64 21), 1)"
proof -
  have r: "RegisterFunction (Some ''audit'') False example_fn [] = Inr example_registry"
    and v: "\<not> Variadic example_fn" and a: "Arity example_fn = int (length [VInt64 21])"
    and n: "toLower (fn_Name example_fn) = ''double''"
    by code_simp+
  have d: "[''id'' \<mapsto> example_registry] ''id'' = Some example_registry" by simp
  note routed = registered_call_reaches_implementation [where dbs = "[''id'' \<mapsto> example_registry]", OF r d v a]
  from routed [of example_fn_call 0] show ?thesis
    by (simp add: n invokeScalarFunction_def example_fn_call_def Let_def)
      (simp add: example_fn_def)
qed

end
