(* ===== verification/SchemaExecCorrect.thy ===== *)
theory SchemaExecCorrect imports SchemaExec
begin

text \<open>
  Correctness of \<^verbatim>\<open>schema.go\<close>: scripts are all or nothing when the engine's transactions are,
  the statements of a script are the non-blank parts of the split, and \<^verbatim>\<open>One\<close> insists on one
  row.
\<close>

section \<open>What the code relies on\<close>

text \<open>
  The documented behaviour of \<^verbatim>\<open>database/sql\<close> transactions, on the part \<open>data\<close> of the state
  that the database stores; \<open>saved tx\<close> is the data at the beginning of the open
  transaction \<open>tx\<close>: beginning changes no data, statements do not affect what the
  transaction would be rolled back to, a commit keeps the data, and \<^verbatim>\<open>Rollback\<close>, also after
  a failed commit, brings back the data of the beginning.
\<close>

definition transactional :: "'w sql_engine \<Rightarrow> ('w \<Rightarrow> 'd) \<Rightarrow> (nat \<Rightarrow> 'w \<Rightarrow> 'd option) \<Rightarrow> bool" where
  "transactional eng data saved \<longleftrightarrow>
     (\<forall>ctx w. case DB_BeginTx eng ctx w of
        (Inr tx, w') \<Rightarrow> data w' = data w \<and> saved tx w' = Some (data w)
      | (Inl e, w') \<Rightarrow> data w' = data w)
   \<and> (\<forall>tx ctx st args w. saved tx (snd (Tx_ExecContext eng tx ctx st args w)) = saved tx w)
   \<and> (\<forall>tx ctx st args w. saved tx (snd (Tx_QueryContext eng tx ctx st args w)) = saved tx w)
   \<and> (\<forall>tx w. case Tx_Commit eng tx w of
        (None, w') \<Rightarrow> data w' = data w
      | (Some e, w') \<Rightarrow> saved tx w' = saved tx w)
   \<and> (\<forall>tx w d. saved tx w = Some d \<longrightarrow> data (snd (Tx_Rollback eng tx w)) = d)"

text \<open>A statement executed on its own that reports an error has changed no data.\<close>

definition atomic_statements :: "'w sql_engine \<Rightarrow> ('w \<Rightarrow> 'd) \<Rightarrow> bool" where
  "atomic_statements eng data \<longleftrightarrow>
     (\<forall>ctx st args w. case DB_ExecContext eng ctx st args w of
        (Inr (Inr n), w') \<Rightarrow> True
      | (Inr (Inl e), w') \<Rightarrow> data w' = data w
      | (Inl e, w') \<Rightarrow> data w' = data w)"

text \<open>The user's translator and interceptors leave the data alone.\<close>

definition data_neutral :: "('i, 'w) env \<Rightarrow> ('w \<Rightarrow> 'd) \<Rightarrow> bool" where
  "data_neutral env data \<longleftrightarrow>
     (\<forall>ctx s st w. data (snd (translator env ctx s st w)) = data w)
   \<and> (\<forall>i ctx st args w. data (snd (call_interceptor env i ctx st args w)) = data w)"

lemma begin_laws:
  assumes "transactional eng data saved"
  shows "DB_BeginTx eng ctx w = (Inr tx, w') \<Longrightarrow> data w' = data w \<and> saved tx w' = Some (data w)"
    and "DB_BeginTx eng ctx w = (Inl e, w') \<Longrightarrow> data w' = data w"
proof -
  have "case DB_BeginTx eng ctx w of
        (Inr tx, w') \<Rightarrow> data w' = data w \<and> saved tx w' = Some (data w)
      | (Inl e, w') \<Rightarrow> data w' = data w"
    using assms unfolding transactional_def by (elim conjE) simp
  then show "DB_BeginTx eng ctx w = (Inr tx, w') \<Longrightarrow> data w' = data w \<and> saved tx w' = Some (data w)"
    and "DB_BeginTx eng ctx w = (Inl e, w') \<Longrightarrow> data w' = data w"
    by simp_all
qed

lemma commit_laws:
  assumes "transactional eng data saved"
  shows "Tx_Commit eng tx w = (None, w') \<Longrightarrow> data w' = data w"
    and "Tx_Commit eng tx w = (Some e, w') \<Longrightarrow> saved tx w' = saved tx w"
proof -
  have "case Tx_Commit eng tx w of (None, w') \<Rightarrow> data w' = data w | (Some e, w') \<Rightarrow> saved tx w' = saved tx w"
    using assms unfolding transactional_def by (elim conjE) simp
  then show "Tx_Commit eng tx w = (None, w') \<Longrightarrow> data w' = data w"
    and "Tx_Commit eng tx w = (Some e, w') \<Longrightarrow> saved tx w' = saved tx w"
    by simp_all
qed

lemma tx_laws:
  assumes "transactional eng data saved"
  shows "saved tx (snd (Tx_ExecContext eng tx ctx st args w)) = saved tx w"
    and "saved tx (snd (Tx_QueryContext eng tx ctx st args w)) = saved tx w"
    and "saved tx w = Some d \<Longrightarrow> data (snd (Tx_Rollback eng tx w)) = d"
  using assms unfolding transactional_def by blast+

section \<open>Transactions\<close>

lemma inTransaction_atomic:
  assumes "transactional eng data saved" and "\<And>tx w. saved tx (snd (body tx w)) = saved tx w"
  shows "case inTransaction eng ctx st body w of
     (Inl e, w') \<Rightarrow> data w' = data w
   | (Inr r, w') \<Rightarrow> (\<exists>tx w1 w2. DB_BeginTx eng ctx w = (Inr tx, w1) \<and> body tx w1 = (Inr r, w2) \<and> data w' = data w2)"
proof (cases "DB_BeginTx eng ctx w")
  case (Pair r w1)
  show ?thesis
  proof (cases r)
    case (Inl e)
    with Pair begin_laws(2) [OF assms(1)] show ?thesis by (simp add: inTransaction_def)
  next
    case (Inr tx)
    obtain b w2 where body: "body tx w1 = (b, w2)" by force
    have "saved tx w1 = Some (data w)" using begin_laws(1) [OF assms(1)] Pair Inr by blast
    then have saved: "saved tx w2 = Some (data w)" using assms(2) [of tx w1] body by simp
    show ?thesis
    proof (cases b)
      case (Inl e)
      with Pair Inr body tx_laws(3) [OF assms(1) saved] show ?thesis by (simp add: inTransaction_def)
    next
      case res: (Inr res)
      obtain c w3 where commit: "Tx_Commit eng tx w2 = (c, w3)" by force
      show ?thesis
      proof (cases c)
        case None
        with Pair Inr body res commit commit_laws(1) [OF assms(1)] show ?thesis by (simp add: inTransaction_def)
      next
        case (Some e)
        have "saved tx w3 = Some (data w)" using commit_laws(2) [OF assms(1)] commit Some saved by simp
        with Pair Inr body res commit Some tx_laws(3) [OF assms(1)] show ?thesis by (simp add: inTransaction_def)
      qed
    qed
  qed
qed

lemma execOne_state: "snd (execOne pq ctx ex st args w) = snd (ex ctx (translated st) args w)"
  by (simp add: execOne_def split: prod.split sum.split)

lemma queryOne_state: "snd (queryOne pq ctx q st args w) = snd (q ctx (translated st) args w)"
  by (simp add: queryOne_def split: prod.split sum.split)

lemma execAll_saved:
  assumes "\<And>ctx st args w. f (snd (ex ctx st args w)) = f w"
  shows "f (snd (execAll pq ctx ex sts res w)) = f w"
proof (induction sts arbitrary: res w)
  case (Cons st sts)
  have "f (snd (execOne pq ctx ex st [] w)) = f w" by (simp add: execOne_state assms)
  then show ?case using Cons.IH by (auto split: prod.split sum.split)
qed simp

lemma execScript_body_saved:
  assumes "transactional (engine env) data saved"
  shows "saved tx (snd (execAll pq ctx (Tx_ExecContext (engine env) tx) sts res w)) = saved tx w"
  by (intro execAll_saved tx_laws(1) [OF assms])

lemma queryScript_body_saved:
  assumes "transactional (engine env) data saved"
  shows "saved tx (snd (case execAll pq ctx (Tx_ExecContext (engine env) tx) sts res w of
      (Inl e, w2) \<Rightarrow> (Inl e, w2)
    | (Inr res', w2) \<Rightarrow> queryOne pq ctx (Tx_QueryContext (engine env) tx) st [] w2)) = saved tx w"
  using execScript_body_saved [OF assms, of tx pq ctx sts res w] tx_laws(2) [OF assms]
  by (auto simp: queryOne_state split: prod.split sum.split)

section \<open>Translation\<close>

lemma translate_data: "data_neutral env data \<Longrightarrow> data (snd (translate env s ctx st db)) = data db"
  by (auto simp: translate_def data_neutral_def split: option.split prod.split sum.split)
    (metis snd_conv)+

lemma translateParts_data:
  assumes "data_neutral env data"
  shows "data (snd (translateParts env s ctx parts db)) = data db"
proof (induction parts arbitrary: db)
  case (Cons part parts)
  then show ?case
    using translate_data [OF assms, of s ctx part db]
    by (auto split: prod.split sum.split) (metis snd_conv)+
qed simp

lemma translateStatements_data:
  assumes "data_neutral env data"
  shows "data (snd (translateStatements env s ctx script db)) = data db"
  using translate_data [OF assms, of s ctx script db] translateParts_data [OF assms, of s ctx _ db]
  by (auto simp: translateStatements_def translateOnly_def split: prod.split sum.split)
    (metis snd_conv)+

lemma run_entries_data:
  assumes "data_neutral env data"
  shows "data (snd (run_entries env ctx st args es w)) = data w"
proof (induction es arbitrary: w)
  case (Cons e es)
  have "data (snd (call_interceptor env (interceptor e) ctx st (cloneArguments args) w)) = data w"
    using assms unfolding data_neutral_def by blast
  then show ?case by (auto simp: Cons.IH split: prod.split option.split)
qed simp

lemma runInterceptors_data:
  "data_neutral env data \<Longrightarrow> data (snd (runInterceptors env s ctx st args db)) = data db"
  by (simp add: runInterceptors_def run_entries_data split: option.split)

lemma translateParts_sources:
  "translateParts env s ctx parts db = (Inr sts, db') \<Longrightarrow>
     map source sts = filter (\<lambda>p. trimSpace p \<noteq> '''') parts"
proof (induction parts arbitrary: db sts)
  case (Cons part parts)
  then show ?case by (auto split: prod.splits sum.splits if_splits)
qed simp

lemma execOne_data:
  assumes "atomic_statements eng data"
    and "execOne pq ctx (DB_ExecContext eng) st args w = (Inl e, w')"
  shows "data w' = data w"
proof -
  have "case DB_ExecContext eng ctx (translated st) args w of
      (Inr (Inr n), w') \<Rightarrow> True
    | (Inr (Inl e), w') \<Rightarrow> data w' = data w
    | (Inl e, w') \<Rightarrow> data w' = data w"
    using assms(1) unfolding atomic_statements_def by simp
  with assms(2) show ?thesis by (auto simp: execOne_def split: prod.splits sum.splits)
qed

lemma execScript_atomic:
  assumes "transactional (engine env) data saved"
  shows "case execScript env ctx st sts w of
     (Inl e, w') \<Rightarrow> data w' = data w
   | (Inr r, w') \<Rightarrow> (\<exists>tx w1 w2. DB_BeginTx (engine env) ctx w = (Inr tx, w1)
       \<and> execAll (parser env) ctx (Tx_ExecContext (engine env) tx) sts zero_result w1 = (Inr r, w2)
       \<and> data w' = data w2)"
proof -
  let ?body = "\<lambda>tx. execAll (parser env) ctx (Tx_ExecContext (engine env) tx) sts zero_result"
  have "saved tx (snd (?body tx w)) = saved tx w" for tx w
    by (rule execScript_body_saved [OF assms])
  from inTransaction_atomic [where body = ?body and saved = saved, OF assms this]
  show ?thesis unfolding execScript_def .
qed

lemma execScript_data:
  assumes "transactional (engine env) data saved" and "execScript env ctx st sts w = (Inl e, w')"
  shows "data w' = data w"
  using execScript_atomic [OF assms(1), where ctx = ctx and st = st and sts = sts and w = w]
  by (simp add: assms(2))

lemma queryScript_data:
  assumes "transactional (engine env) data saved" and "queryScript env ctx st sts w = (Inl e, w')"
  shows "data w' = data w"
proof -
  let ?body = "\<lambda>tx w1. case execAll (parser env) ctx (Tx_ExecContext (engine env) tx) (butlast sts) zero_result w1 of
      (Inl e, w2) \<Rightarrow> (Inl e, w2)
    | (Inr res, w2) \<Rightarrow> queryOne (parser env) ctx (Tx_QueryContext (engine env) tx) (last sts) [] w2"
  have "saved tx (snd (?body tx w)) = saved tx w" for tx w
    by (rule queryScript_body_saved [OF assms(1)])
  from inTransaction_atomic [where body = ?body and saved = saved and w = w and ctx = ctx and st = st,
      OF assms(1) this]
  show ?thesis using assms(2) by (simp add: queryScript_def)
qed

lemma ExecContext_error_data:
  assumes "transactional (engine env) data saved" and "atomic_statements (engine env) data"
    and "data_neutral env data"
    and "ExecContext env s ctx statement arguments db = (Inl e, db')"
  shows "data db' = data db"
proof -
  obtain res handled err db1 where icp: "runInterceptors env s ctx statement arguments db = ((res, handled, err), db1)"
    by (metis surj_pair)
  obtain t db2 where tr: "translateStatements env s ctx statement db1 = (t, db2)" by force
  have db1: "data db1 = data db"
    using runInterceptors_data [OF assms(3), of s ctx statement arguments db] icp by simp
  moreover have db2: "data db2 = data db1"
    using translateStatements_data [OF assms(3), of s ctx statement db1] tr by simp
  moreover have "db' = db1 \<or> db' = db2 \<or> data db' = data db2"
  proof (cases "err = None \<and> \<not> handled")
    case True
    then show ?thesis
      using assms(4) icp tr execOne_data [OF assms(2)] execScript_data [OF assms(1)]
      by (cases t) (auto simp: ExecContext_def split: if_splits)
  qed (use assms(4) icp in \<open>auto simp: ExecContext_def split: option.splits bool.splits\<close>)
  ultimately show ?thesis by auto
qed

section \<open>Properties\<close>

text \<open>
  An example: an engine whose data is the list of the statements executed, in which the
  statement \<^verbatim>\<open>fail\<close> fails, with its parser and translator.
\<close>

type_synonym example_state = "(nat, string, string list \<times> string list option) DB"

definition example_exec :: "example_state executor" where
  "example_exec ctx st args db =
     (if st = ''fail'' then (Inl (ErrorText ''no such table: t''), db)
      else (Inr (Inr 1), db\<lparr>outside := (fst (outside db) @ [st], snd (outside db))\<rparr>))"

definition example_engine :: "example_state sql_engine" where
  "example_engine =
     \<lparr>DB_ExecContext = example_exec,
      DB_QueryContext = (\<lambda>ctx st args db. (Inr \<lparr>rs_columns = Inr [''n''], rs_scans = [Inr [VInt64 7]], rs_err = None\<rparr>, db)),
      DB_QueryRowScan = (\<lambda>ctx st args db. (if hd args = VString ''notes'' then None else Some (Std SqlErrNoRows), db)),
      DB_BeginTx = (\<lambda>ctx db. (Inr 0, db\<lparr>outside := (fst (outside db), Some (fst (outside db)))\<rparr>)),
      Tx_ExecContext = (\<lambda>tx. example_exec),
      Tx_QueryContext = (\<lambda>tx ctx st args db. (Inr \<lparr>rs_columns = Inr [''n''], rs_scans = [Inr [VInt64 7]], rs_err = None\<rparr>, db)),
      Tx_Commit = (\<lambda>tx db. (None, db\<lparr>outside := (fst (outside db), None)\<rparr>)),
      Tx_Rollback = (\<lambda>tx db. (None, db\<lparr>outside := (case snd (outside db) of None \<Rightarrow> fst (outside db) | Some d \<Rightarrow> d, None)\<rparr>)),
      DB_Close = (\<lambda>db. (None, db))\<rparr>"

definition example_env :: "(string, example_state) env" where
  "example_env =
     \<lparr>parser = \<lparr>Parse = (\<lambda>s. Inl (ErrorText ''syntax'')), Deparse = (\<lambda>raws. Inr ''''),
        SplitWithParser = (\<lambda>s. Inr [''insert'', '' '', ''fail'']), MakeAConstStrNode = (\<lambda>s l. MakeStrNode s)\<rparr>,
      translator = (\<lambda>ctx s st db. (Inr st, db)),
      engine = example_engine,
      call_interceptor = (\<lambda>i ctx st args db. ((zero_result, False, None), db))\<rparr>"

definition example_open :: example_state where
  "example_open = \<lparr>schemas = [(''public'', empty_interceptors)], dispatchID = ''id'', fn_registry = [],
     db_closed = False, outside = ([''create''], None)\<rparr>"

lemma example_laws:
  "transactional example_engine (\<lambda>db. fst (outside db)) (\<lambda>tx db. snd (outside db))"
  "atomic_statements example_engine (\<lambda>db. fst (outside db))"
  "data_neutral example_env (\<lambda>db. fst (outside db))"
  by (auto simp: transactional_def atomic_statements_def data_neutral_def example_engine_def example_env_def
      example_exec_def)



text \<open>
  The statements of a script: a text without a semicolon, or one the parser cannot split,
  is one statement; otherwise the non-blank parts are executed, all of them, in the order of
  the script, each under its own source text; there is always at least one.
\<close>

theorem script_statements:
  "case translateStatements env s ctx script db of
     (Inr sts, db') \<Rightarrow> sts \<noteq> [] \<and> map source sts =
       (if CHR 0x3B \<notin> set script then [script]
        else (case SplitWithParser (parser env) script of
            Inl e \<Rightarrow> [script] | Inr parts \<Rightarrow> filter (\<lambda>p. trimSpace p \<noteq> '''') parts))
   | (Inl e, db') \<Rightarrow> True"
  by (auto simp: translateStatements_def translateOnly_def translateParts_sources split: prod.split sum.split)

text \<open>
  \<^verbatim>\<open>One\<close> succeeds exactly when the query yields one row, and returns it; no row and several
  rows are the errors \<^verbatim>\<open>ErrNoRows\<close> and \<^verbatim>\<open>ErrTooManyRows\<close>, distinct under \<^verbatim>\<open>errors.Is\<close>, and the
  state is that after the query in every case.
\<close>

theorem one_row:
  "let (many, db1) = ManyContext env s ctx st args db; (one, db2) = OneContext env s ctx st args db in
     db1 = db2 \<and>
     (case many of
        Inl e \<Rightarrow> one = Inl e
      | Inr rows \<Rightarrow>
          (\<forall>r. one = Inr r \<longleftrightarrow> rows = Some [r])
        \<and> (rows = None \<or> rows = Some [] \<longleftrightarrow> (case one of Inl e \<Rightarrow> errors_is e (Sentinel ErrNoRows) | Inr r \<Rightarrow> False))
        \<and> ((case rows of Some rs \<Rightarrow> 1 < length rs | None \<Rightarrow> False)
            \<longleftrightarrow> (case one of Inl e \<Rightarrow> errors_is e (Sentinel ErrTooManyRows) | Inr r \<Rightarrow> False)))"
  by (auto simp: OneContext_def exactlyOne_def Let_def split: prod.split sum.split option.split list.split)

end
