(* ===== verification/DatabaseCorrect.thy ===== *)
theory DatabaseCorrect imports Database FunctionsCorrect SchemaExecCorrect
begin

text \<open>
  Correctness of \<^verbatim>\<open>database.go\<close> and \<^verbatim>\<open>options.go\<close>: the schemas of a database never collide in
  the engine, opening is all or nothing and opened databases are isolated from each other,
  and the dispatcher finds exactly the open databases.
\<close>

section \<open>Schemas\<close>

text \<open>
  The map of schemas: distinct folded names that the engine does not use for itself, one of
  them the public schema.
\<close>

definition schema_name_ok :: "string \<Rightarrow> bool" where
  "schema_name_ok n \<longleftrightarrow> schemaNamePattern n \<and> toLower n = n \<and> n \<noteq> ''main'' \<and> n \<noteq> ''temp''"

definition schemas_ok :: "('f, 'i, 'o) DB \<Rightarrow> bool" where
  "schemas_ok db \<longleftrightarrow> distinct (map fst (schemas db)) \<and> ''public'' \<in> set (map fst (schemas db))
     \<and> list_all schema_name_ok (map fst (schemas db))"

lemma name_chars_toLower: "name_start c \<Longrightarrow> name_start (ascii_lower c)" "name_rest c \<Longrightarrow> name_rest (ascii_lower c)"
proof -
  have "name_start c \<longrightarrow> name_start (ascii_lower c)" "name_rest c \<longrightarrow> name_rest (ascii_lower c)"
    by (auto simp: name_start_def name_rest_def ascii_lower_def Let_def of_char_of take_bit_eq_mod)
  then show "name_start c \<Longrightarrow> name_start (ascii_lower c)" "name_rest c \<Longrightarrow> name_rest (ascii_lower c)"
    by simp_all
qed

lemma schemaNamePattern_toLower: "schemaNamePattern s \<Longrightarrow> schemaNamePattern (toLower s)"
  by (cases s) (auto simp: toLower_def list_all_iff intro: name_chars_toLower)

lemma schemas_ok_add:
  assumes "schemas_ok db" and "schemaNamePattern n"
    and "toLower n \<noteq> ''main''" and "toLower n \<noteq> ''temp''"
  shows "schemas_ok (db\<lparr>schemas := AList.update (toLower n) reg (schemas db)\<rparr>)"
  using assms schemaNamePattern_toLower [OF assms(2)]
  by (auto simp: schemas_ok_def schema_name_ok_def list_all_iff distinct_update dom_update
      simp flip: image_set)

lemma engineSchemaName_distinct:
  assumes "schemas_ok db"
  shows "distinct (map toLower (map engineSchemaName (map fst (schemas db))))"
proof -
  have "engineSchemaName m = engineSchemaName n \<longleftrightarrow> m = n"
    if "schema_name_ok m" "schema_name_ok n" for m n
    using that by (intro engineSchemaName_inject) (auto simp: schema_name_ok_def)
  moreover have "toLower (engineSchemaName n) = engineSchemaName n" if "schema_name_ok n" for n
    using that by (auto simp: engineSchemaName_def schema_name_ok_def toLower_def ascii_lower_def)
  ultimately have "inj_on (toLower \<circ> engineSchemaName) (set (map fst (schemas db)))"
    using assms unfolding schemas_ok_def list_all_iff inj_on_def comp_def by (metis (no_types, lifting))
  then have "distinct (map (toLower \<circ> engineSchemaName) (map fst (schemas db)))"
    using assms by (simp add: distinct_map schemas_ok_def del: map_map)
  then show ?thesis by (simp add: comp_assoc)
qed

section \<open>Opening databases\<close>

lemma hex_digit_value: "n < 16 \<Longrightarrow> (of_char (hex_digit n) :: nat) = (if n < 10 then 48 + n else 87 + n)"
  by (simp add: hex_digit_def of_char_of take_bit_eq_mod)

lemma hex_digit_inject: "m < 16 \<Longrightarrow> n < 16 \<Longrightarrow> hex_digit m = hex_digit n \<Longrightarrow> m = n"
proof -
  assume bounds: "m < 16" "n < 16" and "hex_digit m = hex_digit n"
  then have "(if m < 10 then 48 + m else 87 + m) = (if n < 10 then 48 + n else 87 + n)"
    using hex_digit_value by metis
  then show "m = n" using bounds by (simp split: if_splits)
qed

lemma hexEncode_inject: "hexEncode a = hexEncode b \<longleftrightarrow> a = b"
proof
  assume "hexEncode a = hexEncode b"
  then show "a = b"
  proof (induction a arbitrary: b)
    case Nil
    then show ?case by (cases b) (simp_all add: hexEncode_def)
  next
    case (Cons c a)
    then obtain d b' where b: "b = d # b'" by (cases b) (auto simp: hexEncode_def)
    have digit: "(of_char x :: nat) div 16 < 16" "(of_char x :: nat) mod 16 < 16" for x
      using nat_of_char_less_256 [of x] by presburger+
    from Cons.prems b have "hex_digit (of_char c div 16) = hex_digit (of_char d div 16)"
      "hex_digit (of_char c mod 16) = hex_digit (of_char d mod 16)" "hexEncode a = hexEncode b'"
      by (simp_all add: hexEncode_def)
    then have "(of_char c :: nat) div 16 = of_char d div 16" "(of_char c :: nat) mod 16 = of_char d mod 16" "a = b'"
      using Cons.IH digit by (auto intro: hex_digit_inject)
    then have "(of_char c :: nat) = of_char d" by (metis div_mult_mod_eq)
    with b \<open>a = b'\<close> show ?case by simp
  qed
qed simp

lemma dataSourceName_inject: "dataSourceName m = dataSourceName n \<longleftrightarrow> m = n"
proof
  have digits: "takeWhile (\<lambda>c. c \<noteq> CHR 0x3F) (decimal k @ CHR 0x3F # t) = decimal k" for k t
  proof -
    have "c \<noteq> CHR 0x3F" if "c \<in> set (decimal k)" for c
      using decimal_digits [OF that] by auto
    then show ?thesis by (simp add: takeWhile_append2)
  qed
  assume "dataSourceName m = dataSourceName n"
  then have "decimal (unat m) @ ''?mode=memory&cache=shared'' = decimal (unat n) @ ''?mode=memory&cache=shared''"
    by (simp add: dataSourceName_def)
  then have "decimal (unat m) = decimal (unat n)"
    by (metis append_same_eq)
  then show "m = n" by (simp add: word_unat_eq_iff)
qed simp

section \<open>Processes\<close>

definition db_id :: "('f, 'i, 't) opened \<Rightarrow> string" where
  "db_id d = dispatchID (od_state d)"

definition is_open :: "('f, 'i, 't) opened \<Rightarrow> bool" where
  "is_open d \<longleftrightarrow> \<not> db_closed (od_state d)"

text \<open>
  The steps of a process.  The identifier of a new database is 32 random bytes: it is
  assumed not to have been drawn before.
\<close>

definition fresh_id :: "go_error + nat \<Rightarrow> ('f, 'i, 't, 'w) process \<Rightarrow> ('f, 'i, 't, 'w) process \<Rightarrow> bool" where
  "fresh_id r p p' = (case r of
     Inl e \<Rightarrow> True | Inr h \<Rightarrow> db_id (databases p' ! h) \<notin> set (map db_id (databases p)))"

inductive process_step ::
  "'w platform \<Rightarrow> 't \<Rightarrow> ('f, 'i, 't, 'w) process \<Rightarrow> ('f, 'i, 't, 'w) process \<Rightarrow> bool"
  for os :: "'w platform" and dflt :: 't where
  step_new: "NewContext os dflt ctx options p = (r, p') \<Longrightarrow> fresh_id r p p' \<Longrightarrow> process_step os dflt p p'"
| step_close: "h < length (databases p) \<Longrightarrow> Close os h p = (e, p') \<Longrightarrow> process_step os dflt p p'"
| step_register: "h < length (databases p) \<Longrightarrow> process_RegisterFunction h s f p = (e, p') \<Longrightarrow> process_step os dflt p p'"

inductive process_reachable ::
  "'w platform \<Rightarrow> 't \<Rightarrow> ('f, 'i, 't, 'w) process \<Rightarrow> bool"
  for os :: "'w platform" and dflt :: 't where
  reach_init: "process_reachable os dflt \<lparr>databaseSequence = n, functionDatabases = [], databases = [], world = w\<rparr>"
| reach_step: "process_reachable os dflt p \<Longrightarrow> process_step os dflt p p' \<Longrightarrow> process_reachable os dflt p'"

definition process_ok :: "('f, 'i, 't, 'w) process \<Rightarrow> bool" where
  "process_ok p \<longleftrightarrow> distinct (map db_id (databases p))
     \<and> (\<forall>did h. map_of (functionDatabases p) did = Some h \<longleftrightarrow>
          h < length (databases p) \<and> is_open (databases p ! h) \<and> db_id (databases p ! h) = did)"

text \<open>What \<^verbatim>\<open>NewContext\<close> does: it opens one database, or it changes no database.\<close>

definition new_outcome ::
  "'t db_option option list \<Rightarrow> 't \<Rightarrow> (go_error + nat) \<times> ('f, 'i, 't, 'w) process \<Rightarrow> ('f, 'i, 't, 'w) process \<Rightarrow> bool" where
  "new_outcome options dflt outcome p =
     (case outcome of
        (Inl e, p') \<Rightarrow> databases p' = databases p \<and> functionDatabases p' = functionDatabases p
          \<and> (databaseSequence p' = databaseSequence p \<or> databaseSequence p' = databaseSequence p + 1)
      | (Inr h, p') \<Rightarrow> h = length (databases p) \<and> databaseSequence p' = databaseSequence p + 1
          \<and> (\<exists>d. databases p' = databases p @ [d] \<and> od_state d = initialState (db_id d)
               \<and> applyOptions options dflt = Inr (od_translator d)
               \<and> functionDatabases p' = AList.update (db_id d) h (functionDatabases p)))"

lemma NewContext_outcome: "new_outcome options dflt (NewContext os dflt ctx options p) p"
  by (auto simp: new_outcome_def NewContext_def initialState_def db_id_def Let_def
      split: sum.split prod.split option.split)

lemma process_ok_new:
  assumes "process_ok p" and "NewContext os dflt ctx options p = (r, p')" and "fresh_id r p p'"
  shows "process_ok p'"
proof (cases r)
  case (Inl e)
  with NewContext_outcome [of options dflt os ctx p] assms show ?thesis
    by (simp add: new_outcome_def process_ok_def)
next
  case (Inr h)
  then obtain d where d: "h = length (databases p)" "databases p' = databases p @ [d]"
    "od_state d = initialState (db_id d)" "functionDatabases p' = AList.update (db_id d) h (functionDatabases p)"
    using NewContext_outcome [of options dflt os ctx p] assms(2) by (auto simp: new_outcome_def)
  have fresh: "db_id d \<notin> set (map db_id (databases p))"
    using assms(3) Inr d by (simp add: fresh_id_def)
  have "is_open d" by (simp add: is_open_def d(3) initialState_def)
  moreover have "db_id (databases p ! k) \<noteq> db_id d" if "k < length (databases p)" for k
    using fresh that by (metis length_map nth_map nth_mem)
  ultimately show ?thesis
    using assms(1) fresh by (auto simp: process_ok_def d nth_append update_conv' less_Suc_eq)
qed

lemma process_ok_close:
  assumes "process_ok p" and "h < length (databases p)" and "Close os h p = (e, p')"
  shows "process_ok p'"
proof (cases "is_open (databases p ! h)")
  case True
  let ?d = "databases p ! h"
  let ?d' = "?d\<lparr>od_state := od_state ?d\<lparr>db_closed := True\<rparr>\<rparr>"
  have p': "databases p' = (databases p)[h := ?d']"
    "functionDatabases p' = AList.delete (db_id ?d) (functionDatabases p)"
    using assms(3) True by (auto simp: Close_def is_open_def db_id_def Let_def split: prod.splits)
  have ids: "db_id (databases p' ! k) = db_id (databases p ! k)" if "k < length (databases p)" for k
    using that assms(2) by (simp add: p' nth_list_update db_id_def)
  then have "map db_id (databases p') = map db_id (databases p)"
    by (simp add: list_eq_iff_nth_eq p')
  moreover have "is_open (databases p' ! k) \<longleftrightarrow> k \<noteq> h \<and> is_open (databases p ! k)" if "k < length (databases p)" for k
    using that assms(2) by (simp add: p' nth_list_update is_open_def)
  moreover have "db_id (databases p ! k) = db_id ?d \<longleftrightarrow> k = h" if "k < length (databases p)" for k
    using that assms(1,2) nth_eq_iff_index_eq [of "map db_id (databases p)" k h] by (simp add: process_ok_def)
  moreover have "length (databases p') = length (databases p)" by (simp add: p')
  moreover have "map_of (functionDatabases p') did = (if did = db_id ?d then None else map_of (functionDatabases p) did)" for did
    by (simp add: p' delete_conv')
  ultimately show ?thesis
    using assms(1) ids unfolding process_ok_def by (auto split: if_splits)
qed (use assms in \<open>auto simp: Close_def is_open_def Let_def\<close>)

lemma RegisterFunction_state:
  "db_closed (snd (Schema_RegisterFunction s f db)) = db_closed db"
  "dispatchID (snd (Schema_RegisterFunction s f db)) = dispatchID db"
  "schemas (snd (Schema_RegisterFunction s f db)) = schemas db"
  by (simp_all add: Schema_RegisterFunction_def split: sum.split)

lemma process_ok_register:
  assumes "process_ok p" and "h < length (databases p)" and "process_RegisterFunction h s f p = (e, p')"
  shows "process_ok p'"
proof -
  let ?d = "databases p ! h"
  have p': "databases p' = (databases p)[h := ?d\<lparr>od_state := snd (Schema_RegisterFunction s f (od_state ?d))\<rparr>]"
    "functionDatabases p' = functionDatabases p"
    using assms(3) by (auto simp: process_RegisterFunction_def Let_def split: prod.splits)
  have same: "db_id (databases p' ! k) = db_id (databases p ! k)" "is_open (databases p' ! k) = is_open (databases p ! k)"
    if "k < length (databases p)" for k
    using that assms(2) by (simp_all add: p' nth_list_update db_id_def is_open_def RegisterFunction_state)
  then have "map db_id (databases p') = map db_id (databases p)"
    by (simp add: list_eq_iff_nth_eq p')
  moreover have "length (databases p') = length (databases p)" by (simp add: p')
  ultimately show ?thesis
    using assms(1) same unfolding process_ok_def by (auto simp: p'(2))
qed

lemma process_reachable_ok: "process_reachable os dflt p \<Longrightarrow> process_ok p"
proof (induction rule: process_reachable.induct)
  case (reach_step p p')
  from reach_step.hyps(2) reach_step.IH show ?case
    by (cases rule: process_step.cases) (auto intro: process_ok_new process_ok_close process_ok_register)
qed (simp add: process_ok_def)

lemma loadFunctions_open:
  assumes "process_ok p"
  shows "loadFunctions p did = Some r \<longleftrightarrow>
     (\<exists>d \<in> set (databases p). is_open d \<and> db_id d = did \<and> fn_registry (od_state d) = r)"
proof -
  have find: "map_of (functionDatabases p) did = Some h \<longleftrightarrow>
      h < length (databases p) \<and> is_open (databases p ! h) \<and> db_id (databases p ! h) = did" for h
    using assms by (simp add: process_ok_def)
  have "loadFunctions p did = Some r \<longleftrightarrow>
      (\<exists>h. map_of (functionDatabases p) did = Some h \<and> fn_registry (od_state (databases p ! h)) = r)"
    by (auto simp: loadFunctions_def)
  also have "\<dots> \<longleftrightarrow> (\<exists>h < length (databases p). is_open (databases p ! h) \<and> db_id (databases p ! h) = did
      \<and> fn_registry (od_state (databases p ! h)) = r)"
    unfolding find by blast
  finally show ?thesis by (metis in_set_conv_nth)
qed

lemma loadFunctions_None:
  assumes "process_ok p"
  shows "loadFunctions p did = None \<longleftrightarrow> \<not> (\<exists>d \<in> set (databases p). is_open d \<and> db_id d = did)"
  using loadFunctions_open [OF assms, of did] by (metis not_Some_eq)

lemma Close_databases:
  assumes "h < length (databases p)" and "is_open (databases p ! h)"
  shows "databases (snd (Close os h p)) = (databases p)
     [h := (databases p ! h)\<lparr>od_state := od_state (databases p ! h)\<lparr>db_closed := True\<rparr>\<rparr>]"
    and "functionDatabases (snd (Close os h p)) = AList.delete (db_id (databases p ! h)) (functionDatabases p)"
  using assms(2) by (simp_all add: Close_def is_open_def db_id_def Let_def split_def)

section \<open>Properties\<close>


text \<open>
  C21: schemas never collide inside the engine: the names under which the schemas of a database
  are attached, the public schema's \<^verbatim>\<open>main\<close> included, are distinct even when case is ignored,
  and creating schemas keeps them so.
\<close>

theorem schemas_never_collide:
  assumes "schemas_ok db"
    and "\<And>st. schemas_ok (snd (DB_ExecContext (engine env) ctx st [] db))"
  shows "schemas_ok (snd (CreateSchema env ctx name db))
     \<and> distinct (map toLower (map engineSchemaName (SchemaNames (snd (CreateSchema env ctx name db)))))"
proof -
  have ok: "schemas_ok (snd (CreateSchema env ctx name db))"
  proof (cases "fst (CreateSchema env ctx name db)")
    case (Inl e)
    then show ?thesis
      using assms by (auto simp: CreateSchema_def Let_def split: prod.splits sum.splits if_splits)
        (metis snd_conv)+
  next
    case (Inr n)
    let ?db1 = "snd (DB_ExecContext (engine env) ctx (attachStatement (toLower name)) [] db)"
    have "snd (CreateSchema env ctx name db)
        = ?db1\<lparr>schemas := AList.update (toLower name) empty_interceptors (schemas ?db1)\<rparr>"
      and "schemaNamePattern name" "toLower name \<noteq> ''main''" "toLower name \<noteq> ''temp''"
      using Inr by (auto simp: CreateSchema_def Let_def split: prod.splits sum.splits if_splits)
    with schemas_ok_add [OF assms(2)] show ?thesis by simp
  qed
  have "mset (SchemaNames d) = mset (map fst (schemas d))" for d :: "('a, 'b, 'c) DB"
    by (simp add: SchemaNames_def sort_strings_def)
  then have "mset (map toLower (map engineSchemaName (SchemaNames d))) =
      mset (map toLower (map engineSchemaName (map fst (schemas d))))" for d :: "('a, 'b, 'c) DB"
    by (metis mset_map)
  with ok engineSchemaName_distinct [OF ok] show ?thesis
    by (metis mset_eq_imp_distinct_iff)
qed

theorem schemas_never_collide_witness:
  "map toLower (map engineSchemaName (SchemaNames (snd (CreateSchema example_env Background ''Audit'' example_open))))
     = [''audit'', ''main'']
   \<and> schemas_ok (snd (CreateSchema example_env Background ''Audit'' example_open))"
proof -
  have ok: "schemas_ok example_open" by code_simp
  moreover have "schemas (snd (DB_ExecContext (engine example_env) ctx st [] example_open)) = schemas example_open" for ctx st
    by (simp add: example_env_def example_engine_def example_exec_def)
  ultimately have keep: "schemas_ok (snd (DB_ExecContext (engine example_env) Background st [] example_open))" for st
    by (simp add: schemas_ok_def)
  have "map toLower (map engineSchemaName (SchemaNames (snd (CreateSchema example_env Background ''Audit'' example_open))))
     = [''audit'', ''main'']"
    by code_simp
  with schemas_never_collide [OF ok keep, of "''Audit''"] show ?thesis by simp
qed

text \<open>
  Opening a database is all or nothing: it adds one database, with an empty public
  schema, no functions and the translator of the options, and enters it into the
  dispatcher's map, or it fails and leaves the databases and the map as they were; no two
  databases share a connection name or an identifier unless the counter or the random bytes
  repeat.
\<close>

theorem new_database_isolated:
  "new_outcome options dflt (NewContext os dflt ctx options p) p
   \<and> (dataSourceName m = dataSourceName n \<longleftrightarrow> m = n)
   \<and> (hexEncode a = hexEncode b \<longleftrightarrow> a = b)"
  by (simp add: NewContext_outcome dataSourceName_inject hexEncode_inject)

text \<open>
  C7: in a process that opens and closes databases and registers functions in any order, the
  dispatcher finds under an identifier exactly the functions of the one open database with
  that identifier, as they are at that moment, and nothing under any other text.
\<close>

theorem dispatcher_finds_open_databases:
  assumes "process_reachable os dflt p"
  shows "loadFunctions p did = Some r \<longleftrightarrow>
     (\<exists>d \<in> set (databases p). is_open d \<and> db_id d = did \<and> fn_registry (od_state d) = r)"
  by (rule loadFunctions_open [OF process_reachable_ok [OF assms]])

definition example_platform :: "nat platform" where
  "example_platform =
     \<lparr>rand_Read = (\<lambda>w. (Inr [char_of w], Suc w)),
      sql_Open = (\<lambda>d n w. (Inr w, w)),
      pool_Exec = (\<lambda>pool ctx st w. (None, w)),
      pool_Close = (\<lambda>pool w. (None, w))\<rparr>"

definition example_empty :: "(nat, nat, nat, nat) process" where
  "example_empty = \<lparr>databaseSequence = 0, functionDatabases = [], databases = [], world = 5\<rparr>"

definition example_process :: "(nat, nat, nat, nat) process" where
  "example_process = snd (NewContext example_platform 0 Background [] example_empty)"

lemma example_process_reachable: "process_reachable example_platform 0 example_process"
proof -
  have "process_reachable example_platform 0 example_empty"
    unfolding example_empty_def by (rule reach_init)
  moreover have "process_step example_platform 0 example_empty example_process"
  proof (rule step_new)
    show "NewContext example_platform 0 Background [] example_empty = (Inr 0, example_process)"
      by (simp add: example_process_def NewContext_def example_platform_def example_empty_def
          newDispatchID_def Let_def)
    show "fresh_id (Inr 0) example_empty example_process"
      by (simp add: fresh_id_def example_empty_def)
  qed
  ultimately show ?thesis by (rule reach_step)
qed

theorem dispatcher_finds_open_databases_witness:
  "loadFunctions example_process ''05'' = Some [] \<and> \<not> loadFunctions example_process ''06'' = Some []"
proof -
  have "\<exists>d \<in> set (databases example_process). is_open d \<and> db_id d = ''05'' \<and> fn_registry (od_state d) = []"
    and "\<not> (\<exists>d \<in> set (databases example_process). is_open d \<and> db_id d = ''06'' \<and> fn_registry (od_state d) = [])"
    by code_simp+
  then show ?thesis
    using dispatcher_finds_open_databases [OF example_process_reachable] by simp
qed

text \<open>
  C32: closing is final and affects one database: afterwards the dispatcher does not find the
  database, a dispatched call fails with an error instead of running a function, no function
  can be registered, closing again does nothing and reports nothing, and every other
  identifier finds what it found before.
\<close>

theorem close_final:
  assumes "process_reachable os dflt p" and "h < length (databases p)"
  defines "p' \<equiv> snd (Close os h p)" and "did \<equiv> db_id (databases p ! h)"
  shows "loadFunctions p' did = None
     \<and> isl (fst (dispatchScalarFunction call (loadFunctions p') (VString did # VString s # VString f # args) w))
     \<and> (case Schema_RegisterFunction (Some s) fn (od_state (databases p' ! h)) of (e, st) \<Rightarrow> e \<noteq> None)
     \<and> Close os h p' = (None, p')
     \<and> (\<forall>d. d = did \<or> loadFunctions p' d = loadFunctions p d)"
proof -
  have ok: "process_ok p" by (rule process_reachable_ok [OF assms(1)])
  have ok': "process_ok p'"
    using process_ok_close [OF ok assms(2)] unfolding p'_def by (metis prod.collapse)
  have closed: "\<not> is_open (databases p' ! h)" and len: "length (databases p') = length (databases p)"
    and did: "db_id (databases p' ! h) = did"
    using assms(2) Close_databases(1) [of h p os]
    by (cases "is_open (databases p ! h)";
        simp add: p'_def did_def is_open_def db_id_def; simp add: Close_def Let_def)+
  have "map_of (functionDatabases p') did \<noteq> Some k" for k
  proof
    assume "map_of (functionDatabases p') did = Some k"
    then have "k < length (databases p')" "is_open (databases p' ! k)" "db_id (databases p' ! k) = db_id (databases p' ! h)"
      using ok' did by (auto simp: process_ok_def)
    then have "k = h"
      using ok' assms(2) len nth_eq_iff_index_eq [of "map db_id (databases p')" k h] by (simp add: process_ok_def)
    with closed \<open>is_open (databases p' ! k)\<close> show False by simp
  qed
  then have gone: "loadFunctions p' did = None"
    unfolding loadFunctions_def by (metis not_None_eq option.map_disc_iff)
  moreover have "Close os h p' = (None, p')"
    using closed by (simp add: Close_def is_open_def Let_def)
  moreover have "loadFunctions p' d = loadFunctions p d" if "d \<noteq> did" for d
  proof (cases "is_open (databases p ! h)")
    case True
    have "map_of (functionDatabases p) d \<noteq> Some h"
      using ok that by (auto simp: process_ok_def did_def)
    then have "fn_registry (od_state (databases p' ! k)) = fn_registry (od_state (databases p ! k))"
      if "map_of (functionDatabases p) d = Some k" for k
      using that Close_databases(1) [OF assms(2) True, of os] by (auto simp: p'_def nth_list_update)
    then show ?thesis
      using that Close_databases(2) [OF assms(2) True, of os]
      by (auto simp: loadFunctions_def p'_def did_def delete_conv' intro: option.map_cong0
          split: option.split)
  qed (simp add: p'_def Close_def is_open_def Let_def)
  ultimately show ?thesis
    using closed gone
    by (auto simp: dispatchScalarFunction_def Schema_RegisterFunction_def RegisterFunction_def is_open_def
        bind_sum_def validFunction_def split: sum.split option.split)
qed

theorem close_final_witness:
  "let p' = snd (Close example_platform 0 example_process) in
     loadFunctions example_process ''05'' = Some [] \<and> loadFunctions p' ''05'' = None
     \<and> Close example_platform 0 p' = (None, p')"
proof -
  have "0 < length (databases example_process)" "db_id (databases example_process ! 0) = ''05''"
    "loadFunctions example_process ''05'' = Some []"
    by code_simp+
  then show ?thesis
    using close_final [OF example_process_reachable, where h = 0 and call = example_fn_call and s = "[]"
        and f = "[]" and args = "[]" and w = 0 and fn = example_fn] by (simp add: Let_def)
qed

end
