(* ===== verification/Driver.thy ===== *)
theory Driver imports Database
begin

text \<open>
  Models \<^verbatim>\<open>driver.go\<close>, the \<^verbatim>\<open>database/sql\<close> adapter: connectors, adapter connections with
  at most one transaction, which pins the engine's connection, prepared statements and
  rows.  Adapter connections and transactions are objects that refer to each other; they
  live in two lists and a pointer is an index into one of them.  Each operation holds the
  mutex of its connection for its whole duration, so it is one step on the connection.
\<close>

section \<open>State and environment\<close>

record tx_options =
  Isolation :: int
  ReadOnly :: bool

record sqlConnector =
  cr_database :: bool
  cr_schema :: "string option"

text \<open>
  The fields of \<^verbatim>\<open>sqlConnection\<close>; \<open>cn_database\<close> says whether the database pointer is set.
\<close>

record sqlConnection =
  cn_database :: bool
  cn_schema :: "string option"
  cn_transaction :: "nat option"
  cn_closed :: bool

text \<open>
  The fields of \<^verbatim>\<open>sqlTransaction\<close>: its owner, and what the engine knows the pinned
  connection and the transaction by.
\<close>

record sqlTransaction =
  owner :: nat
  tx_connection :: nat
  tx_transaction :: nat
  finished :: bool

record ('f, 'i, 'o) adapter =
  connections :: "sqlConnection list"
  transactions :: "sqlTransaction list"
  database :: "('f, 'i, 'o) DB"

text \<open>The methods of \<^verbatim>\<open>sql.DB\<close>, \<^verbatim>\<open>sql.Conn\<close>, \<^verbatim>\<open>sql.Tx\<close> and \<^verbatim>\<open>sql.Stmt\<close> only the adapter calls.\<close>

record 'w pool_engine =
  Pool_Conn :: "'w ctx \<Rightarrow> 'w \<Rightarrow> (go_error + nat) \<times> 'w"
  Pool_PingContext :: "'w ctx \<Rightarrow> 'w \<Rightarrow> go_error option \<times> 'w"
  Pool_PrepareContext :: "'w ctx \<Rightarrow> string \<Rightarrow> 'w \<Rightarrow> (go_error + nat) \<times> 'w"
  Conn_BeginTx :: "nat \<Rightarrow> 'w ctx \<Rightarrow> tx_options \<Rightarrow> 'w \<Rightarrow> (go_error + nat) \<times> 'w"
  Conn_PingContext :: "nat \<Rightarrow> 'w ctx \<Rightarrow> 'w \<Rightarrow> go_error option \<times> 'w"
  Conn_Close :: "nat \<Rightarrow> 'w \<Rightarrow> go_error option \<times> 'w"
  Tx_PrepareContext :: "nat \<Rightarrow> 'w ctx \<Rightarrow> string \<Rightarrow> 'w \<Rightarrow> (go_error + nat) \<times> 'w"
  Stmt_ExecContext :: "nat \<Rightarrow> 'w ctx \<Rightarrow> govalue list \<Rightarrow> 'w \<Rightarrow> (go_error + exec_result) \<times> 'w"
  Stmt_QueryContext :: "nat \<Rightarrow> 'w ctx \<Rightarrow> govalue list \<Rightarrow> 'w \<Rightarrow> (go_error + rowset) \<times> 'w"
  Stmt_Close :: "nat \<Rightarrow> 'w \<Rightarrow> go_error option \<times> 'w"

type_synonym ('f, 'i, 'o) adapter_env = "('i, ('f, 'i, 'o) DB) env \<times> ('f, 'i, 'o) DB pool_engine"

abbreviation conn_of :: "('f, 'i, 'o) adapter \<Rightarrow> nat \<Rightarrow> sqlConnection" where
  "conn_of a c \<equiv> connections a ! c"

abbreviation tx_of :: "('f, 'i, 'o) adapter \<Rightarrow> nat \<Rightarrow> sqlTransaction" where
  "tx_of a t \<equiv> transactions a ! t"

definition set_conn :: "nat \<Rightarrow> sqlConnection \<Rightarrow> ('f, 'i, 'o) adapter \<Rightarrow> ('f, 'i, 'o) adapter" where
  "set_conn c conn a = a\<lparr>connections := (connections a)[c := conn]\<rparr>"

definition set_tx :: "nat \<Rightarrow> sqlTransaction \<Rightarrow> ('f, 'i, 'o) adapter \<Rightarrow> ('f, 'i, 'o) adapter" where
  "set_tx t tx a = a\<lparr>transactions := (transactions a)[t := tx]\<rparr>"

text \<open>An operation of the engine, inside the adapter.\<close>

definition on_engine :: "(('f, 'i, 'o) DB \<Rightarrow> 'r \<times> ('f, 'i, 'o) DB) \<Rightarrow> ('f, 'i, 'o) adapter \<Rightarrow> 'r \<times> ('f, 'i, 'o) adapter" where
  "on_engine f a = (case f (database a) of (r, db) \<Rightarrow> (r, a\<lparr>database := db\<rparr>))"

section \<open>Connectors\<close>

text \<open>A schema always has its database; on a nil schema the code dereferences nil, here \<^term>\<open>None\<close>.\<close>

definition Connector :: "string option \<Rightarrow> sqlConnector option" where
  "Connector s = (case s of None \<Rightarrow> None | Some name \<Rightarrow> Some \<lparr>cr_database = True, cr_schema = Some name\<rparr>)"

definition DB_Connector :: "('f, 'i, 'o) DB \<Rightarrow> sqlConnector option" where
  "DB_Connector db = Connector (Public db)"

text \<open>A \<^verbatim>\<open>database/sql\<close> pool over the adapter: its connector and its limits.\<close>

record sql_pool =
  pool_connector :: sqlConnector
  MaxOpenConns :: nat
  MaxIdleConns :: nat

definition Schema_Open :: "string option \<Rightarrow> sql_pool option" where
  "Schema_Open s =
     (case Connector s of None \<Rightarrow> None
      | Some cr \<Rightarrow> Some \<lparr>pool_connector = cr, MaxOpenConns = 1, MaxIdleConns = 1\<rparr>)"

definition DB_Open :: "('f, 'i, 'o) DB \<Rightarrow> sql_pool option" where
  "DB_Open db = Schema_Open (Public db)"

definition Connect ::
  "sqlConnector \<Rightarrow> ('f, 'i, 'o) DB ctx \<Rightarrow> ('f, 'i, 'o) adapter \<Rightarrow> (go_error + nat) \<times> ('f, 'i, 'o) adapter" where
  "Connect cr ctx a =
     (case ctx (database a) of
        Some e \<Rightarrow> (Inl e, a)
      | None \<Rightarrow>
          if \<not> cr_database cr \<or> cr_schema cr = None \<or> isClosed (database a) then (Inl (Sentinel ErrClosed), a)
          else (Inr (length (connections a)),
            a\<lparr>connections := connections a @
              [\<lparr>cn_database = cr_database cr, cn_schema = cr_schema cr, cn_transaction = None, cn_closed = False\<rparr>]\<rparr>))"

text \<open>\<^verbatim>\<open>sqlDriver.Open\<close> ignores the name and connects without a context.\<close>

definition driver_Open ::
  "sqlConnector \<Rightarrow> string \<Rightarrow> ('f, 'i, 'o) adapter \<Rightarrow> (go_error + nat) \<times> ('f, 'i, 'o) adapter" where
  "driver_Open cr name a = Connect cr Background a"

section \<open>Validity\<close>

definition validLocked :: "('f, 'i, 'o) adapter \<Rightarrow> nat \<Rightarrow> ('f, 'i, 'o) DB ctx \<Rightarrow> go_error option" where
  "validLocked a c ctx =
     (case ctx (database a) of
        Some e \<Rightarrow> Some e
      | None \<Rightarrow>
          if cn_closed (conn_of a c) \<or> \<not> cn_database (conn_of a c) \<or> cn_schema (conn_of a c) = None
            \<or> isClosed (database a)
          then Some (Sentinel ErrClosed) else None)"

definition translateLocked ::
  "('f, 'i, 'o) adapter_env \<Rightarrow> nat \<Rightarrow> ('f, 'i, 'o) DB ctx \<Rightarrow> string
     \<Rightarrow> ('f, 'i, 'o) adapter \<Rightarrow> (go_error + string) \<times> ('f, 'i, 'o) adapter" where
  "translateLocked env c ctx statement a =
     (case validLocked a c ctx of
        Some e \<Rightarrow> (Inl e, a)
      | None \<Rightarrow> on_engine (translate (fst env) (cn_schema (conn_of a c)) ctx statement) a)"

definition ResetSession :: "('f, 'i, 'o) adapter \<Rightarrow> nat \<Rightarrow> ('f, 'i, 'o) DB ctx \<Rightarrow> go_error option" where
  "ResetSession a c ctx =
     (case ctx (database a) of
        Some e \<Rightarrow> Some e
      | None \<Rightarrow>
          if cn_closed (conn_of a c) \<or> \<not> cn_database (conn_of a c) \<or> cn_schema (conn_of a c) = None
            \<or> isClosed (database a)
          then Some (Std DriverErrBadConn)
          else if cn_transaction (conn_of a c) \<noteq> None then Some (Std DriverErrBadConn) else None)"

definition IsValid :: "('f, 'i, 'o) adapter \<Rightarrow> nat \<Rightarrow> bool" where
  "IsValid a c \<longleftrightarrow> \<not> cn_closed (conn_of a c) \<and> cn_transaction (conn_of a c) = None
     \<and> cn_database (conn_of a c) \<and> \<not> isClosed (database a)"

section \<open>Transactions\<close>

definition BeginTx ::
  "('f, 'i, 'o) adapter_env \<Rightarrow> nat \<Rightarrow> ('f, 'i, 'o) DB ctx \<Rightarrow> tx_options
     \<Rightarrow> ('f, 'i, 'o) adapter \<Rightarrow> (go_error + nat) \<times> ('f, 'i, 'o) adapter" where
  "BeginTx env c ctx options a =
     (case validLocked a c ctx of
        Some e \<Rightarrow> (Inl e, a)
      | None \<Rightarrow>
          if cn_transaction (conn_of a c) \<noteq> None
          then (Inl (ErrorText ''pgmem: transaction already active''), a)
          else (case on_engine (Pool_Conn (snd env) ctx) a of
              (Inl e, a1) \<Rightarrow> (Inl (executionError '''' e), a1)
            | (Inr connection, a1) \<Rightarrow>
                (case on_engine (Conn_BeginTx (snd env) connection ctx options) a1 of
                   (Inl e, a2) \<Rightarrow>
                     (Inl (executionError '''' e), snd (on_engine (Conn_Close (snd env) connection) a2))
                 | (Inr transaction, a2) \<Rightarrow>
                     (let active = length (transactions a2) in
                      (Inr active,
                       set_conn c ((conn_of a2 c)\<lparr>cn_transaction := Some active\<rparr>)
                         (a2\<lparr>transactions := transactions a2 @
                           [\<lparr>owner = c, tx_connection = connection, tx_transaction = transaction,
                              finished = False\<rparr>]\<rparr>))))))"

text \<open>What a finishing operation reports, after both engine operations have been made.\<close>

definition finishError :: "go_error option \<Rightarrow> go_error option \<Rightarrow> go_error option" where
  "finishError operationErr closeErr =
     (case operationErr of
        Some e \<Rightarrow> Some (executionError '''' e)
      | None \<Rightarrow> (case closeErr of Some e \<Rightarrow> Some (executionError '''' e) | None \<Rightarrow> None))"

definition finish ::
  "('f, 'i, 'o) adapter_env \<Rightarrow> nat \<Rightarrow> bool \<Rightarrow> ('f, 'i, 'o) adapter \<Rightarrow> go_error option \<times> ('f, 'i, 'o) adapter" where
  "finish env t commit a =
     (let tx = tx_of a t; c = owner tx in
      if finished tx \<or> cn_transaction (conn_of a c) \<noteq> Some t then (Some (Std SqlErrTxDone), a)
      else (let a1 = set_conn c ((conn_of a c)\<lparr>cn_transaction := None\<rparr>) (set_tx t (tx\<lparr>finished := True\<rparr>) a);
               (operationErr, a2) = on_engine
                 (if commit then Tx_Commit (engine (fst env)) (tx_transaction tx)
                  else Tx_Rollback (engine (fst env)) (tx_transaction tx)) a1;
               (closeErr, a3) = on_engine (Conn_Close (snd env) (tx_connection tx)) a2
            in (finishError operationErr closeErr, a3)))"

definition Tx_finish_Commit ::
  "('f, 'i, 'o) adapter_env \<Rightarrow> nat \<Rightarrow> ('f, 'i, 'o) adapter \<Rightarrow> go_error option \<times> ('f, 'i, 'o) adapter" where
  "Tx_finish_Commit env t = finish env t True"

definition Tx_finish_Rollback ::
  "('f, 'i, 'o) adapter_env \<Rightarrow> nat \<Rightarrow> ('f, 'i, 'o) adapter \<Rightarrow> go_error option \<times> ('f, 'i, 'o) adapter" where
  "Tx_finish_Rollback env t = finish env t False"

text \<open>Closing a connection rolls its transaction back; that it is done already is no error.\<close>

definition CloseConnection ::
  "('f, 'i, 'o) adapter_env \<Rightarrow> nat \<Rightarrow> ('f, 'i, 'o) adapter \<Rightarrow> go_error option \<times> ('f, 'i, 'o) adapter" where
  "CloseConnection env c a =
     (if cn_closed (conn_of a c) then (None, a)
      else (let a1 = set_conn c ((conn_of a c)\<lparr>cn_closed := True\<rparr>) a in
        case cn_transaction (conn_of a1 c) of
          None \<Rightarrow> (None, a1)
        | Some t \<Rightarrow>
            (let tx = tx_of a1 t;
                 a2 = set_tx t (tx\<lparr>finished := True\<rparr>)
                   (set_conn c ((conn_of a1 c)\<lparr>cn_transaction := None\<rparr>) a1);
                 (rollbackErr, a3) = on_engine (Tx_Rollback (engine (fst env)) (tx_transaction tx)) a2;
                 (closeErr, a4) = on_engine (Conn_Close (snd env) (tx_connection tx)) a3
             in (finishError
                   (case rollbackErr of None \<Rightarrow> None
                    | Some e \<Rightarrow> if errors_is e (Std SqlErrTxDone) then None else Some e)
                   closeErr, a4))))"

section \<open>Statements\<close>

record named_value =
  nv_Name :: string
  nv_Value :: govalue

definition namedValueArguments :: "named_value list \<Rightarrow> govalue list" where
  "namedValueArguments arguments =
     map (\<lambda>argument. if nv_Name argument \<noteq> '''' then VNamed (nv_Name argument) (nv_Value argument)
       else nv_Value argument) arguments"

record sqlRows =
  rw_statement :: string
  rw_rows :: rowset
  rw_columns :: "string list"

definition newSQLRows :: "string \<Rightarrow> rowset \<Rightarrow> go_error + sqlRows" where
  "newSQLRows statement rows =
     (case rs_columns rows of
        Inl e \<Rightarrow> Inl (executionError statement e)
      | Inr columns \<Rightarrow> Inr \<lparr>rw_statement = statement, rw_rows = rows, rw_columns = columns\<rparr>)"

text \<open>The statement runs in the transaction of the connection, if there is one.\<close>

definition connExec ::
  "('f, 'i, 'o) adapter_env \<Rightarrow> nat \<Rightarrow> ('f, 'i, 'o) adapter \<Rightarrow> ('f, 'i, 'o) DB executor" where
  "connExec env c a =
     (case cn_transaction (conn_of a c) of
        Some t \<Rightarrow> Tx_ExecContext (engine (fst env)) (tx_transaction (tx_of a t))
      | None \<Rightarrow> DB_ExecContext (engine (fst env)))"

definition connQuery ::
  "('f, 'i, 'o) adapter_env \<Rightarrow> nat \<Rightarrow> ('f, 'i, 'o) adapter \<Rightarrow> ('f, 'i, 'o) DB querier" where
  "connQuery env c a =
     (case cn_transaction (conn_of a c) of
        Some t \<Rightarrow> Tx_QueryContext (engine (fst env)) (tx_transaction (tx_of a t))
      | None \<Rightarrow> DB_QueryContext (engine (fst env)))"

definition driver_ExecContext ::
  "('f, 'i, 'o) adapter_env \<Rightarrow> nat \<Rightarrow> ('f, 'i, 'o) DB ctx \<Rightarrow> string \<Rightarrow> named_value list
     \<Rightarrow> ('f, 'i, 'o) adapter \<Rightarrow> (go_error + exec_result) \<times> ('f, 'i, 'o) adapter" where
  "driver_ExecContext env c ctx statement arguments a =
     (case translateLocked env c ctx statement a of
        (Inl e, a1) \<Rightarrow> (Inl e, a1)
      | (Inr t, a1) \<Rightarrow>
          (case on_engine (connExec env c a1 ctx t (namedValueArguments arguments)) a1 of
             (Inl e, a2) \<Rightarrow> (Inl (executionError statement e), a2)
           | (Inr r, a2) \<Rightarrow> (Inr r, a2)))"

definition driver_QueryContext ::
  "('f, 'i, 'o) adapter_env \<Rightarrow> nat \<Rightarrow> ('f, 'i, 'o) DB ctx \<Rightarrow> string \<Rightarrow> named_value list
     \<Rightarrow> ('f, 'i, 'o) adapter \<Rightarrow> (go_error + sqlRows) \<times> ('f, 'i, 'o) adapter" where
  "driver_QueryContext env c ctx statement arguments a =
     (case translateLocked env c ctx statement a of
        (Inl e, a1) \<Rightarrow> (Inl e, a1)
      | (Inr t, a1) \<Rightarrow>
          (case on_engine (connQuery env c a1 ctx t (namedValueArguments arguments)) a1 of
             (Inl e, a2) \<Rightarrow> (Inl (executionError statement e), a2)
           | (Inr rows, a2) \<Rightarrow> (newSQLRows statement rows, a2)))"

definition Ping ::
  "('f, 'i, 'o) adapter_env \<Rightarrow> nat \<Rightarrow> ('f, 'i, 'o) DB ctx \<Rightarrow> ('f, 'i, 'o) adapter \<Rightarrow> go_error option \<times> ('f, 'i, 'o) adapter" where
  "Ping env c ctx a =
     (case validLocked a c ctx of
        Some e \<Rightarrow> (Some e, a)
      | None \<Rightarrow>
          (case on_engine
              (case cn_transaction (conn_of a c) of
                 Some t \<Rightarrow> Conn_PingContext (snd env) (tx_connection (tx_of a t)) ctx
               | None \<Rightarrow> Pool_PingContext (snd env) ctx) a of
             (Some e, a1) \<Rightarrow> (Some (executionError '''' e), a1)
           | (None, a1) \<Rightarrow> (None, a1)))"

record sqlStatement =
  st_statement :: string
  st_prepared :: nat

definition PrepareContext ::
  "('f, 'i, 'o) adapter_env \<Rightarrow> nat \<Rightarrow> ('f, 'i, 'o) DB ctx \<Rightarrow> string
     \<Rightarrow> ('f, 'i, 'o) adapter \<Rightarrow> (go_error + sqlStatement) \<times> ('f, 'i, 'o) adapter" where
  "PrepareContext env c ctx statement a =
     (case translateLocked env c ctx statement a of
        (Inl e, a1) \<Rightarrow> (Inl e, a1)
      | (Inr text, a1) \<Rightarrow>
          (case on_engine
              (case cn_transaction (conn_of a1 c) of
                 Some t \<Rightarrow> Tx_PrepareContext (snd env) (tx_transaction (tx_of a1 t)) ctx text
               | None \<Rightarrow> Pool_PrepareContext (snd env) ctx text) a1 of
             (Inl e, a2) \<Rightarrow> (Inl (executionError statement e), a2)
           | (Inr prepared, a2) \<Rightarrow> (Inr \<lparr>st_statement = statement, st_prepared = prepared\<rparr>, a2)))"

definition stmt_execContext ::
  "('f, 'i, 'o) adapter_env \<Rightarrow> sqlStatement \<Rightarrow> ('f, 'i, 'o) DB ctx \<Rightarrow> govalue list
     \<Rightarrow> ('f, 'i, 'o) adapter \<Rightarrow> (go_error + exec_result) \<times> ('f, 'i, 'o) adapter" where
  "stmt_execContext env s ctx arguments a =
     (case on_engine (Stmt_ExecContext (snd env) (st_prepared s) ctx arguments) a of
        (Inl e, a1) \<Rightarrow> (Inl (executionError (st_statement s) e), a1)
      | (Inr r, a1) \<Rightarrow> (Inr r, a1))"

definition stmt_queryContext ::
  "('f, 'i, 'o) adapter_env \<Rightarrow> sqlStatement \<Rightarrow> ('f, 'i, 'o) DB ctx \<Rightarrow> govalue list
     \<Rightarrow> ('f, 'i, 'o) adapter \<Rightarrow> (go_error + sqlRows) \<times> ('f, 'i, 'o) adapter" where
  "stmt_queryContext env s ctx arguments a =
     (case on_engine (Stmt_QueryContext (snd env) (st_prepared s) ctx arguments) a of
        (Inl e, a1) \<Rightarrow> (Inl (executionError (st_statement s) e), a1)
      | (Inr rows, a1) \<Rightarrow> (newSQLRows (st_statement s) rows, a1))"

definition stmt_ExecContext ::
  "('f, 'i, 'o) adapter_env \<Rightarrow> sqlStatement \<Rightarrow> ('f, 'i, 'o) DB ctx \<Rightarrow> named_value list
     \<Rightarrow> ('f, 'i, 'o) adapter \<Rightarrow> (go_error + exec_result) \<times> ('f, 'i, 'o) adapter" where
  "stmt_ExecContext env s ctx arguments = stmt_execContext env s ctx (namedValueArguments arguments)"

definition stmt_QueryContext ::
  "('f, 'i, 'o) adapter_env \<Rightarrow> sqlStatement \<Rightarrow> ('f, 'i, 'o) DB ctx \<Rightarrow> named_value list
     \<Rightarrow> ('f, 'i, 'o) adapter \<Rightarrow> (go_error + sqlRows) \<times> ('f, 'i, 'o) adapter" where
  "stmt_QueryContext env s ctx arguments = stmt_queryContext env s ctx (namedValueArguments arguments)"

definition stmt_Close ::
  "('f, 'i, 'o) adapter_env \<Rightarrow> sqlStatement \<Rightarrow> ('f, 'i, 'o) adapter \<Rightarrow> go_error option \<times> ('f, 'i, 'o) adapter" where
  "stmt_Close env s = on_engine (Stmt_Close (snd env) (st_prepared s))"

section \<open>Rows\<close>

text \<open>
  \<^verbatim>\<open>Next\<close> fills a destination with a slot per column: the error (\<^verbatim>\<open>io.EOF\<close> at the end), or the
  values and the rows left.
\<close>

definition rows_Next :: "sqlRows \<Rightarrow> go_error + govalue list \<times> sqlRows" where
  "rows_Next r =
     (case rs_scans (rw_rows r) of
        [] \<Rightarrow> (case rs_err (rw_rows r) of
            Some e \<Rightarrow> Inl (executionError (rw_statement r) e)
          | None \<Rightarrow> Inl (Std IoEOF))
      | Inl e # rest \<Rightarrow> Inl (executionError (rw_statement r) e)
      | Inr destination # rest \<Rightarrow>
          Inr (map cloneDriverValue destination, r\<lparr>rw_rows := (rw_rows r)\<lparr>rs_scans := rest\<rparr>\<rparr>))"

definition rows_Columns :: "sqlRows \<Rightarrow> string list" where
  "rows_Columns r = rw_columns r"

text \<open>\<open>closeErr\<close> is the answer of \<^verbatim>\<open>sql.Rows.Close\<close>.\<close>

definition rows_Close :: "go_error option \<Rightarrow> sqlRows \<Rightarrow> go_error option" where
  "rows_Close closeErr r =
     (case closeErr of Some e \<Rightarrow> Some (executionError (rw_statement r) e) | None \<Rightarrow> None)"

section \<open>Entry points without a context\<close>

definition Begin ::
  "('f, 'i, 'o) adapter_env \<Rightarrow> nat \<Rightarrow> ('f, 'i, 'o) adapter \<Rightarrow> (go_error + nat) \<times> ('f, 'i, 'o) adapter" where
  "Begin env c = BeginTx env c Background \<lparr>Isolation = 0, ReadOnly = False\<rparr>"

definition Prepare ::
  "('f, 'i, 'o) adapter_env \<Rightarrow> nat \<Rightarrow> string
     \<Rightarrow> ('f, 'i, 'o) adapter \<Rightarrow> (go_error + sqlStatement) \<times> ('f, 'i, 'o) adapter" where
  "Prepare env c statement = PrepareContext env c Background statement"

definition stmt_Exec ::
  "('f, 'i, 'o) adapter_env \<Rightarrow> sqlStatement \<Rightarrow> govalue list
     \<Rightarrow> ('f, 'i, 'o) adapter \<Rightarrow> (go_error + exec_result) \<times> ('f, 'i, 'o) adapter" where
  "stmt_Exec env s arguments = stmt_execContext env s Background arguments"

definition stmt_Query ::
  "('f, 'i, 'o) adapter_env \<Rightarrow> sqlStatement \<Rightarrow> govalue list
     \<Rightarrow> ('f, 'i, 'o) adapter \<Rightarrow> (go_error + sqlRows) \<times> ('f, 'i, 'o) adapter" where
  "stmt_Query env s arguments = stmt_queryContext env s Background arguments"

text \<open>The number of parameters is not known before the statement runs.\<close>

definition NumInput :: "sqlStatement \<Rightarrow> int" where
  "NumInput s = -1"


end
