(* ===== verification/Fallible.thy ===== *)
theory Fallible imports Errors
begin

text \<open>
  Steps that change a state and may fail: the sequence of calls with an early return on
  each error in which most of \<^verbatim>\<open>backup.go\<close> is written, with deferred clean-ups, and what
  such a sequence leaves as it was.
\<close>

named_theorems keep_rules \<open>what keeps an observation of the state\<close>

section \<open>Sequences of fallible steps\<close>

type_synonym ('w, 'a) fallible = "'w \<Rightarrow> (go_error + 'a) \<times> 'w"

definition yields :: "'a \<Rightarrow> ('w, 'a) fallible" where
  "yields x w = (Inr x, w)"

definition fails :: "go_error \<Rightarrow> ('w, 'a) fallible" where
  "fails e w = (Inl e, w)"

text \<open>\<^verbatim>\<open>x, err := f(); if err != nil { return err }; k(x)\<close>\<close>

definition andThen :: "('w, 'a) fallible \<Rightarrow> ('a \<Rightarrow> ('w, 'b) fallible) \<Rightarrow> ('w, 'b) fallible" where
  "andThen f k w = (case f w of (Inl e, w') \<Rightarrow> (Inl e, w') | (Inr x, w') \<Rightarrow> k x w')"

text \<open>\<^verbatim>\<open>if err != nil { return fmt.Errorf(prefix + "%w", err) }\<close>\<close>

definition wrapping :: "string \<Rightarrow> ('w, 'a) fallible \<Rightarrow> ('w, 'a) fallible" where
  "wrapping prefix f w = (case f w of (Inl e, w') \<Rightarrow> (Inl (Wrapf prefix e ''''), w') | (Inr x, w') \<Rightarrow> (Inr x, w'))"

text \<open>A step that only returns an error, and one whose error is ignored.\<close>

definition must :: "('w \<Rightarrow> go_error option \<times> 'w) \<Rightarrow> ('w, unit) fallible" where
  "must f w = (case f w of (None, w') \<Rightarrow> (Inr (), w') | (Some e, w') \<Rightarrow> (Inl e, w'))"

text \<open>\<^verbatim>\<open>defer g()\<close>: whatever \<open>f\<close> returns, \<open>g\<close> runs last and its result is ignored.\<close>

definition deferred :: "('w \<Rightarrow> 'r \<times> 'w) \<Rightarrow> ('w, 'a) fallible \<Rightarrow> ('w, 'a) fallible" where
  "deferred g f w = (case f w of (r, w') \<Rightarrow> (r, snd (g w')))"

text \<open>The clean-up before an early return: \<^verbatim>\<open>if err != nil { _ = g(); return err }\<close>.\<close>

definition onError :: "('w \<Rightarrow> 'r \<times> 'w) \<Rightarrow> ('w, 'a) fallible \<Rightarrow> ('w, 'a) fallible" where
  "onError g f w = (case f w of (Inl e, w') \<Rightarrow> (Inl e, snd (g w')) | (Inr x, w') \<Rightarrow> (Inr x, w'))"

section \<open>Results\<close>

lemma andThen_Inr_iff:
  "andThen f k w = (Inr y, w'') \<longleftrightarrow> (\<exists>x w'. f w = (Inr x, w') \<and> k x w' = (Inr y, w''))"
  by (auto simp: andThen_def split: prod.split sum.split)

lemma andThen_Inl_iff:
  "andThen f k w = (Inl e, w'') \<longleftrightarrow>
     f w = (Inl e, w'') \<or> (\<exists>x w'. f w = (Inr x, w') \<and> k x w' = (Inl e, w''))"
  by (auto simp: andThen_def split: prod.split sum.split)

lemma wrapping_Inr_iff: "wrapping prefix f w = (Inr x, w') \<longleftrightarrow> f w = (Inr x, w')"
  by (auto simp: wrapping_def split: prod.split sum.split)

lemma wrapping_Inl_iff: "wrapping prefix f w = (Inl e, w') \<longleftrightarrow> (\<exists>c. f w = (Inl c, w') \<and> e = Wrapf prefix c '''')"
  by (auto simp: wrapping_def split: prod.split sum.split)

lemma must_iff:
  "must f w = (Inr u, w') \<longleftrightarrow> f w = (None, w')"
  "must f w = (Inl e, w') \<longleftrightarrow> f w = (Some e, w')"
  by (auto simp: must_def split: prod.split option.split)

lemma deferred_iff: "deferred g f w = (r, w'') \<longleftrightarrow> (\<exists>w'. f w = (r, w') \<and> w'' = snd (g w'))"
  by (auto simp: deferred_def split: prod.split)

lemma deferred_state: "deferred g f w = (fst (f w), snd (g (snd (f w))))"
  by (simp add: deferred_def split: prod.split)

lemma onError_iff:
  "onError g f w = (Inr x, w') \<longleftrightarrow> f w = (Inr x, w')"
  "onError g f w = (Inl e, w'') \<longleftrightarrow> (\<exists>w'. f w = (Inl e, w') \<and> w'' = snd (g w'))"
  by (auto simp: onError_def split: prod.split sum.split)

lemma yields_iff [simp]: "yields x w = (r, w') \<longleftrightarrow> r = Inr x \<and> w' = w"
  by (auto simp: yields_def)

lemma fails_iff [simp]: "fails e w = (r, w') \<longleftrightarrow> r = Inl e \<and> w' = w"
  by (auto simp: fails_def)

lemmas run_iffs = andThen_Inr_iff andThen_Inl_iff wrapping_Inr_iff wrapping_Inl_iff must_iff
  deferred_iff onError_iff

section \<open>What a sequence leaves as it was\<close>

definition keeps :: "('w \<Rightarrow> 'h) \<Rightarrow> ('w \<Rightarrow> 'r \<times> 'w) \<Rightarrow> bool" where
  "keeps held f \<longleftrightarrow> (\<forall>w. held (snd (f w)) = held w)"

lemma keepsD: "keeps obs f \<Longrightarrow> f w = (r, w') \<Longrightarrow> obs w' = obs w"
  unfolding keeps_def by (metis snd_conv)

lemma keeps_snd: "keeps obs f \<Longrightarrow> obs (snd (f w)) = obs w"
  by (simp add: keeps_def)

lemma keeps_yields [keep_rules]: "keeps obs (yields x)"
  by (simp add: keeps_def yields_def)

lemma keeps_fails [keep_rules]: "keeps obs (fails e)"
  by (simp add: keeps_def fails_def)

lemma keeps_andThen [keep_rules]:
  assumes "keeps obs f" and "\<And>x. keeps obs (k x)"
  shows "keeps obs (andThen f k)"
proof -
  have "obs (snd (andThen f k w)) = obs w" for w
    using keepsD [OF assms(1), of w] keeps_snd [OF assms(2)]
    by (auto simp: andThen_def split: prod.split sum.split)
  then show ?thesis by (simp add: keeps_def)
qed

lemma keeps_wrapping [keep_rules]: "keeps obs f \<Longrightarrow> keeps obs (wrapping prefix f)"
  using keepsD [of obs f] by (auto simp: keeps_def [of _ "wrapping prefix f"] wrapping_def split: prod.split sum.split)

lemma keeps_must [keep_rules]: "keeps obs f \<Longrightarrow> keeps obs (must f)"
  using keepsD [of obs f] by (auto simp: keeps_def [of _ "must f"] must_def split: prod.split option.split)

lemma keeps_deferred [keep_rules]: "keeps obs g \<Longrightarrow> keeps obs f \<Longrightarrow> keeps obs (deferred g f)"
  using keepsD [of obs f] keeps_snd [of obs g]
  by (auto simp: keeps_def [of _ "deferred g f"] deferred_def split: prod.split)

lemma keeps_onError [keep_rules]: "keeps obs g \<Longrightarrow> keeps obs f \<Longrightarrow> keeps obs (onError g f)"
  using keepsD [of obs f] keeps_snd [of obs g]
  by (auto simp: keeps_def [of _ "onError g f"] onError_def split: prod.split sum.split)

end
