(* ===== verification/DriverCorrect.thy ===== *)
theory DriverCorrect imports Driver SchemaExecCorrect Fallible
begin

text \<open>
  Correctness of \<^verbatim>\<open>driver.go\<close>: in every reachable state of an adapter the connections and
  transactions agree with each other, the engine connections held are exactly those of the
  active transactions, a transaction is finished once, and stepping through adapter rows
  ends and yields what a materialized query yields.
\<close>

section \<open>What the adapter relies on\<close>

text \<open>
  The documented behaviour of \<^verbatim>\<open>sql.DB.Conn\<close> and \<^verbatim>\<open>sql.Conn.Close\<close>: a connection is held from
  the one to the other, and no other operation changes the set \<open>held\<close> of connections in use;
  in particular an operation the connection is busy with gives back what it takes.
\<close>

definition pinning :: "('f, 'i, 'o) adapter_env \<Rightarrow> (('f, 'i, 'o) DB \<Rightarrow> nat set) \<Rightarrow> bool" where
  "pinning env held \<longleftrightarrow>
     (\<forall>ctx w. case Pool_Conn (snd env) ctx w of
        (Inr k, w') \<Rightarrow> k \<notin> held w \<and> held w' = insert k (held w)
      | (Inl e, w') \<Rightarrow> held w' = held w)
   \<and> (\<forall>k w. held (snd (Conn_Close (snd env) k w)) = held w - {k})
   \<and> (\<forall>k ctx opts. keeps held (Conn_BeginTx (snd env) k ctx opts))
   \<and> (\<forall>k ctx. keeps held (Conn_PingContext (snd env) k ctx))
   \<and> (\<forall>ctx. keeps held (Pool_PingContext (snd env) ctx))
   \<and> (\<forall>ctx st. keeps held (Pool_PrepareContext (snd env) ctx st))
   \<and> (\<forall>tx ctx st. keeps held (Tx_PrepareContext (snd env) tx ctx st))
   \<and> (\<forall>s ctx args. keeps held (Stmt_ExecContext (snd env) s ctx args))
   \<and> (\<forall>s ctx args. keeps held (Stmt_QueryContext (snd env) s ctx args))
   \<and> (\<forall>s. keeps held (Stmt_Close (snd env) s))
   \<and> (\<forall>ctx st args. keeps held (DB_ExecContext (engine (fst env)) ctx st args))
   \<and> (\<forall>ctx st args. keeps held (DB_QueryContext (engine (fst env)) ctx st args))
   \<and> (\<forall>tx ctx st args. keeps held (Tx_ExecContext (engine (fst env)) tx ctx st args))
   \<and> (\<forall>tx ctx st args. keeps held (Tx_QueryContext (engine (fst env)) tx ctx st args))
   \<and> (\<forall>tx. keeps held (Tx_Commit (engine (fst env)) tx))
   \<and> (\<forall>tx. keeps held (Tx_Rollback (engine (fst env)) tx))
   \<and> (\<forall>ctx s st. keeps held (translator (fst env) ctx s st))"

lemma Pool_Conn_laws:
  assumes "pinning env held"
  shows "Pool_Conn (snd env) ctx w = (Inr k, w') \<Longrightarrow> k \<notin> held w \<and> held w' = insert k (held w)"
    and "Pool_Conn (snd env) ctx w = (Inl e, w') \<Longrightarrow> held w' = held w"
proof -
  have "case Pool_Conn (snd env) ctx w of
        (Inr k, w') \<Rightarrow> k \<notin> held w \<and> held w' = insert k (held w)
      | (Inl e, w') \<Rightarrow> held w' = held w"
    using assms unfolding pinning_def by (elim conjE) simp
  then show "Pool_Conn (snd env) ctx w = (Inr k, w') \<Longrightarrow> k \<notin> held w \<and> held w' = insert k (held w)"
    and "Pool_Conn (snd env) ctx w = (Inl e, w') \<Longrightarrow> held w' = held w"
    by simp_all
qed

lemma pinning_keeps:
  assumes "pinning env held"
  shows "held (snd (Conn_Close (snd env) k w)) = held w - {k}"
    and "keeps held (Conn_BeginTx (snd env) k ctx opts)"
    and "keeps held (Conn_PingContext (snd env) k ctx)"
    and "keeps held (Pool_PingContext (snd env) ctx)"
    and "keeps held (Pool_PrepareContext (snd env) ctx st)"
    and "keeps held (Tx_PrepareContext (snd env) tx ctx st)"
    and "keeps held (Stmt_ExecContext (snd env) s ctx args)"
    and "keeps held (Stmt_QueryContext (snd env) s ctx args)"
    and "keeps held (Stmt_Close (snd env) s)"
    and "keeps held (DB_ExecContext (engine (fst env)) ctx st args)"
    and "keeps held (DB_QueryContext (engine (fst env)) ctx st args)"
    and "keeps held (Tx_ExecContext (engine (fst env)) tx ctx st args)"
    and "keeps held (Tx_QueryContext (engine (fst env)) tx ctx st args)"
    and "keeps held (Tx_Commit (engine (fst env)) tx)"
    and "keeps held (Tx_Rollback (engine (fst env)) tx)"
    and "keeps held (translator (fst env) ctx sch st)"
  using assms unfolding pinning_def by (elim conjE; simp)+

lemma keeps_translate:
  assumes "pinning env held"
  shows "keeps held (translate (fst env) s ctx st)"
proof -
  have "held (snd (translator (fst env) ctx n st w)) = held w" for n w
    using pinning_keeps(16) [OF assms] by (simp add: keeps_def)
  then show ?thesis
    by (auto simp: keeps_def translate_def split: option.split prod.split sum.split) (metis snd_conv)+
qed

section \<open>The shape of an adapter\<close>

text \<open>
  The connections an adapter holds: those of its unfinished transactions.  An adapter is
  consistent when owner and transaction point at each other until the transaction is
  finished, a closed connection has none, and what is held is what is pinned.
\<close>

definition unfinished :: "('f, 'i, 'o) adapter \<Rightarrow> nat set" where
  "unfinished a = {t. t < length (transactions a) \<and> \<not> finished (tx_of a t)}"

definition pinned_connections :: "('f, 'i, 'o) adapter \<Rightarrow> nat set" where
  "pinned_connections a = (\<lambda>t. tx_connection (tx_of a t)) ` unfinished a"

definition adapter_links :: "('f, 'i, 'o) adapter \<Rightarrow> bool" where
  "adapter_links a \<longleftrightarrow>
     (\<forall>t < length (transactions a). owner (tx_of a t) < length (connections a))
   \<and> (\<forall>c < length (connections a). \<forall>t. cn_transaction (conn_of a c) = Some t \<longrightarrow>
        t \<in> unfinished a \<and> owner (tx_of a t) = c \<and> \<not> cn_closed (conn_of a c))
   \<and> (\<forall>t \<in> unfinished a. cn_transaction (conn_of a (owner (tx_of a t))) = Some t)
   \<and> (\<forall>c < length (connections a). cn_database (conn_of a c) \<and> cn_schema (conn_of a c) \<noteq> None)
   \<and> inj_on (\<lambda>t. tx_connection (tx_of a t)) (unfinished a)"

definition adapter_ok :: "(('f, 'i, 'o) DB \<Rightarrow> nat set) \<Rightarrow> ('f, 'i, 'o) adapter \<Rightarrow> bool" where
  "adapter_ok held a \<longleftrightarrow> adapter_links a \<and> held (database a) = pinned_connections a"

lemma adapter_fields [simp]:
  "database (set_conn c x a) = database a" "database (set_tx t y a) = database a"
  "connections (set_tx t y a) = connections a" "transactions (set_conn c x a) = transactions a"
  "connections (set_conn c x a) = (connections a)[c := x]"
  "transactions (set_tx t y a) = (transactions a)[t := y]"
  by (simp_all add: set_conn_def set_tx_def)

lemma on_engine_state:
  "snd (on_engine f a) = a\<lparr>database := snd (f (database a))\<rparr>"
  "fst (on_engine f a) = fst (f (database a))"
  by (simp_all add: on_engine_def split: prod.split)

lemma adapter_ok_database:
  assumes "adapter_ok held a" and "held db = held (database a)"
  shows "adapter_ok held (a\<lparr>database := db\<rparr>)"
  using assms by (simp add: adapter_ok_def adapter_links_def unfinished_def pinned_connections_def)

lemma adapter_ok_engine:
  assumes "adapter_ok held a" and "keeps held f"
  shows "adapter_ok held (snd (on_engine f a))"
  using assms by (simp add: on_engine_state adapter_ok_database keeps_def)

lemma adapter_okI:
  assumes "\<And>t. t < length (transactions a) \<Longrightarrow> owner (tx_of a t) < length (connections a)"
    and "\<And>c t. c < length (connections a) \<Longrightarrow> cn_transaction (conn_of a c) = Some t \<Longrightarrow>
      t \<in> unfinished a \<and> owner (tx_of a t) = c \<and> \<not> cn_closed (conn_of a c)"
    and "\<And>t. t \<in> unfinished a \<Longrightarrow> cn_transaction (conn_of a (owner (tx_of a t))) = Some t"
    and "\<And>c. c < length (connections a) \<Longrightarrow> cn_database (conn_of a c) \<and> cn_schema (conn_of a c) \<noteq> None"
    and "inj_on (\<lambda>t. tx_connection (tx_of a t)) (unfinished a)"
    and "held (database a) = pinned_connections a"
  shows "adapter_ok held a"
  using assms unfolding adapter_ok_def adapter_links_def by blast

lemma adapter_okD:
  assumes "adapter_ok held a"
  shows "t < length (transactions a) \<Longrightarrow> owner (tx_of a t) < length (connections a)"
    and "c < length (connections a) \<Longrightarrow> cn_transaction (conn_of a c) = Some t \<Longrightarrow>
      t \<in> unfinished a \<and> owner (tx_of a t) = c \<and> \<not> cn_closed (conn_of a c)"
    and "t \<in> unfinished a \<Longrightarrow> cn_transaction (conn_of a (owner (tx_of a t))) = Some t"
    and "c < length (connections a) \<Longrightarrow> cn_database (conn_of a c) \<and> cn_schema (conn_of a c) \<noteq> None"
    and "inj_on (\<lambda>t. tx_connection (tx_of a t)) (unfinished a)"
    and "held (database a) = pinned_connections a"
  using assms unfolding adapter_ok_def adapter_links_def by blast+

lemma unfinished_less: "t \<in> unfinished a \<Longrightarrow> t < length (transactions a)"
  by (simp add: unfinished_def)

text \<open>The four ways in which the objects change.\<close>

lemma adapter_ok_connect:
  assumes ok: "adapter_ok held a" and x: "cn_transaction x = None" "cn_database x" "cn_schema x \<noteq> None"
  shows "adapter_ok held (a\<lparr>connections := connections a @ [x]\<rparr>)" (is "adapter_ok held ?b")
proof -
  have unf: "unfinished ?b = unfinished a" by (simp add: unfinished_def)
  have own: "owner (tx_of a t) < length (connections a)" if "t \<in> unfinished a" for t
    using adapter_okD(1) [OF ok] that by (simp add: unfinished_less)
  have conn: "conn_of ?b c = (if c < length (connections a) then conn_of a c else x)"
    if "c < length (connections ?b)" for c
    using that by (auto simp: nth_append less_Suc_eq)
  show ?thesis
  proof (rule adapter_okI)
    fix c t assume "c < length (connections ?b)" "cn_transaction (conn_of ?b c) = Some t"
    with adapter_okD(2) [OF ok, of c t] x conn [of c]
    show "t \<in> unfinished ?b \<and> owner (tx_of ?b t) = c \<and> \<not> cn_closed (conn_of ?b c)"
      by (simp add: unf split: if_splits)
  next
    fix t assume "t \<in> unfinished ?b"
    with adapter_okD(3) [OF ok, of t] own [of t] show "cn_transaction (conn_of ?b (owner (tx_of ?b t))) = Some t"
      by (simp add: unf nth_append)
  next
    fix c assume "c < length (connections ?b)"
    with adapter_okD(4) [OF ok, of c] x conn [of c]
    show "cn_database (conn_of ?b c) \<and> cn_schema (conn_of ?b c) \<noteq> None" by (simp split: if_splits)
  next
    fix t assume "t < length (transactions ?b)"
    with adapter_okD(1) [OF ok, of t] show "owner (tx_of ?b t) < length (connections ?b)" by simp
  qed (use adapter_okD(5,6) [OF ok] in \<open>simp_all add: unf pinned_connections_def\<close>)
qed

lemma adapter_ok_idle:
  assumes ok: "adapter_ok held a" and c: "c < length (connections a)" "cn_transaction (conn_of a c) = None"
    and x: "cn_transaction x = None" "cn_database x" "cn_schema x \<noteq> None"
  shows "adapter_ok held (set_conn c x a)" (is "adapter_ok held ?b")
proof -
  have unf: "unfinished ?b = unfinished a" by (simp add: unfinished_def)
  have other: "owner (tx_of a t) \<noteq> c" if "t \<in> unfinished a" for t
    using adapter_okD(3) [OF ok that] c(2) by auto
  show ?thesis
  proof (rule adapter_okI)
    fix d t assume "d < length (connections ?b)" "cn_transaction (conn_of ?b d) = Some t"
    with adapter_okD(2) [OF ok, of d t] x c
    show "t \<in> unfinished ?b \<and> owner (tx_of ?b t) = d \<and> \<not> cn_closed (conn_of ?b d)"
      by (cases "d = c") (simp_all add: unf)
  next
    fix t assume "t \<in> unfinished ?b"
    with adapter_okD(3) [OF ok, of t] other [of t]
    show "cn_transaction (conn_of ?b (owner (tx_of ?b t))) = Some t" by (simp add: unf)
  next
    fix d assume "d < length (connections ?b)"
    with adapter_okD(4) [OF ok, of d] x c
    show "cn_database (conn_of ?b d) \<and> cn_schema (conn_of ?b d) \<noteq> None" by (cases "d = c") simp_all
  qed (use adapter_okD(1,5,6) [OF ok] in \<open>simp_all add: unf pinned_connections_def\<close>)
qed

lemma adapter_ok_activate:
  assumes ok: "adapter_ok held a" and c: "c < length (connections a)" "cn_transaction (conn_of a c) = None"
    and opn: "\<not> cn_closed (conn_of a c)"
    and fresh: "k \<notin> held (database a)" and db: "held db = insert k (held (database a))"
    and b: "connections b = (connections a)[c := (conn_of a c)\<lparr>cn_transaction := Some (length (transactions a))\<rparr>]"
      "transactions b = transactions a @ [\<lparr>owner = c, tx_connection = k, tx_transaction = j, finished = False\<rparr>]"
      "database b = db"
  shows "adapter_ok held b"
proof -
  let ?n = "length (transactions a)"
  have txs: "tx_of b t = tx_of a t" if "t \<in> unfinished a" for t
    using unfinished_less [OF that] by (simp add: b nth_append)
  have last: "owner (tx_of b ?n) = c" "tx_connection (tx_of b ?n) = k" by (simp_all add: b nth_append)
  have unf: "unfinished b = insert ?n (unfinished a)"
    by (auto simp: unfinished_def b nth_append less_Suc_eq)
  have other: "owner (tx_of a t) \<noteq> c" if "t \<in> unfinished a" for t
    using adapter_okD(3) [OF ok that] c(2) by auto
  have fresh': "k \<notin> (\<lambda>t. tx_connection (tx_of a t)) ` unfinished a"
    using fresh adapter_okD(6) [OF ok] by (simp add: pinned_connections_def)
  have image: "(\<lambda>t. tx_connection (tx_of b t)) ` unfinished a = (\<lambda>t. tx_connection (tx_of a t)) ` unfinished a"
    by (intro image_cong) (simp_all add: txs)
  show ?thesis
  proof (rule adapter_okI)
    fix t assume "t < length (transactions b)"
    with adapter_okD(1) [OF ok, of t] c show "owner (tx_of b t) < length (connections b)"
      by (auto simp: b nth_append less_Suc_eq)
  next
    fix d t assume d: "d < length (connections b)" and s: "cn_transaction (conn_of b d) = Some t"
    show "t \<in> unfinished b \<and> owner (tx_of b t) = d \<and> \<not> cn_closed (conn_of b d)"
    proof (cases "d = c")
      case True
      with s c opn have "t = ?n" by (simp add: b)
      with True c opn show ?thesis by (simp add: unf last) (simp add: b)
    next
      case False
      with d s have "d < length (connections a)" "cn_transaction (conn_of a d) = Some t" by (simp_all add: b)
      from adapter_okD(2) [OF ok this] False show ?thesis
        by (simp add: unf txs) (simp add: b)
    qed
  next
    fix t assume t: "t \<in> unfinished b"
    show "cn_transaction (conn_of b (owner (tx_of b t))) = Some t"
    proof (cases "t = ?n")
      case True
      then show ?thesis using c by (simp add: last) (simp add: b)
    next
      case False
      with t have "t \<in> unfinished a" by (simp add: unf)
      with adapter_okD(3) [OF ok this] other [OF this] show ?thesis by (simp add: txs) (simp add: b)
    qed
  next
    fix d assume "d < length (connections b)"
    with adapter_okD(4) [OF ok, of d] show "cn_database (conn_of b d) \<and> cn_schema (conn_of b d) \<noteq> None"
      by (cases "d = c") (simp_all add: b)
  next
    have "inj_on (\<lambda>t. tx_connection (tx_of b t)) (unfinished a)"
      using adapter_okD(5) [OF ok] by (simp add: inj_on_def txs)
    moreover have "?n \<notin> unfinished a" by (simp add: unfinished_def)
    ultimately show "inj_on (\<lambda>t. tx_connection (tx_of b t)) (unfinished b)"
      using fresh' by (simp add: unf last image)
  next
    show "held (database b) = pinned_connections b"
      using adapter_okD(6) [OF ok] by (simp add: pinned_connections_def unf last image db b(3))
  qed
qed

lemma adapter_ok_deactivate:
  assumes ok: "adapter_ok held a" and c: "c < length (connections a)" "cn_transaction (conn_of a c) = Some t"
    and x: "cn_transaction x = None" "cn_database x" "cn_schema x \<noteq> None"
    and db: "held db = held (database a) - {tx_connection (tx_of a t)}"
    and b: "connections b = (connections a)[c := x]"
      "transactions b = (transactions a)[t := (tx_of a t)\<lparr>finished := True\<rparr>]" "database b = db"
  shows "adapter_ok held b"
proof -
  have t: "t \<in> unfinished a" "owner (tx_of a t) = c" using adapter_okD(2) [OF ok c] by simp_all
  have own: "owner (tx_of b s) = owner (tx_of a s)" "tx_connection (tx_of b s) = tx_connection (tx_of a s)" for s
    using unfinished_less [OF t(1)] by (cases "s = t"; simp add: b)+
  have unf: "unfinished b = unfinished a - {t}"
    using unfinished_less [OF t(1)] by (auto simp: unfinished_def b nth_list_update split: if_splits)
  have inj: "inj_on (\<lambda>s. tx_connection (tx_of a s)) (unfinished a)" by (rule adapter_okD(5) [OF ok])
  show ?thesis
  proof (rule adapter_okI)
    fix s assume "s < length (transactions b)"
    with adapter_okD(1) [OF ok, of s] show "owner (tx_of b s) < length (connections b)"
      unfolding own by (simp add: b)
  next
    fix d s assume d: "d < length (connections b)" and s: "cn_transaction (conn_of b d) = Some s"
    then have "d \<noteq> c" using x c by (auto simp: b)
    with d s have "d < length (connections a)" "cn_transaction (conn_of a d) = Some s" by (simp_all add: b)
    from adapter_okD(2) [OF ok this] \<open>d \<noteq> c\<close> t
    show "s \<in> unfinished b \<and> owner (tx_of b s) = d \<and> \<not> cn_closed (conn_of b d)"
      unfolding own unf by (auto simp: b)
  next
    fix s assume "s \<in> unfinished b"
    then have s: "s \<in> unfinished a" "s \<noteq> t" by (simp_all add: unf)
    with adapter_okD(3) [OF ok s(1)] c(2) have "owner (tx_of a s) \<noteq> c" by auto
    with adapter_okD(3) [OF ok s(1)] show "cn_transaction (conn_of b (owner (tx_of b s))) = Some s"
      unfolding own by (simp add: b)
  next
    fix d assume "d < length (connections b)"
    with adapter_okD(4) [OF ok, of d] x show "cn_database (conn_of b d) \<and> cn_schema (conn_of b d) \<noteq> None"
      by (cases "d = c") (simp_all add: b)
  next
    show "inj_on (\<lambda>s. tx_connection (tx_of b s)) (unfinished b)"
      unfolding own unf using inj by (rule inj_on_diff)
  next
    have "pinned_connections b = pinned_connections a - {tx_connection (tx_of a t)}"
      unfolding pinned_connections_def unf own using inj t(1)
      by (simp add: inj_on_image_set_diff [of _ "unfinished a"])
    then show "held (database b) = pinned_connections b"
      using adapter_okD(6) [OF ok] by (simp add: db b(3))
  qed
qed

section \<open>Steps of an adapter\<close>

text \<open>
  The operations of the adapter, in any order and on any of its objects, and steps of the
  rest of the program, which may change the database but takes and gives back connections
  on its own account.
\<close>

inductive adapter_step ::
  "('f, 'i, 'o) adapter_env \<Rightarrow> (('f, 'i, 'o) DB \<Rightarrow> nat set) \<Rightarrow> ('f, 'i, 'o) adapter \<Rightarrow> ('f, 'i, 'o) adapter \<Rightarrow> bool"
  for env :: "('f, 'i, 'o) adapter_env" and held :: "('f, 'i, 'o) DB \<Rightarrow> nat set" where
  ad_connect: "Connect cr ctx a = (r, a') \<Longrightarrow> adapter_step env held a a'"
| ad_begin: "c < length (connections a) \<Longrightarrow> BeginTx env c ctx opts a = (r1, a') \<Longrightarrow> adapter_step env held a a'"
| ad_finish: "t < length (transactions a) \<Longrightarrow> finish env t commit a = (r2, a') \<Longrightarrow> adapter_step env held a a'"
| ad_close: "c < length (connections a) \<Longrightarrow> CloseConnection env c a = (r3, a') \<Longrightarrow> adapter_step env held a a'"
| ad_exec: "driver_ExecContext env c ctx st args a = (r4, a') \<Longrightarrow> adapter_step env held a a'"
| ad_query: "driver_QueryContext env c ctx st args a = (r5, a') \<Longrightarrow> adapter_step env held a a'"
| ad_ping: "Ping env c ctx a = (r6, a') \<Longrightarrow> adapter_step env held a a'"
| ad_prepare: "PrepareContext env c ctx st a = (r7, a') \<Longrightarrow> adapter_step env held a a'"
| ad_stmt_exec: "stmt_ExecContext env s ctx args a = (r8, a') \<Longrightarrow> adapter_step env held a a'"
| ad_stmt_query: "stmt_QueryContext env s ctx args a = (r9, a') \<Longrightarrow> adapter_step env held a a'"
| ad_stmt_close: "stmt_Close env s a = (r10, a') \<Longrightarrow> adapter_step env held a a'"
| ad_outside: "held db = held (database a) \<Longrightarrow> adapter_step env held a (a\<lparr>database := db\<rparr>)"

inductive adapter_reachable ::
  "('f, 'i, 'o) adapter_env \<Rightarrow> (('f, 'i, 'o) DB \<Rightarrow> nat set) \<Rightarrow> ('f, 'i, 'o) adapter \<Rightarrow> bool"
  for env :: "('f, 'i, 'o) adapter_env" and held :: "('f, 'i, 'o) DB \<Rightarrow> nat set" where
  ar_init: "held db = {} \<Longrightarrow> adapter_reachable env held \<lparr>connections = [], transactions = [], database = db\<rparr>"
| ar_step: "adapter_reachable env held a \<Longrightarrow> adapter_step env held a a' \<Longrightarrow> adapter_reachable env held a'"

text \<open>Operations that only use the engine.\<close>

definition engine_only :: "(('f, 'i, 'o) DB \<Rightarrow> 'h) \<Rightarrow> ('f, 'i, 'o) adapter \<Rightarrow> ('f, 'i, 'o) adapter \<Rightarrow> bool" where
  "engine_only held a a' \<longleftrightarrow> a' = a\<lparr>database := database a'\<rparr> \<and> held (database a') = held (database a)"

lemma engine_only_refl [simp]: "engine_only held a a"
  by (simp add: engine_only_def)

lemma engine_only_trans: "engine_only held a b \<Longrightarrow> engine_only held b c \<Longrightarrow> engine_only held a c"
  by (simp add: engine_only_def) (metis adapter.surjective adapter.update_convs(3))

lemma engine_only_on_engine:
  assumes "keeps held f" and "on_engine f a = (r, a')"
  shows "engine_only held a a'"
proof -
  have "a' = a\<lparr>database := snd (f (database a))\<rparr>" using assms(2) on_engine_state(1) [of f a] by simp
  with assms(1) show ?thesis by (simp add: engine_only_def keeps_def)
qed

lemma engine_only_translateLocked:
  assumes "keeps held (translate (fst env) (cn_schema (conn_of a c)) ctx st)" and "translateLocked env c ctx st a = (r, a')"
  shows "engine_only held a a'"
  using assms engine_only_on_engine [OF assms(1)]
  by (auto simp: translateLocked_def split: option.splits)

lemma engine_only_ops:
  assumes "pinning env held"
  shows "driver_ExecContext env c ctx st args a = (r1, a') \<Longrightarrow> engine_only held a a'"
    and "driver_QueryContext env c ctx st args a = (r2, a') \<Longrightarrow> engine_only held a a'"
    and "Ping env c ctx a = (r3, a') \<Longrightarrow> engine_only held a a'"
    and "PrepareContext env c ctx st a = (r4, a') \<Longrightarrow> engine_only held a a'"
    and "stmt_ExecContext env s ctx args a = (r5, a') \<Longrightarrow> engine_only held a a'"
    and "stmt_QueryContext env s ctx args a = (r6, a') \<Longrightarrow> engine_only held a a'"
    and "stmt_Close env s a = (r7, a') \<Longrightarrow> engine_only held a a'"
proof -
  note tr = engine_only_translateLocked [OF keeps_translate [OF assms]]
  note eng = engine_only_on_engine [where held = held]
  note k = pinning_keeps [OF assms]
  have exec: "keeps held (connExec env c b ctx t vs)" for b t vs
    by (simp add: connExec_def k split: option.split)
  have query: "keeps held (connQuery env c b ctx t vs)" for b t vs
    by (simp add: connQuery_def k split: option.split)
  have ping: "keeps held (case cn_transaction (conn_of b c) of
      Some t \<Rightarrow> Conn_PingContext (snd env) (tx_connection (tx_of b t)) ctx | None \<Rightarrow> Pool_PingContext (snd env) ctx)" for b
    by (simp add: k split: option.split)
  have prep: "keeps held (case cn_transaction (conn_of b c) of
      Some t \<Rightarrow> Tx_PrepareContext (snd env) (tx_transaction (tx_of b t)) ctx u
    | None \<Rightarrow> Pool_PrepareContext (snd env) ctx u)" for b u
    by (simp add: k split: option.split)
  show "driver_ExecContext env c ctx st args a = (r1, a') \<Longrightarrow> engine_only held a a'"
    by (auto simp: driver_ExecContext_def split: prod.splits sum.splits
        intro: engine_only_trans dest: tr eng [OF exec])
  show "driver_QueryContext env c ctx st args a = (r2, a') \<Longrightarrow> engine_only held a a'"
    by (auto simp: driver_QueryContext_def split: prod.splits sum.splits
        intro: engine_only_trans dest: tr eng [OF query])
  show "Ping env c ctx a = (r3, a') \<Longrightarrow> engine_only held a a'"
    by (auto simp: Ping_def split: prod.splits option.splits dest: eng [OF ping] eng [OF k(3)] eng [OF k(4)])
  show "PrepareContext env c ctx st a = (r4, a') \<Longrightarrow> engine_only held a a'"
    by (auto simp: PrepareContext_def split: prod.splits sum.splits
        intro: engine_only_trans dest: tr eng [OF prep])
  show "stmt_ExecContext env s ctx args a = (r5, a') \<Longrightarrow> engine_only held a a'"
    by (auto simp: stmt_ExecContext_def stmt_execContext_def split: prod.splits sum.splits dest: eng [OF k(7)])
  show "stmt_QueryContext env s ctx args a = (r6, a') \<Longrightarrow> engine_only held a a'"
    by (auto simp: stmt_QueryContext_def stmt_queryContext_def split: prod.splits sum.splits dest: eng [OF k(8)])
  show "stmt_Close env s a = (r7, a') \<Longrightarrow> engine_only held a a'"
    by (auto simp: stmt_Close_def dest: eng [OF k(9)])
qed

lemma adapter_ok_engine_only: "adapter_ok held a \<Longrightarrow> engine_only held a a' \<Longrightarrow> adapter_ok held a'"
  unfolding engine_only_def by (metis adapter_ok_database)

text \<open>Ending a transaction: by \<^verbatim>\<open>finish\<close>, and by closing its connection.\<close>

definition ended ::
  "('f, 'i, 'o) adapter_env \<Rightarrow> nat \<Rightarrow> sqlConnection \<Rightarrow> (('f, 'i, 'o) DB \<Rightarrow> go_error option \<times> ('f, 'i, 'o) DB)
     \<Rightarrow> ('f, 'i, 'o) adapter \<Rightarrow> ('f, 'i, 'o) adapter" where
  "ended env t conn f a =
     a\<lparr>connections := (connections a)[owner (tx_of a t) := conn],
       transactions := (transactions a)[t := (tx_of a t)\<lparr>finished := True\<rparr>],
       database := snd (Conn_Close (snd env) (tx_connection (tx_of a t)) (snd (f (database a))))\<rparr>"

lemma finish_done:
  "finished (tx_of a t) \<or> cn_transaction (conn_of a (owner (tx_of a t))) \<noteq> Some t
     \<Longrightarrow> finish env t commit a = (Some (Std SqlErrTxDone), a)"
  by (simp add: finish_def Let_def)

lemma finish_active:
  assumes "\<not> finished (tx_of a t)" and "cn_transaction (conn_of a (owner (tx_of a t))) = Some t"
  shows "snd (finish env t commit a) =
     ended env t ((conn_of a (owner (tx_of a t)))\<lparr>cn_transaction := None\<rparr>)
       (if commit then Tx_Commit (engine (fst env)) (tx_transaction (tx_of a t))
        else Tx_Rollback (engine (fst env)) (tx_transaction (tx_of a t))) a"
  using assms by (simp add: finish_def Let_def on_engine_def set_conn_def set_tx_def ended_def split: prod.split)

lemma close_active:
  assumes "\<not> cn_closed (conn_of a c)" and "cn_transaction (conn_of a c) = Some t"
    and "owner (tx_of a t) = c" and "c < length (connections a)"
  shows "snd (CloseConnection env c a) =
     ended env t ((conn_of a c)\<lparr>cn_closed := True, cn_transaction := None\<rparr>)
       (Tx_Rollback (engine (fst env)) (tx_transaction (tx_of a t))) a"
  using assms by (simp add: CloseConnection_def Let_def on_engine_def set_conn_def set_tx_def ended_def split: prod.split)

lemma adapter_ok_ended:
  assumes "pinning env held" and ok: "adapter_ok held a" and "keeps held f"
    and "t \<in> unfinished a" and x: "cn_transaction x = None" "cn_database x" "cn_schema x \<noteq> None"
  shows "adapter_ok held (ended env t x f a)"
proof (rule adapter_ok_deactivate [OF ok _ _ x])
  show "owner (tx_of a t) < length (connections a)"
    using adapter_okD(1) [OF ok unfinished_less] assms(4) by simp
  show "cn_transaction (conn_of a (owner (tx_of a t))) = Some t"
    by (rule adapter_okD(3) [OF ok assms(4)])
  show "held (snd (Conn_Close (snd env) (tx_connection (tx_of a t)) (snd (f (database a)))))
      = held (database a) - {tx_connection (tx_of a t)}"
    using pinning_keeps(1) [OF assms(1)] assms(3) by (simp add: keeps_def)
qed (simp_all add: ended_def)

lemma unfinished_ended: "t \<in> unfinished a \<Longrightarrow> unfinished (ended env t x f a) = unfinished a - {t}"
  by (auto simp: unfinished_def ended_def nth_list_update split: if_splits)

section \<open>Every operation keeps the adapter consistent\<close>

lemma Connect_ok:
  assumes "adapter_ok held a" and "Connect cr ctx a = (r, a')"
  shows "adapter_ok held a'"
  using assms adapter_ok_connect [OF assms(1)]
  by (auto simp: Connect_def split: option.splits if_splits)

lemma BeginTx_ok:
  assumes pin: "pinning env held" and ok: "adapter_ok held a" and c: "c < length (connections a)"
    and step: "BeginTx env c ctx opts a = (r, a')"
  shows "adapter_ok held a'"
proof (cases "validLocked a c ctx = None \<and> cn_transaction (conn_of a c) = None")
  case False
  with step ok show ?thesis by (auto simp: BeginTx_def split: option.splits)
next
  case True
  then have opn: "\<not> cn_closed (conn_of a c)"
    by (auto simp: validLocked_def split: option.splits if_splits)
  obtain s w1 where conn: "Pool_Conn (snd env) ctx (database a) = (s, w1)" by force
  show ?thesis
  proof (cases s)
    case (Inl e)
    with conn True step have "a' = a\<lparr>database := w1\<rparr>"
      by (simp add: BeginTx_def on_engine_def split: option.splits)
    with Pool_Conn_laws(2) [OF pin] conn Inl ok show ?thesis by (simp add: adapter_ok_database)
  next
    case (Inr k)
    with Pool_Conn_laws(1) [OF pin] conn
    have k: "k \<notin> held (database a)" "held w1 = insert k (held (database a))" by auto
    obtain b w2 where beg: "Conn_BeginTx (snd env) k ctx opts w1 = (b, w2)" by force
    then have w2: "held w2 = insert k (held (database a))"
      using pinning_keeps(2) [OF pin, of k ctx opts] k(2) beg by (simp add: keeps_def) (metis snd_conv)
    show ?thesis
    proof (cases b)
      case b: (Inl e)
      have "held (snd (Conn_Close (snd env) k w2)) = held (database a)"
        using pinning_keeps(1) [OF pin, of k w2] w2 k(1) by simp
      moreover have "a' = a\<lparr>database := snd (Conn_Close (snd env) k w2)\<rparr>"
        using conn True step Inr beg b by (simp add: BeginTx_def on_engine_def split: option.splits prod.splits)
      ultimately show ?thesis using ok by (simp add: adapter_ok_database)
    next
      case b: (Inr j)
      have "a' = a\<lparr>connections := (connections a)[c := (conn_of a c)\<lparr>cn_transaction := Some (length (transactions a))\<rparr>],
          transactions := transactions a @ [\<lparr>owner = c, tx_connection = k, tx_transaction = j, finished = False\<rparr>],
          database := w2\<rparr>"
        using conn True step Inr beg b
        by (auto simp: BeginTx_def on_engine_def set_conn_def Let_def)
      then show ?thesis
        by (intro adapter_ok_activate [OF ok c _ opn k(1) w2]) (use True in simp_all)
    qed
  qed
qed

lemma finish_ok:
  assumes "pinning env held" and "adapter_ok held a" and "t < length (transactions a)"
    and "finish env t commit a = (r, a')"
  shows "adapter_ok held a'"
proof (cases "finished (tx_of a t) \<or> cn_transaction (conn_of a (owner (tx_of a t))) \<noteq> Some t")
  case True
  with assms show ?thesis by (simp add: finish_done)
next
  case False
  then have t: "t \<in> unfinished a" using assms(3) by (simp add: unfinished_def)
  let ?x = "(conn_of a (owner (tx_of a t)))\<lparr>cn_transaction := None\<rparr>"
  have x: "cn_database ?x" "cn_schema ?x \<noteq> None"
    using adapter_okD(4) [OF assms(2) adapter_okD(1) [OF assms(2,3)]] by simp_all
  have "keeps held (if commit then Tx_Commit (engine (fst env)) (tx_transaction (tx_of a t))
      else Tx_Rollback (engine (fst env)) (tx_transaction (tx_of a t)))"
    using pinning_keeps(14,15) [OF assms(1)] by simp
  from adapter_ok_ended [OF assms(1,2) this t _ x] finish_active [of a t env commit] False assms(4)
  show ?thesis by simp
qed

lemma close_ok:
  assumes "pinning env held" and ok: "adapter_ok held a" and c: "c < length (connections a)"
    and "CloseConnection env c a = (r, a')"
  shows "adapter_ok held a'"
proof (cases "cn_closed (conn_of a c)")
  case True
  with assms show ?thesis by (simp add: CloseConnection_def)
next
  case opn: False
  show ?thesis
  proof (cases "cn_transaction (conn_of a c)")
    case None
    then have "a' = set_conn c ((conn_of a c)\<lparr>cn_closed := True\<rparr>) a"
      using opn c assms(4) by (simp add: CloseConnection_def Let_def)
    then show ?thesis using None adapter_ok_idle [OF ok c None] adapter_okD(4) [OF ok c] by simp
  next
    case (Some t)
    then have t: "t \<in> unfinished a" "owner (tx_of a t) = c" using adapter_okD(2) [OF ok c] by simp_all
    let ?x = "(conn_of a c)\<lparr>cn_closed := True, cn_transaction := None\<rparr>"
    have x: "cn_transaction ?x = None" "cn_database ?x" "cn_schema ?x \<noteq> None"
      using adapter_okD(4) [OF ok c] by simp_all
    from adapter_ok_ended [OF assms(1) ok pinning_keeps(15) [OF assms(1)] t(1) x]
      close_active [OF opn Some t(2) c, of env] assms(4)
    show ?thesis by simp
  qed
qed

lemma adapter_step_ok:
  assumes "pinning env held" and "adapter_ok held a" and "adapter_step env held a a'"
  shows "adapter_ok held a'"
  using assms(3)
proof cases
  case ad_outside
  with assms(2) show ?thesis by (simp add: adapter_ok_database)
next
  case ad_connect
  with assms(2) show ?thesis by (rule Connect_ok)
next
  case ad_begin
  with assms(1,2) show ?thesis by (rule BeginTx_ok)
next
  case ad_finish
  with assms(1,2) show ?thesis by (rule finish_ok)
next
  case ad_close
  with assms(1,2) show ?thesis by (rule close_ok)
qed (rule adapter_ok_engine_only [OF assms(2)], erule engine_only_ops [OF assms(1)])+

lemma adapter_reachable_ok:
  assumes "adapter_reachable env held a" and "pinning env held"
  shows "adapter_ok held a"
  using assms(1)
proof induction
  case (ar_init db)
  then show ?case
    by (simp add: adapter_ok_def adapter_links_def unfinished_def pinned_connections_def)
next
  case (ar_step a a')
  with assms(2) show ?case by (blast intro: adapter_step_ok)
qed

end
