(* ===== verification/DriverProperties.thy ===== *)
theory DriverProperties imports DriverCorrect
begin

text \<open>
  The properties of the \<^verbatim>\<open>database/sql\<close> adapter: connections and transactions stay paired,
  a transaction ends once, a rollback restores the data of its beginning, and reading rows
  through the adapter ends and agrees with a materialized query.
\<close>

section \<open>An example engine\<close>

text \<open>
  One engine connection (0), in use or not; the data is the list of the statements
  executed, saved at the beginning of a transaction.
\<close>

type_synonym adapter_example = "(nat, string, bool \<times> string list \<times> string list option) DB"

definition ex_exec :: "adapter_example executor" where
  "ex_exec ctx st args db =
     (case outside db of (busy, stored, saved) \<Rightarrow>
       if st = ''fail'' then (Inl (ErrorText ''no such table: t''), db)
       else (Inr (Inr 1), db\<lparr>outside := (busy, stored @ [st], saved)\<rparr>))"

definition ex_rows :: rowset where
  "ex_rows = \<lparr>rs_columns = Inr [''n''], rs_scans = [Inr [VInt64 7], Inr [VBytes None]], rs_err = None\<rparr>"

definition ex_engine :: "adapter_example sql_engine" where
  "ex_engine =
     \<lparr>DB_ExecContext = ex_exec,
      DB_QueryContext = (\<lambda>ctx st args db. (Inr ex_rows, db)),
      DB_QueryRowScan = (\<lambda>ctx st args db. (None, db)),
      DB_BeginTx = (\<lambda>ctx db. (Inl (ErrorText ''unused''), db)),
      Tx_ExecContext = (\<lambda>tx. ex_exec),
      Tx_QueryContext = (\<lambda>tx ctx st args db. (Inr ex_rows, db)),
      Tx_Commit = (\<lambda>tx db. (None, db\<lparr>outside := (case outside db of (busy, stored, saved) \<Rightarrow> (busy, stored, None))\<rparr>)),
      Tx_Rollback = (\<lambda>tx db. (None, db\<lparr>outside := (case outside db of (busy, stored, saved) \<Rightarrow>
        (busy, case saved of None \<Rightarrow> stored | Some d \<Rightarrow> d, None))\<rparr>)),
      DB_Close = (\<lambda>db. (None, db))\<rparr>"

definition ex_pool :: "adapter_example pool_engine" where
  "ex_pool =
     \<lparr>Pool_Conn = (\<lambda>ctx db. case outside db of (busy, stored, saved) \<Rightarrow>
        if busy then (Inl (Std DeadlineExceeded), db) else (Inr 0, db\<lparr>outside := (True, stored, saved)\<rparr>)),
      Pool_PingContext = (\<lambda>ctx db. (None, db)),
      Pool_PrepareContext = (\<lambda>ctx st db. (Inr 0, db)),
      Conn_BeginTx = (\<lambda>k ctx opts db. (Inr 0,
        db\<lparr>outside := (case outside db of (busy, stored, saved) \<Rightarrow> (busy, stored, Some stored))\<rparr>)),
      Conn_PingContext = (\<lambda>k ctx db. (None, db)),
      Conn_Close = (\<lambda>k db. (None, if k = 0 then db\<lparr>outside := (False, snd (outside db))\<rparr> else db)),
      Tx_PrepareContext = (\<lambda>tx ctx st db. (Inr 0, db)),
      Stmt_ExecContext = (\<lambda>s ctx args db. (Inr (Inr 0), db)),
      Stmt_QueryContext = (\<lambda>s ctx args db. (Inr ex_rows, db)),
      Stmt_Close = (\<lambda>s db. (None, db))\<rparr>"

definition ex_env :: "(nat, string, bool \<times> string list \<times> string list option) adapter_env" where
  "ex_env =
     (\<lparr>parser = \<lparr>Parse = (\<lambda>s. Inl (ErrorText ''syntax'')), Deparse = (\<lambda>raws. Inr ''''),
         SplitWithParser = (\<lambda>s. Inr [s]), MakeAConstStrNode = (\<lambda>s l. MakeStrNode s)\<rparr>,
       translator = (\<lambda>ctx s st db. (Inr st, db)),
       engine = ex_engine,
       call_interceptor = (\<lambda>i ctx st args db. ((zero_result, False, None), db))\<rparr>, ex_pool)"

definition ex_held :: "adapter_example \<Rightarrow> nat set" where
  "ex_held db = (if fst (outside db) then {0} else {})"

definition ex_data :: "adapter_example \<Rightarrow> string list" where
  "ex_data db = fst (snd (outside db))"

definition ex_saved :: "nat \<Rightarrow> adapter_example \<Rightarrow> string list option" where
  "ex_saved tx db = snd (snd (outside db))"

definition ex_empty :: "(nat, string, bool \<times> string list \<times> string list option) adapter" where
  "ex_empty = \<lparr>connections = [], transactions = [],
     database = \<lparr>schemas = [(''public'', empty_interceptors)], dispatchID = ''id'', fn_registry = [],
       db_closed = False, outside = (False, [''create''], None)\<rparr>\<rparr>"

definition ex_connected :: "(nat, string, bool \<times> string list \<times> string list option) adapter" where
  "ex_connected = snd (Connect \<lparr>cr_database = True, cr_schema = Some ''public''\<rparr> Background ex_empty)"

definition ex_begun :: "(nat, string, bool \<times> string list \<times> string list option) adapter" where
  "ex_begun = snd (Begin ex_env 0 ex_connected)"

lemmas ex_defs = ex_env_def ex_engine_def ex_pool_def ex_exec_def

lemma ex_pinning: "pinning ex_env ex_held"
  by (auto simp: pinning_def keeps_def ex_defs ex_held_def split: prod.splits)

lemma ex_connected_simp: "ex_connected =
   \<lparr>connections = [\<lparr>cn_database = True, cn_schema = Some ''public'', cn_transaction = None, cn_closed = False\<rparr>],
    transactions = [], database = database ex_empty\<rparr>"
  by (simp add: ex_connected_def ex_empty_def Connect_def Background_def isClosed_def)

lemma ex_begun_simp: "ex_begun =
   \<lparr>connections = [\<lparr>cn_database = True, cn_schema = Some ''public'', cn_transaction = Some 0, cn_closed = False\<rparr>],
    transactions = [\<lparr>owner = 0, tx_connection = 0, tx_transaction = 0, finished = False\<rparr>],
    database = (database ex_empty)\<lparr>outside := (True, [''create''], Some [''create''])\<rparr>\<rparr>"
  "fst (Begin ex_env 0 ex_connected) = Inr 0"
  by (simp_all add: ex_begun_def ex_connected_simp ex_empty_def ex_defs Begin_def BeginTx_def validLocked_def
      Background_def isClosed_def on_engine_def set_conn_def Let_def)

lemma ex_reachable: "adapter_reachable ex_env ex_held ex_connected" "adapter_reachable ex_env ex_held ex_begun"
proof -
  have "adapter_reachable ex_env ex_held ex_empty"
    unfolding ex_empty_def by (rule ar_init) (simp add: ex_held_def)
  then show connected: "adapter_reachable ex_env ex_held ex_connected"
    unfolding ex_connected_def by (rule ar_step) (rule ad_connect, rule surjective_pairing)
  have "BeginTx ex_env 0 Background \<lparr>Isolation = 0, ReadOnly = False\<rparr> ex_connected = (Inr 0, ex_begun)"
    using ex_begun_simp(2) by (simp add: Begin_def ex_begun_def prod_eq_iff)
  then have "adapter_step ex_env ex_held ex_connected ex_begun"
    by (rule ad_begin [rotated]) (simp add: ex_connected_simp)
  with connected show "adapter_reachable ex_env ex_held ex_begun" by (rule ar_step)
qed

section \<open>Connections and transactions\<close>



section \<open>A transaction ends once\<close>

lemma adapter_step_transactions:
  assumes pin: "pinning env held" and ok: "adapter_ok held a" and step: "adapter_step env held a a'"
    and t: "t < length (transactions a)" "finished (tx_of a t)"
  shows "t < length (transactions a') \<and> finished (tx_of a' t)"
proof -
  have same: ?thesis if "transactions a' = transactions a" using that t by simp
  have only: "transactions a' = transactions a" if "engine_only held a a'"
    using that unfolding engine_only_def by (metis adapter.select_convs(2) adapter.surjective adapter.update_convs(3))
  have updated: ?thesis if "transactions a' = (transactions a)[s := (tx_of a s)\<lparr>finished := True\<rparr>]" for s
    using that t by (cases "s = t") simp_all
  from step show ?thesis
  proof cases
    case (ad_connect cr ctx r)
    then show ?thesis by (intro same) (auto simp: Connect_def split: option.splits if_splits)
  next
    case (ad_begin c ctx opts r)
    then have "transactions a' = transactions a \<or> (\<exists>x. transactions a' = transactions a @ [x])"
      by (auto simp: BeginTx_def on_engine_def Let_def split: option.splits if_splits prod.splits sum.splits)
    with t show ?thesis by (auto simp: nth_append)
  next
    case (ad_finish s commit r)
    show ?thesis
    proof (cases "finished (tx_of a s) \<or> cn_transaction (conn_of a (owner (tx_of a s))) \<noteq> Some s")
      case True
      with ad_finish show ?thesis by (intro same) (simp add: finish_done)
    next
      case False
      with ad_finish finish_active [of a s env commit] show ?thesis
        by (intro updated [of s]) (simp add: ended_def)
    qed
  next
    case (ad_close c r)
    show ?thesis
    proof (cases "cn_closed (conn_of a c) \<or> cn_transaction (conn_of a c) = None")
      case True
      with ad_close show ?thesis
        by (intro same) (auto simp: CloseConnection_def Let_def split: if_splits)
    next
      case False
      then obtain s where s: "\<not> cn_closed (conn_of a c)" "cn_transaction (conn_of a c) = Some s" by auto
      then have "owner (tx_of a s) = c" using adapter_okD(2) [OF ok ad_close(1)] by simp
      from close_active [OF s this ad_close(1), of env] ad_close(2) show ?thesis
        by (intro updated [of s]) (simp add: ended_def)
    qed
  next
    case ad_outside
    then show ?thesis by (intro same) simp
  qed (rule same, rule only, erule engine_only_ops [OF pin])+
qed

lemma adapter_steps_transactions:
  assumes "(adapter_step env held)\<^sup>*\<^sup>* a a'" and "pinning env held" and "adapter_ok held a"
    and "t < length (transactions a)" and "finished (tx_of a t)"
  shows "adapter_ok held a' \<and> t < length (transactions a') \<and> finished (tx_of a' t)"
  using assms(1)
proof induction
  case (step b c)
  with assms(2) adapter_step_ok adapter_step_transactions show ?case by metis
qed (use assms in simp)

lemma finish_finishes:
  assumes "adapter_ok held a" and "t < length (transactions a)" and "finish env t commit a = (r, a1)"
  shows "t < length (transactions a1) \<and> finished (tx_of a1 t)"
proof (cases "finished (tx_of a t) \<or> cn_transaction (conn_of a (owner (tx_of a t))) \<noteq> Some t")
  case True
  then have "finished (tx_of a t)"
    using adapter_okD(3) [OF assms(1), of t] assms(2) by (auto simp: unfinished_def)
  with assms finish_done [of a t env commit] show ?thesis by simp
next
  case False
  with finish_active [of a t env commit] assms(2,3) show ?thesis by (simp add: ended_def)
qed

text \<open>
  C37: a transaction ends once: after a commit or a rollback, whatever it reported and
  whatever happens to the adapter in between, every further commit or rollback reports
  \<^verbatim>\<open>sql.ErrTxDone\<close> and touches neither the adapter nor the engine.
\<close>

theorem transactions_end_once:
  assumes "pinning env held" and "adapter_reachable env held a" and "t < length (transactions a)"
    and "finish env t commit a = (r, a1)" and "(adapter_step env held)\<^sup>*\<^sup>* a1 a2"
  shows "finish env t commit' a2 = (Some (Std SqlErrTxDone), a2)"
proof -
  note ok = adapter_reachable_ok [OF assms(2,1)]
  have "adapter_ok held a1" by (rule finish_ok [OF assms(1) ok assms(3,4)])
  from adapter_steps_transactions [OF assms(5,1) this] finish_finishes [OF ok assms(3,4)]
  show ?thesis by (simp add: finish_done)
qed

theorem transactions_end_once_witness:
  "finish ex_env 0 True (snd (finish ex_env 0 False ex_begun)) =
     (Some (Std SqlErrTxDone), snd (finish ex_env 0 False ex_begun))"
  by (rule transactions_end_once [OF ex_pinning ex_reachable(2) _ surjective_pairing rtranclp.rtrancl_refl])
    (simp add: ex_begun_simp(1))

section \<open>Pooling\<close>

text \<open>
  The two checks a \<^verbatim>\<open>database/sql\<close> pool makes agree: before reuse a connection is rejected
  as bad exactly if it would not have been taken back as valid, unless the context of the
  caller has ended; and a connection that passes accepts statements and a new transaction.
\<close>

theorem session_checks_agree:
  assumes "pinning env held" and "adapter_reachable env held a" and "c < length (connections a)"
  shows "ResetSession a c ctx =
      (case ctx (database a) of
         Some e \<Rightarrow> Some e
       | None \<Rightarrow> if IsValid a c then None else Some (Std DriverErrBadConn))
    \<and> (case ResetSession a c ctx of
         None \<Rightarrow> validLocked a c ctx = None
           \<and> fst (BeginTx env c ctx opts a) \<noteq> Inl (ErrorText ''pgmem: transaction already active'')
       | Some e \<Rightarrow> True)"
proof -
  have c: "cn_database (conn_of a c) \<and> cn_schema (conn_of a c) \<noteq> None"
    by (rule adapter_okD(4) [OF adapter_reachable_ok [OF assms(2,1)] assms(3)])
  have "fst (BeginTx env c ctx opts a) \<noteq> Inl (ErrorText ''pgmem: transaction already active'')"
    if "cn_transaction (conn_of a c) = None" "validLocked a c ctx = None"
    using that by (auto simp: BeginTx_def executionError_def Let_def split: sum.split prod.split)
  with c show ?thesis
    by (auto simp: ResetSession_def IsValid_def validLocked_def split: option.split)
qed

theorem session_checks_agree_witness:
  "ResetSession ex_connected 0 Background = None \<and> ResetSession ex_begun 0 Background = Some (Std DriverErrBadConn)"
  using session_checks_agree [OF ex_pinning ex_reachable(1), of 0 Background]
    session_checks_agree [OF ex_pinning ex_reachable(2), of 0 Background]
  by (simp add: ex_connected_simp ex_begun_simp(1) ex_empty_def IsValid_def isClosed_def Background_def)

section \<open>Transactions of the adapter are atomic\<close>

text \<open>
  The documented behaviour of transactions on the data, as for the package's own scripts,
  for a transaction begun on a pinned connection.
\<close>

definition pinned_transactional ::
  "('f, 'i, 'o) adapter_env \<Rightarrow> (('f, 'i, 'o) DB \<Rightarrow> 'd) \<Rightarrow> (nat \<Rightarrow> ('f, 'i, 'o) DB \<Rightarrow> 'd option) \<Rightarrow> bool" where
  "pinned_transactional env data saved \<longleftrightarrow>
     (\<forall>ctx w. data (snd (Pool_Conn (snd env) ctx w)) = data w)
   \<and> (\<forall>k ctx opts w. case Conn_BeginTx (snd env) k ctx opts w of
        (Inr j, w') \<Rightarrow> saved j w' = Some (data w)
      | (Inl e, w') \<Rightarrow> data w' = data w)
   \<and> (\<forall>k w. data (snd (Conn_Close (snd env) k w)) = data w)
   \<and> (\<forall>j ctx s st w. saved j (snd (translator (fst env) ctx s st w)) = saved j w)
   \<and> (\<forall>j ctx st args w. saved j (snd (Tx_ExecContext (engine (fst env)) j ctx st args w)) = saved j w)
   \<and> (\<forall>j ctx st args w. saved j (snd (Tx_QueryContext (engine (fst env)) j ctx st args w)) = saved j w)
   \<and> (\<forall>j w d. saved j w = Some d \<longrightarrow> data (snd (Tx_Rollback (engine (fst env)) j w)) = d)"

lemma pinned_laws:
  assumes "pinned_transactional env data saved"
  shows "data (snd (Pool_Conn (snd env) ctx w)) = data w"
    and "Conn_BeginTx (snd env) k ctx opts w = (Inr j, w') \<Longrightarrow> saved j w' = Some (data w)"
    and "data (snd (Conn_Close (snd env) k w)) = data w"
    and "keeps (saved j) (translator (fst env) ctx s st)"
    and "keeps (saved j) (Tx_ExecContext (engine (fst env)) j ctx st args)"
    and "keeps (saved j) (Tx_QueryContext (engine (fst env)) j ctx st args)"
    and "saved j w = Some d \<Longrightarrow> data (snd (Tx_Rollback (engine (fst env)) j w)) = d"
proof -
  have "case Conn_BeginTx (snd env) k ctx opts w of
        (Inr j, w') \<Rightarrow> saved j w' = Some (data w)
      | (Inl e, w') \<Rightarrow> data w' = data w"
    using assms unfolding pinned_transactional_def by (elim conjE) simp
  then show "Conn_BeginTx (snd env) k ctx opts w = (Inr j, w') \<Longrightarrow> saved j w' = Some (data w)" by simp
qed (use assms in \<open>unfold pinned_transactional_def keeps_def, (elim conjE; simp)+\<close>)

lemma keeps_translate_saved:
  assumes "pinned_transactional env data saved"
  shows "keeps (saved j) (translate (fst env) s ctx st)"
proof -
  have "saved j (snd (translator (fst env) ctx n st w)) = saved j w" for n w
    using pinned_laws(4) [OF assms] by (simp add: keeps_def)
  then show ?thesis
    by (auto simp: keeps_def translate_def split: option.split prod.split sum.split) (metis snd_conv)+
qed

text \<open>Statements run on a connection one after the other.\<close>

datatype ('f, 'i, 'o) request =
    ExecRequest "('f, 'i, 'o) DB ctx" string "named_value list"
  | QueryRequest "('f, 'i, 'o) DB ctx" string "named_value list"

fun serveOne ::
  "('f, 'i, 'o) adapter_env \<Rightarrow> nat \<Rightarrow> ('f, 'i, 'o) request \<Rightarrow> ('f, 'i, 'o) adapter \<Rightarrow> ('f, 'i, 'o) adapter" where
  "serveOne env c (ExecRequest ctx st args) a = snd (driver_ExecContext env c ctx st args a)"
| "serveOne env c (QueryRequest ctx st args) a = snd (driver_QueryContext env c ctx st args a)"

definition serve ::
  "('f, 'i, 'o) adapter_env \<Rightarrow> nat \<Rightarrow> ('f, 'i, 'o) request list \<Rightarrow> ('f, 'i, 'o) adapter \<Rightarrow> ('f, 'i, 'o) adapter" where
  "serve env c rs a = fold (serveOne env c) rs a"

lemma engine_only_objects:
  assumes "engine_only h a b"
  shows "connections b = connections a" "transactions b = transactions a"
  using assms unfolding engine_only_def by (metis adapter.select_convs(1,2) adapter.surjective adapter.update_convs(3))+

lemma statement_saved:
  assumes pin: "pinned_transactional env data saved" and c: "cn_transaction (conn_of a c) = Some t"
    and j: "tx_transaction (tx_of a t) = j"
  shows "engine_only (saved j) a (snd (driver_ExecContext env c ctx st args a))"
    and "engine_only (saved j) a (snd (driver_QueryContext env c ctx st args a))"
proof -
  obtain r a1 where tr: "translateLocked env c ctx st a = (r, a1)" by force
  from engine_only_translateLocked [OF keeps_translate_saved [OF pin] this]
  have a1: "engine_only (saved j) a a1" .
  note engine_only_objects [OF this]
  with c j have ex: "connExec env c a1 = Tx_ExecContext (engine (fst env)) j"
    and qu: "connQuery env c a1 = Tx_QueryContext (engine (fst env)) j"
    by (simp_all add: connExec_def connQuery_def)
  note step = engine_only_trans [OF a1 engine_only_on_engine]
  show "engine_only (saved j) a (snd (driver_ExecContext env c ctx st args a))"
    using a1 tr ex step [OF pinned_laws(5) [OF pin]]
    by (auto simp: driver_ExecContext_def split: prod.split sum.split)
  show "engine_only (saved j) a (snd (driver_QueryContext env c ctx st args a))"
    using a1 tr qu step [OF pinned_laws(6) [OF pin]]
    by (auto simp: driver_QueryContext_def split: prod.split sum.split)
qed

lemma serve_saved:
  assumes pin: "pinned_transactional env data saved" and "cn_transaction (conn_of a c) = Some t"
    and "tx_transaction (tx_of a t) = j"
  shows "engine_only (saved j) a (serve env c rs a)"
  using assms(2,3) unfolding serve_def
proof (induction rs arbitrary: a)
  case (Cons r rs)
  have one: "engine_only (saved j) a (serveOne env c r a)"
    using statement_saved [OF pin Cons.prems] by (cases r) simp_all
  from engine_only_trans [OF one Cons.IH] Cons.prems engine_only_objects [OF one] show ?case by simp
qed simp

lemma BeginTx_saved:
  assumes "pinned_transactional env data saved" and "c < length (connections a)"
    and "BeginTx env c ctx opts a = (Inr t, a1)"
  shows "cn_transaction (conn_of a1 c) = Some t" "owner (tx_of a1 t) = c" "\<not> finished (tx_of a1 t)"
    "c < length (connections a1)" "\<not> cn_closed (conn_of a1 c)"
    "saved (tx_transaction (tx_of a1 t)) (database a1) = Some (data (database a))"
proof -
  from assms(3) have valid: "validLocked a c ctx = None" "cn_transaction (conn_of a c) = None"
    by (auto simp: BeginTx_def split: option.splits if_splits)
  then have opn: "\<not> cn_closed (conn_of a c)" by (auto simp: validLocked_def split: option.splits if_splits)
  obtain s w1 where conn: "Pool_Conn (snd env) ctx (database a) = (s, w1)" by force
  with assms(3) valid obtain k where k: "s = Inr k"
    by (cases s) (simp_all add: BeginTx_def on_engine_def)
  obtain b w2 where beg: "Conn_BeginTx (snd env) k ctx opts w1 = (b, w2)" by force
  with assms(3) valid conn k obtain j where j: "b = Inr j"
    by (cases b) (simp_all add: BeginTx_def on_engine_def split: prod.splits)
  have t: "t = length (transactions a)"
    and a1: "a1 = a\<lparr>connections := (connections a)[c := (conn_of a c)\<lparr>cn_transaction := Some t\<rparr>],
      transactions := transactions a @ [\<lparr>owner = c, tx_connection = k, tx_transaction = j, finished = False\<rparr>],
      database := w2\<rparr>"
    using assms(3) valid conn k beg j by (auto simp: BeginTx_def on_engine_def set_conn_def Let_def)
  have "data w1 = data (database a)" using pinned_laws(1) [OF assms(1), of ctx "database a"] conn by simp
  with pinned_laws(2) [OF assms(1)] beg j have "saved j w2 = Some (data (database a))" by fastforce
  then show "saved (tx_transaction (tx_of a1 t)) (database a1) = Some (data (database a))"
    by (simp add: a1 t)
  show "cn_transaction (conn_of a1 c) = Some t" "c < length (connections a1)" "\<not> cn_closed (conn_of a1 c)"
    using assms(2) opn by (simp_all add: a1)
  show "owner (tx_of a1 t) = c" "\<not> finished (tx_of a1 t)" by (simp_all add: a1 t)
qed

lemma ended_data:
  assumes "pinned_transactional env data saved" and "saved (tx_transaction (tx_of a t)) (database a) = Some d"
  shows "data (database (ended env t x (Tx_Rollback (engine (fst env)) (tx_transaction (tx_of a t))) a)) = d"
  using pinned_laws(3,7) [OF assms(1)] assms(2) by (simp add: ended_def)


lemma ex_transactional: "pinned_transactional ex_env ex_data ex_saved"
  by (auto simp: pinned_transactional_def ex_defs ex_data_def ex_saved_def split: prod.splits)


section \<open>Rows\<close>

text \<open>
  How \<^verbatim>\<open>database/sql\<close> reads rows: \<^verbatim>\<open>Next\<close> until it reports an error, of which \<^verbatim>\<open>io.EOF\<close> is
  the end of the rows.
\<close>

primrec drain :: "nat \<Rightarrow> sqlRows \<Rightarrow> (go_error + govalue list list) option" where
  "drain 0 r = None"
| "drain (Suc fuel) r =
     (case rows_Next r of
        Inl e \<Rightarrow> Some (if e = Std IoEOF then Inr [] else Inl e)
      | Inr (vals, r') \<Rightarrow>
          (case drain fuel r' of
             None \<Rightarrow> None
           | Some (Inl e) \<Rightarrow> Some (Inl e)
           | Some (Inr rest) \<Rightarrow> Some (Inr (vals # rest))))"

lemma scannedRow_clone [simp]: "scannedRow cs (map cloneDriverValue vs) = scannedRow cs vs"
proof -
  have "foldl (\<lambda>acc (c, v). AList.update c (cloneDriverValue v) acc) acc (zip cs (map cloneDriverValue vs)) =
      foldl (\<lambda>acc (c, v). AList.update c (cloneDriverValue v) acc) acc (zip cs vs)" for acc
    by (induction cs vs arbitrary: acc rule: list_induct2') simp_all
  then show ?thesis by (simp add: scannedRow_def)
qed

lemma drain_exact:
  "length (rs_scans (rw_rows r)) < fuel \<Longrightarrow>
   drain fuel r = Some (case scanRows cs (rs_scans (rw_rows r)) [] of
      Inl e \<Rightarrow> Inl (executionError (rw_statement r) e)
    | Inr rs \<Rightarrow> (case rs_err (rw_rows r) of
         Some e \<Rightarrow> Inl (executionError (rw_statement r) e)
       | None \<Rightarrow> Inr (map (map cloneDriverValue \<circ> projr) (rs_scans (rw_rows r)))))"
proof (induction fuel arbitrary: r)
  case (Suc fuel)
  show ?case
  proof (cases "rs_scans (rw_rows r)")
    case Nil
    then show ?thesis by (simp add: rows_Next_def executionError_def split: option.split)
  next
    case (Cons s scans)
    show ?thesis
    proof (cases s)
      case (Inl e)
      with Cons show ?thesis by (simp add: rows_Next_def executionError_def)
    next
      case (Inr vals)
      let ?r = "r\<lparr>rw_rows := (rw_rows r)\<lparr>rs_scans := scans\<rparr>\<rparr>"
      have "drain fuel ?r = Some (case scanRows cs scans [] of
          Inl e \<Rightarrow> Inl (executionError (rw_statement r) e)
        | Inr rs \<Rightarrow> (case rs_err (rw_rows r) of
             Some e \<Rightarrow> Inl (executionError (rw_statement r) e)
           | None \<Rightarrow> Inr (map (map cloneDriverValue \<circ> projr) scans)))"
        using Suc.IH [of ?r] Suc.prems Cons by (simp split: sum.split option.split)
      with Cons Inr scanRows_acc [of cs scans "[scannedRow cs vals]"] show ?thesis
        by (cases "scanRows cs scans []"; cases "rs_err (rw_rows r)") (simp_all add: rows_Next_def)
    qed
  qed
qed simp

text \<open>
  C36: reading a query through the adapter ends after as many steps as there are rows and
  one more, and agrees with the package's own materialized query: the same rows with the
  same values, and an error exactly if that fails, with the same cause and with the
  statement and its SQLSTATE attached.
\<close>

theorem adapter_rows_end:
  assumes "newSQLRows statement rows = Inr r" and "length (rs_scans rows) < fuel"
  shows "\<exists>out. drain fuel r = Some out
    \<and> (case out of
         Inl e \<Rightarrow> (\<exists>cause. materializeRows rows = Inl cause \<and> e = executionError statement cause)
       | Inr vss \<Rightarrow> materializeRows rows = Inr (map (scannedRow (rows_Columns r)) vss))"
proof -
  obtain cs where cs: "rs_columns rows = Inr cs"
    and r: "r = \<lparr>rw_statement = statement, rw_rows = rows, rw_columns = cs\<rparr>"
    using assms(1) by (cases "rs_columns rows") (simp_all add: newSQLRows_def)
  have drained: "drain fuel r = Some (case scanRows cs (rs_scans rows) [] of
      Inl e \<Rightarrow> Inl (executionError statement e)
    | Inr rs \<Rightarrow> (case rs_err rows of
         Some e \<Rightarrow> Inl (executionError statement e)
       | None \<Rightarrow> Inr (map (map cloneDriverValue \<circ> projr) (rs_scans rows))))"
    using drain_exact [of r fuel cs] assms(2) by (simp add: r split: sum.split option.split)
  show ?thesis
  proof (cases "scanRows cs (rs_scans rows) []")
    case (Inl e)
    then show ?thesis by (simp add: drained cs materializeRows_def)
  next
    case (Inr rs)
    then obtain vs where vs: "rs_scans rows = map Inr vs" "rs = map (scannedRow cs) vs"
      by (auto simp: scanRows_Inr_iff)
    show ?thesis
    proof (cases "rs_err rows")
      case None
      with Inr vs have "drain fuel r = Some (Inr (map (map cloneDriverValue) vs))"
        by (simp add: drained comp_def)
      moreover have "materializeRows rows = Inr (map (scannedRow cs) (map (map cloneDriverValue) vs))"
        using None Inr vs by (simp add: cs materializeRows_def comp_def)
      ultimately show ?thesis by (simp add: r rows_Columns_def)
    next
      case (Some e)
      then show ?thesis by (simp add: drained cs Inr materializeRows_def)
    qed
  qed
qed

theorem adapter_rows_end_witness:
  "\<exists>r. newSQLRows ''select'' ex_rows = Inr r
     \<and> drain 3 r = Some (Inr [[VInt64 7], [VBytes (Some '''')]])
     \<and> materializeRows ex_rows = Inr (map (scannedRow [''n'']) [[VInt64 7], [VBytes (Some '''')]])"
proof -
  let ?r = "\<lparr>rw_statement = ''select'', rw_rows = ex_rows, rw_columns = [''n'']\<rparr>"
  have new: "newSQLRows ''select'' ex_rows = Inr ?r" by (simp add: newSQLRows_def ex_rows_def)
  have "drain 3 ?r = Some (Inr [[VInt64 7], [VBytes (Some '''')]])"
    by (simp add: numeral_3_eq_3 rows_Next_def ex_rows_def)
  with new adapter_rows_end [OF new, of 3] show ?thesis by (simp add: ex_rows_def rows_Columns_def)
qed

end
