(* ===== verification/Backup.thy ===== *)
theory Backup imports Driver Fallible
begin

text \<open>
  Models \<^verbatim>\<open>backup.go\<close>: taking a backup of the public and every named schema, and restoring
  it by preparing a replacement for every named schema before the live connection is
  touched.  The operations hold \<^verbatim>\<open>topologyMu\<close> and the read lock of the database for their
  whole duration.  \<^verbatim>\<open>restoreSequence\<close> is a variable of the process.
\<close>

section \<open>Environment and state\<close>

text \<open>
  What \<^verbatim>\<open>sql.Conn.Raw\<close> passes to its argument: the driver's connection, with the methods
  it has beyond the required ones, \<^term>\<open>None\<close> where the type assertion fails.
\<close>

record 'w driver_conn =
  Serialize :: "('w \<Rightarrow> (go_error + string option) \<times> 'w) option"
  Deserialize :: "(string option \<Rightarrow> 'w \<Rightarrow> go_error option \<times> 'w) option"
  NewRestore :: "(string \<Rightarrow> 'w \<Rightarrow> (go_error + nat) \<times> 'w) option"

text \<open>
  The methods of \<^verbatim>\<open>sql.Conn\<close>, of the driver's \<^verbatim>\<open>Backup\<close>, of a database opened on a URI and
  of \<^verbatim>\<open>os\<close>.  A temporary file is known by its path.
\<close>

record 'w storage_engine =
  Conn_Raw :: "nat \<Rightarrow> 'w \<Rightarrow> (go_error + 'w driver_conn) \<times> 'w"
  Conn_QueryRowScan :: "nat \<Rightarrow> 'w ctx \<Rightarrow> string \<Rightarrow> 'w \<Rightarrow> (go_error + 64 word) \<times> 'w"
  Conn_ExecContext :: "nat \<Rightarrow> 'w ctx \<Rightarrow> string \<Rightarrow> govalue list \<Rightarrow> 'w \<Rightarrow> (go_error + exec_result) \<times> 'w"
  Restore_Step :: "nat \<Rightarrow> int \<Rightarrow> 'w \<Rightarrow> go_error option \<times> 'w"
  Restore_Finish :: "nat \<Rightarrow> 'w \<Rightarrow> go_error option \<times> 'w"
  sqlite_Open :: "string \<Rightarrow> 'w \<Rightarrow> (go_error + nat) \<times> 'w"
  Opened_Conn :: "nat \<Rightarrow> 'w ctx \<Rightarrow> 'w \<Rightarrow> (go_error + nat) \<times> 'w"
  Opened_Close :: "nat \<Rightarrow> 'w \<Rightarrow> go_error option \<times> 'w"
  os_CreateTemp :: "string \<Rightarrow> 'w \<Rightarrow> (go_error + string) \<times> 'w"
  File_Write :: "string \<Rightarrow> string option \<Rightarrow> 'w \<Rightarrow> go_error option \<times> 'w"
  File_Close :: "string \<Rightarrow> 'w \<Rightarrow> go_error option \<times> 'w"
  os_Remove :: "string \<Rightarrow> 'w \<Rightarrow> go_error option \<times> 'w"
  os_ReadFile :: "string \<Rightarrow> 'w \<Rightarrow> (go_error + string option) \<times> 'w"

record ('f, 'i, 'o) vault =
  restoreSequence :: "64 word"
  live :: "('f, 'i, 'o) DB"

type_synonym ('f, 'i, 'o) backup_env =
  "('f, 'i, 'o) DB pool_engine \<times> ('f, 'i, 'o) DB storage_engine"

definition onLive :: "(('f, 'i, 'o) DB \<Rightarrow> 'r \<times> ('f, 'i, 'o) DB) \<Rightarrow> ('f, 'i, 'o) vault \<Rightarrow> 'r \<times> ('f, 'i, 'o) vault" where
  "onLive f v = (case f (live v) of (r, db) \<Rightarrow> (r, v\<lparr>live := db\<rparr>))"

record backup =
  backup_database :: bool
  schemaNames :: "string list"
  schemaVersions :: "string \<Rightarrow> 64 word option"
  images :: "string \<Rightarrow> string option option"

section \<open>Helpers\<close>

text \<open>A byte slice is \<^term>\<open>None\<close> when nil; appending nothing to a nil slice leaves it nil.\<close>

definition cloneBytes :: "string option \<Rightarrow> string option" where
  "cloneBytes value = (case value of None \<Rightarrow> None | Some [] \<Rightarrow> None | Some (b # bs) \<Rightarrow> Some (b # bs))"

definition equalStrings :: "string list \<Rightarrow> string list \<Rightarrow> bool" where
  "equalStrings left right \<longleftrightarrow>
     length left = length right \<and> list_all (\<lambda>index. left ! index = right ! index) [0..<length left]"

definition schemaNamesLocked :: "('f, 'i, 'o) DB \<Rightarrow> string list" where
  "schemaNamesLocked db = sort_strings (map fst (schemas db))"

text \<open>The verbs \<^verbatim>\<open>%d\<close> of an \<^verbatim>\<open>int64\<close> and \<^verbatim>\<open>%v\<close> of a string slice.\<close>

definition int_text :: "64 word \<Rightarrow> string" where
  "int_text n = (if sint n < 0 then ''-'' @ decimal (nat (- sint n)) else decimal (nat (sint n)))"

definition slice_text :: "string list \<Rightarrow> string" where
  "slice_text xs = ''['' @ join xs '' '' @ '']''"

fun readSchemaVersions ::
  "('f, 'i, 'o) backup_env \<Rightarrow> ('f, 'i, 'o) DB ctx \<Rightarrow> nat \<Rightarrow> string list \<Rightarrow> (string \<Rightarrow> 64 word option)
     \<Rightarrow> (('f, 'i, 'o) vault, string \<Rightarrow> 64 word option) fallible" where
  "readSchemaVersions env ctx connection [] versions = yields versions"
| "readSchemaVersions env ctx connection (name # names) versions =
     andThen (\<lambda>v. case onLive (Conn_QueryRowScan (snd env) connection ctx
           (''PRAGMA '' @ quoteIdentifier (engineSchemaName name) @ ''.schema_version'')) v of
         (Inl e, v') \<Rightarrow> (Inl (Wrapf (''read schema '' @ go_quote name @ '' version: '') e ''''), v')
       | (Inr version, v') \<Rightarrow> (Inr version, v'))
     (\<lambda>version. readSchemaVersions env ctx connection names (versions(name \<mapsto> version)))"

definition serializeConnection ::
  "('f, 'i, 'o) backup_env \<Rightarrow> nat \<Rightarrow> (('f, 'i, 'o) vault, string option) fallible" where
  "serializeConnection env connection =
     andThen (onLive (Conn_Raw (snd env) connection)) (\<lambda>driverConnection.
       case Serialize driverConnection of
         None \<Rightarrow> fails (ErrorText ''embedded SQLite connection does not support serialization'')
       | Some serialize \<Rightarrow> andThen (onLive serialize) (\<lambda>serialized. yields (cloneBytes serialized)))"

definition deserializeConnection ::
  "('f, 'i, 'o) backup_env \<Rightarrow> nat \<Rightarrow> string option \<Rightarrow> (('f, 'i, 'o) vault, unit) fallible" where
  "deserializeConnection env connection img =
     andThen (onLive (Conn_Raw (snd env) connection)) (\<lambda>driverConnection.
       case Deserialize driverConnection of
         None \<Rightarrow> fails (ErrorText ''embedded SQLite connection does not support deserialization'')
       | Some deserialize \<Rightarrow> must (onLive (deserialize (cloneBytes img))))"

definition vacuumStatement :: "string \<Rightarrow> string \<Rightarrow> string" where
  "vacuumStatement name path = ''VACUUM '' @ quoteIdentifier name @ '' INTO '' @ quoteStringLiteral path"

definition vacuumSchemaImage ::
  "('f, 'i, 'o) backup_env \<Rightarrow> ('f, 'i, 'o) DB ctx \<Rightarrow> nat \<Rightarrow> string
     \<Rightarrow> (('f, 'i, 'o) vault, string option) fallible" where
  "vacuumSchemaImage env ctx connection name =
     andThen (onLive (os_CreateTemp (snd env) ''pgmem-backup-*.sqlite'')) (\<lambda>path.
     andThen (onError (onLive (os_Remove (snd env) path)) (must (onLive (File_Close (snd env) path)))) (\<lambda>_.
     andThen (must (onLive (os_Remove (snd env) path))) (\<lambda>_.
     deferred (onLive (os_Remove (snd env) path))
       (andThen (onLive (Conn_ExecContext (snd env) connection ctx (vacuumStatement name path) [])) (\<lambda>_.
        onLive (os_ReadFile (snd env) path))))))"

section \<open>Taking a backup\<close>

fun vacuumImages ::
  "('f, 'i, 'o) backup_env \<Rightarrow> ('f, 'i, 'o) DB ctx \<Rightarrow> nat \<Rightarrow> string list \<Rightarrow> (string \<Rightarrow> string option option)
     \<Rightarrow> (('f, 'i, 'o) vault, string \<Rightarrow> string option option) fallible" where
  "vacuumImages env ctx connection [] imgs = yields imgs"
| "vacuumImages env ctx connection (name # names) imgs =
     (if name = ''public'' then vacuumImages env ctx connection names imgs
      else andThen (wrapping (''pgmem: back up schema '' @ go_quote name @ '': '')
             (vacuumSchemaImage env ctx connection name)) (\<lambda>img.
           vacuumImages env ctx connection names (imgs(name \<mapsto> cloneBytes img))))"

text \<open>
  The receiver is the live database, or nil.  The schema names are those at the time the
  connection has been acquired.
\<close>

definition takeImages ::
  "('f, 'i, 'o) backup_env \<Rightarrow> ('f, 'i, 'o) DB ctx \<Rightarrow> nat \<Rightarrow> string list \<Rightarrow> (('f, 'i, 'o) vault, backup) fallible" where
  "takeImages env ctx connection names =
     andThen (wrapping ''pgmem: read schema versions for backup: ''
       (readSchemaVersions env ctx connection names Map.empty)) (\<lambda>versions.
     andThen (wrapping ''pgmem: back up public schema: '' (serializeConnection env connection)) (\<lambda>mainImage.
     andThen (vacuumImages env ctx connection names (Map.empty(''public'' \<mapsto> cloneBytes mainImage))) (\<lambda>imgs.
     yields \<lparr>backup_database = True, schemaNames = names, schemaVersions = versions, images = imgs\<rparr>)))"

definition BackupContext ::
  "('f, 'i, 'o) backup_env \<Rightarrow> bool \<Rightarrow> ('f, 'i, 'o) DB ctx \<Rightarrow> (('f, 'i, 'o) vault, backup) fallible" where
  "BackupContext env receiver ctx v =
     (if \<not> receiver then (Inl (Sentinel ErrClosed), v)
      else if db_closed (live v) then (Inl (Sentinel ErrClosed), v)
      else andThen (wrapping ''pgmem: acquire connection for backup: '' (onLive (Pool_Conn (fst env) ctx)))
        (\<lambda>connection. deferred (onLive (Conn_Close (fst env) connection))
          (\<lambda>v1. takeImages env ctx connection (schemaNamesLocked (live v1)) v1)) v)"

definition takeBackup ::
  "('f, 'i, 'o) backup_env \<Rightarrow> bool \<Rightarrow> (('f, 'i, 'o) vault, backup) fallible" where
  "takeBackup env receiver = BackupContext env receiver Background"

section \<open>Replacements for named schemas\<close>

record restoredSchemaHolder =
  holder_name :: string
  holder_uri :: string
  holder_database :: nat
  holder_connection :: nat

definition holder_close ::
  "('f, 'i, 'o) backup_env \<Rightarrow> restoredSchemaHolder \<Rightarrow> ('f, 'i, 'o) vault \<Rightarrow> unit \<times> ('f, 'i, 'o) vault" where
  "holder_close env h v =
     ((), snd (onLive (Opened_Close (snd env) (holder_database h))
            (snd (onLive (Conn_Close (fst env) (holder_connection h)) v))))"

fun closeHolders ::
  "('f, 'i, 'o) backup_env \<Rightarrow> restoredSchemaHolder list \<Rightarrow> ('f, 'i, 'o) vault \<Rightarrow> unit \<times> ('f, 'i, 'o) vault" where
  "closeHolders env [] v = ((), v)"
| "closeHolders env (h # hs) v = closeHolders env hs (snd (holder_close env h v))"

definition restoreConnectionFromURI ::
  "('f, 'i, 'o) backup_env \<Rightarrow> nat \<Rightarrow> string \<Rightarrow> (('f, 'i, 'o) vault, unit) fallible" where
  "restoreConnectionFromURI env connection sourceURI =
     andThen (onLive (Conn_Raw (snd env) connection)) (\<lambda>driverConnection.
       case NewRestore driverConnection of
         None \<Rightarrow> fails (ErrorText ''embedded SQLite connection does not support online restore'')
       | Some newRestore \<Rightarrow>
           andThen (onLive (newRestore sourceURI)) (\<lambda>restore v.
             case onLive (Restore_Step (snd env) restore (-1)) v of (stepErr, v1) \<Rightarrow>
             (case onLive (Restore_Finish (snd env) restore) v1 of (finishErr, v2) \<Rightarrow>
               (case stepErr of
                  Some e \<Rightarrow> (Inl e, v2)
                | None \<Rightarrow> (case finishErr of Some e \<Rightarrow> (Inl e, v2) | None \<Rightarrow> (Inr (), v2))))))"

definition restoreURI :: "64 word \<Rightarrow> string" where
  "restoreURI n = ''file:pgmem-restore-'' @ decimal (unat n) @ ''?mode=memory&cache=shared''"

text \<open>\<^verbatim>\<open>restoreSequence.Add(1)\<close>\<close>

definition nextRestore :: "('f, 'i, 'o) vault \<Rightarrow> (go_error + 64 word) \<times> ('f, 'i, 'o) vault" where
  "nextRestore v = (Inr (restoreSequence v + 1), v\<lparr>restoreSequence := restoreSequence v + 1\<rparr>)"

definition openHolder ::
  "('f, 'i, 'o) backup_env \<Rightarrow> ('f, 'i, 'o) DB ctx \<Rightarrow> string \<Rightarrow> string
     \<Rightarrow> (('f, 'i, 'o) vault, restoredSchemaHolder) fallible" where
  "openHolder env ctx name sourcePath =
     andThen nextRestore (\<lambda>seq.
     andThen (onLive (sqlite_Open (snd env) (restoreURI seq))) (\<lambda>db.
     andThen (onError (onLive (Opened_Close (snd env) db)) (onLive (Opened_Conn (snd env) db ctx))) (\<lambda>connection.
     let holder = \<lparr>holder_name = name, holder_uri = restoreURI seq, holder_database = db,
           holder_connection = connection\<rparr>
     in andThen (onError (holder_close env holder) (restoreConnectionFromURI env connection sourcePath)) (\<lambda>_.
        yields holder))))"

definition openRestoredSchema ::
  "('f, 'i, 'o) backup_env \<Rightarrow> ('f, 'i, 'o) DB ctx \<Rightarrow> string \<Rightarrow> string option
     \<Rightarrow> (('f, 'i, 'o) vault, restoredSchemaHolder) fallible" where
  "openRestoredSchema env ctx name img =
     andThen (onLive (os_CreateTemp (snd env) ''pgmem-restore-source-*.sqlite'')) (\<lambda>sourcePath.
     deferred (onLive (os_Remove (snd env) sourcePath))
       (andThen (onError (onLive (File_Close (snd env) sourcePath))
           (must (onLive (File_Write (snd env) sourcePath (cloneBytes img))))) (\<lambda>_.
        andThen (must (onLive (File_Close (snd env) sourcePath))) (\<lambda>_.
        openHolder env ctx name sourcePath))))"

section \<open>Restoring\<close>

definition image_of :: "backup \<Rightarrow> string \<Rightarrow> string option" where
  "image_of b name = (case images b name of None \<Rightarrow> None | Some img \<Rightarrow> img)"

definition version_of :: "(string \<Rightarrow> 64 word option) \<Rightarrow> string \<Rightarrow> 64 word" where
  "version_of versions name = (case versions name of None \<Rightarrow> 0 | Some n \<Rightarrow> n)"

definition topologyChanged :: "string list \<Rightarrow> string list \<Rightarrow> go_error" where
  "topologyChanged current saved =
     Wrapf '''' (Sentinel ErrSchemaChanged)
       ('': named schemas are now '' @ slice_text current @ '', backup has '' @ slice_text saved)"

definition versionChanged :: "string \<Rightarrow> 64 word \<Rightarrow> 64 word \<Rightarrow> go_error" where
  "versionChanged name current saved =
     Wrapf '''' (Sentinel ErrSchemaChanged)
       ('': schema '' @ go_quote name @ '' version is '' @ int_text current @ '', backup version is '' @ int_text saved)"

fun checkVersions ::
  "string list \<Rightarrow> (string \<Rightarrow> 64 word option) \<Rightarrow> (string \<Rightarrow> 64 word option) \<Rightarrow> ('w, unit) fallible" where
  "checkVersions [] current saved = yields ()"
| "checkVersions (name # names) current saved =
     (if version_of current name \<noteq> version_of saved name
      then fails (versionChanged name (version_of current name) (version_of saved name))
      else checkVersions names current saved)"

text \<open>The replacements made so far are returned with an error too: they must be closed.\<close>

fun prepareHolders ::
  "('f, 'i, 'o) backup_env \<Rightarrow> ('f, 'i, 'o) DB ctx \<Rightarrow> backup \<Rightarrow> string list \<Rightarrow> restoredSchemaHolder list
     \<Rightarrow> ('f, 'i, 'o) vault \<Rightarrow> (go_error option \<times> restoredSchemaHolder list) \<times> ('f, 'i, 'o) vault" where
  "prepareHolders env ctx b [] holders v = ((None, holders), v)"
| "prepareHolders env ctx b (name # names) holders v =
     (if name = ''public'' then prepareHolders env ctx b names holders v
      else (case openRestoredSchema env ctx name (image_of b name) v of
          (Inl e, v') \<Rightarrow>
            ((Some (Wrapf (''pgmem: prepare schema '' @ go_quote name @ '' for restore: '') e ''''), holders), v')
        | (Inr holder, v') \<Rightarrow> prepareHolders env ctx b names (holders @ [holder]) v'))"

definition detachStatement :: "string \<Rightarrow> string" where
  "detachStatement name = ''DETACH DATABASE '' @ quoteIdentifier name"

definition reattachStatement :: "string \<Rightarrow> string" where
  "reattachStatement name = ''ATTACH DATABASE ? AS '' @ quoteIdentifier name"

fun attachHolders ::
  "('f, 'i, 'o) backup_env \<Rightarrow> ('f, 'i, 'o) DB ctx \<Rightarrow> nat \<Rightarrow> restoredSchemaHolder list
     \<Rightarrow> (('f, 'i, 'o) vault, unit) fallible" where
  "attachHolders env commitCtx connection [] = yields ()"
| "attachHolders env commitCtx connection (holder # holders) =
     andThen (wrapping (''pgmem: detach schema '' @ go_quote (holder_name holder) @ '' for restore: '')
       (onLive (Conn_ExecContext (snd env) connection commitCtx (detachStatement (holder_name holder)) []))) (\<lambda>_.
     andThen (wrapping (''pgmem: attach restored schema '' @ go_quote (holder_name holder) @ '': '')
       (onLive (Conn_ExecContext (snd env) connection commitCtx (reattachStatement (holder_name holder))
         [VString (holder_uri holder)]))) (\<lambda>_.
     attachHolders env commitCtx connection holders))"

text \<open>The last check of the context, and the part of a restore that no cancellation interrupts.\<close>

definition commitRestore ::
  "('f, 'i, 'o) backup_env \<Rightarrow> ('f, 'i, 'o) DB ctx \<Rightarrow> backup \<Rightarrow> nat \<Rightarrow> restoredSchemaHolder list
     \<Rightarrow> (('f, 'i, 'o) vault, unit) fallible" where
  "commitRestore env ctx b connection holders v =
     (case ctx (live v) of
        Some e \<Rightarrow> (Inl e, v)
      | None \<Rightarrow>
          andThen (wrapping ''pgmem: restore public schema: ''
            (deserializeConnection env connection (image_of b ''public''))) (\<lambda>_.
          attachHolders env (WithoutCancel ctx) connection holders) v)"

definition restoreImages ::
  "('f, 'i, 'o) backup_env \<Rightarrow> ('f, 'i, 'o) DB ctx \<Rightarrow> backup \<Rightarrow> nat \<Rightarrow> string list
     \<Rightarrow> (('f, 'i, 'o) vault, unit) fallible" where
  "restoreImages env ctx b connection currentNames =
     andThen (wrapping ''pgmem: validate public schema for restore: ''
       (openRestoredSchema env ctx ''public'' (image_of b ''public''))) (\<lambda>publicValidation v.
     case prepareHolders env ctx b currentNames [] (snd (holder_close env publicValidation v)) of
       ((err, holders), v1) \<Rightarrow>
         deferred (closeHolders env holders)
           (case err of Some e \<Rightarrow> fails e | None \<Rightarrow> commitRestore env ctx b connection holders) v1)"

definition RestoreContext ::
  "('f, 'i, 'o) backup_env \<Rightarrow> backup option \<Rightarrow> ('f, 'i, 'o) DB ctx \<Rightarrow> (('f, 'i, 'o) vault, unit) fallible" where
  "RestoreContext env receiver ctx v =
     (case receiver of
        None \<Rightarrow> (Inl (ErrorText ''pgmem: backup is nil''), v)
      | Some b \<Rightarrow>
          if \<not> backup_database b then (Inl (ErrorText ''pgmem: backup is nil''), v)
          else if db_closed (live v) then (Inl (Sentinel ErrClosed), v)
          else (let currentNames = schemaNamesLocked (live v) in
            if \<not> equalStrings currentNames (schemaNames b)
            then (Inl (topologyChanged currentNames (schemaNames b)), v)
            else andThen (wrapping ''pgmem: acquire connection for restore: '' (onLive (Pool_Conn (fst env) ctx)))
              (\<lambda>connection. deferred (onLive (Conn_Close (fst env) connection))
                (andThen (wrapping ''pgmem: read schema versions before restore: ''
                    (readSchemaVersions env ctx connection currentNames Map.empty)) (\<lambda>currentVersions.
                 andThen (checkVersions currentNames currentVersions (schemaVersions b)) (\<lambda>_.
                 restoreImages env ctx b connection currentNames)))) v))"

definition Restore ::
  "('f, 'i, 'o) backup_env \<Rightarrow> backup option \<Rightarrow> (('f, 'i, 'o) vault, unit) fallible" where
  "Restore env receiver = RestoreContext env receiver Background"

end
