(* ===== verification/BackupCorrect.thy ===== *)
theory BackupCorrect imports Backup
begin

text \<open>
  Correctness of \<^verbatim>\<open>backup.go\<close>, first part: what backups and restores leave as it was on
  each of their paths, which changes of the schemas a restore rejects, and that they give
  back every connection and close every database they open.
\<close>

section \<open>Steps on the live database\<close>

lemma onLive_state: "onLive f v = (fst (f (live v)), v\<lparr>live := snd (f (live v))\<rparr>)"
  by (simp add: onLive_def split: prod.split)

lemma onLive_iff: "onLive f v = (r, v') \<longleftrightarrow> (\<exists>db. f (live v) = (r, db) \<and> v' = v\<lparr>live := db\<rparr>)"
  by (auto simp: onLive_def split: prod.split)

lemma keeps_onLive [keep_rules]: "keeps obs f \<Longrightarrow> keeps (\<lambda>v. obs (live v)) (onLive f)"
  by (simp add: keeps_def onLive_state)

lemma keeps_nextRestore [keep_rules]: "keeps (\<lambda>v. obs (live v)) nextRestore"
  by (simp add: keeps_def nextRestore_def)

lemma equalStrings_eq [simp]: "equalStrings xs ys \<longleftrightarrow> xs = ys"
  unfolding equalStrings_def list_all_iff list_eq_iff_nth_eq set_upt by (simp add: Ball_def)

section \<open>What the operations leave alone\<close>

text \<open>
  The operations that only read the live database, work on files or prepare a replacement:
  what is observed of the state does not change.
\<close>

definition steady_driver :: "('w \<Rightarrow> 'd) \<Rightarrow> 'w driver_conn \<Rightarrow> bool" where
  "steady_driver obs d \<longleftrightarrow>
     (\<forall>f. Serialize d = Some f \<longrightarrow> keeps obs f)
   \<and> (\<forall>f p. NewRestore d = Some f \<longrightarrow> keeps obs (f p))"

definition steady :: "('f, 'i, 'o) backup_env \<Rightarrow> (('f, 'i, 'o) DB \<Rightarrow> 'd) \<Rightarrow> bool" where
  "steady env obs \<longleftrightarrow>
     (\<forall>k. keeps obs (Conn_Raw (snd env) k))
   \<and> (\<forall>k w d w'. Conn_Raw (snd env) k w = (Inr d, w') \<longrightarrow> steady_driver obs d)
   \<and> (\<forall>k ctx st. keeps obs (Conn_QueryRowScan (snd env) k ctx st))
   \<and> (\<forall>k ctx name path. keeps obs (Conn_ExecContext (snd env) k ctx (vacuumStatement name path) []))
   \<and> (\<forall>r n. keeps obs (Restore_Step (snd env) r n))
   \<and> (\<forall>r. keeps obs (Restore_Finish (snd env) r))
   \<and> (\<forall>p. keeps obs (os_CreateTemp (snd env) p))
   \<and> (\<forall>p b. keeps obs (File_Write (snd env) p b))
   \<and> (\<forall>p. keeps obs (File_Close (snd env) p))
   \<and> (\<forall>p. keeps obs (os_Remove (snd env) p))
   \<and> (\<forall>p. keeps obs (os_ReadFile (snd env) p))"

lemma steady_laws:
  assumes "steady env obs"
  shows "keeps obs (Conn_Raw (snd env) k)" "keeps obs (Conn_QueryRowScan (snd env) k ctx st)"
    "keeps obs (Conn_ExecContext (snd env) k ctx (vacuumStatement name path) [])"
    "keeps obs (Restore_Step (snd env) r n)" "keeps obs (Restore_Finish (snd env) r)"
    "keeps obs (os_CreateTemp (snd env) p)" "keeps obs (File_Write (snd env) p b)"
    "keeps obs (File_Close (snd env) p)" "keeps obs (os_Remove (snd env) p)"
    "keeps obs (os_ReadFile (snd env) p)"
  using assms unfolding steady_def by (elim conjE; simp)+

lemma steady_raw:
  assumes "steady env obs" and "Conn_Raw (snd env) k w = (Inr d, w')"
  shows "Serialize d = Some f \<Longrightarrow> keeps obs f"
    and "NewRestore d = Some g \<Longrightarrow> keeps obs (g p)"
proof -
  have "\<forall>k w d w'. Conn_Raw (snd env) k w = (Inr d, w') \<longrightarrow> steady_driver obs d"
    using assms(1) unfolding steady_def by (elim conjE)
  with assms(2) have "steady_driver obs d" by blast
  then show "Serialize d = Some f \<Longrightarrow> keeps obs f"
    and "NewRestore d = Some g \<Longrightarrow> keeps obs (g p)"
    unfolding steady_driver_def by blast+
qed

text \<open>A step after \<^verbatim>\<open>Raw\<close>.\<close>

lemma keeps_Raw:
  assumes steady: "steady env obs"
    and k: "\<And>w d w'. Conn_Raw (snd env) c w = (Inr d, w') \<Longrightarrow> keeps (\<lambda>v. obs (live v)) (k d)"
  shows "keeps (\<lambda>v. obs (live v)) (andThen (onLive (Conn_Raw (snd env) c)) k)"
proof -
  have "obs (live (snd (andThen (onLive (Conn_Raw (snd env) c)) k v))) = obs (live v)" for v
  proof -
    obtain r w where raw: "Conn_Raw (snd env) c (live v) = (r, w)" by force
    have w: "obs w = obs (live v)" using keepsD [OF steady_laws(1) [OF steady] raw] .
    show ?thesis
    proof (cases r)
      case (Inr d)
      with raw w keeps_snd [OF k [of "live v" d w], of "v\<lparr>live := w\<rparr>"] show ?thesis
        by (simp add: andThen_def onLive_def)
    qed (simp add: andThen_def onLive_def raw w)
  qed
  then show ?thesis by (simp add: keeps_def)
qed

lemma keeps_readSchemaVersions:
  assumes "steady env obs"
  shows "keeps (\<lambda>v. obs (live v)) (readSchemaVersions env ctx c names versions)"
proof (induction names arbitrary: versions)
  case (Cons name names)
  have "keeps (\<lambda>v. obs (live v)) (\<lambda>v. case onLive (Conn_QueryRowScan (snd env) c ctx st) v of
         (Inl e, v') \<Rightarrow> (Inl (f e), v') | (Inr version, v') \<Rightarrow> (Inr version, v'))" for st and f :: "go_error \<Rightarrow> go_error"
    using keepsD [OF keeps_onLive [OF steady_laws(2) [OF assms]], of c ctx st]
    by (auto simp: keeps_def split: prod.split sum.split)
  then show ?case by (simp add: keeps_andThen Cons.IH)
qed (simp add: keep_rules)

lemma keeps_serializeConnection:
  assumes "steady env obs"
  shows "keeps (\<lambda>v. obs (live v)) (serializeConnection env c)"
  unfolding serializeConnection_def
  by (rule keeps_Raw [OF assms]) (auto split: option.split intro!: keep_rules dest: steady_raw(1) [OF assms])

lemma keeps_vacuumSchemaImage:
  assumes "steady env obs"
  shows "keeps (\<lambda>v. obs (live v)) (vacuumSchemaImage env ctx c name)"
  unfolding vacuumSchemaImage_def by (intro keep_rules steady_laws [OF assms])

lemma keeps_vacuumImages:
  assumes "steady env obs"
  shows "keeps (\<lambda>v. obs (live v)) (vacuumImages env ctx c names imgs)"
proof (induction names arbitrary: imgs)
  case (Cons name names)
  then show ?case by (simp add: keep_rules keeps_vacuumSchemaImage [OF assms])
qed (simp add: keep_rules)

lemma keeps_takeImages:
  assumes "steady env obs"
  shows "keeps (\<lambda>v. obs (live v)) (takeImages env ctx c names)"
  unfolding takeImages_def
  by (intro keep_rules keeps_readSchemaVersions keeps_serializeConnection keeps_vacuumImages assms)

lemma keeps_restoreConnection:
  assumes "steady env obs"
  shows "keeps (\<lambda>v. obs (live v)) (restoreConnectionFromURI env c p)"
proof -
  have step: "keeps (\<lambda>v. obs (live v)) (\<lambda>v. case onLive (Restore_Step (snd env) r n) v of (stepErr, v1) \<Rightarrow>
       (case onLive (Restore_Finish (snd env) r) v1 of (finishErr, v2) \<Rightarrow>
         (case stepErr of Some e \<Rightarrow> (Inl e, v2)
          | None \<Rightarrow> (case finishErr of Some e \<Rightarrow> (Inl e, v2) | None \<Rightarrow> (Inr (), v2)))))" for r n
    using steady_laws(4,5) [OF assms]
    by (auto simp: keeps_def onLive_state split: option.split)
  show ?thesis
    unfolding restoreConnectionFromURI_def
    by (rule keeps_Raw [OF assms])
      (auto split: option.split intro!: keep_rules step dest: steady_raw(2) [OF assms])
qed

section \<open>Data\<close>

text \<open>
  The documented behaviour of the operations on the data of the live connection: all but
  \<^verbatim>\<open>Deserialize\<close> and the execution of other statements than \<^verbatim>\<open>VACUUM INTO\<close> leave it alone, and
  so does a \<^verbatim>\<open>Deserialize\<close> that fails.
\<close>

definition quiet_storage :: "('f, 'i, 'o) backup_env \<Rightarrow> (('f, 'i, 'o) DB \<Rightarrow> 'd) \<Rightarrow> bool" where
  "quiet_storage env data \<longleftrightarrow> steady env data
   \<and> (\<forall>ctx. keeps data (Pool_Conn (fst env) ctx))
   \<and> (\<forall>k. keeps data (Conn_Close (fst env) k))
   \<and> (\<forall>uri. keeps data (sqlite_Open (snd env) uri))
   \<and> (\<forall>h ctx. keeps data (Opened_Conn (snd env) h ctx))
   \<and> (\<forall>h. keeps data (Opened_Close (snd env) h))
   \<and> (\<forall>k w d w' f img u e u'. Conn_Raw (snd env) k w = (Inr d, w') \<and> Deserialize d = Some f
        \<and> f img u = (Some e, u') \<longrightarrow> data u' = data u)"

lemma quiet_steady: "quiet_storage env data \<Longrightarrow> steady env data"
  by (simp add: quiet_storage_def)

lemma quiet_laws:
  assumes "quiet_storage env data"
  shows "keeps data (Pool_Conn (fst env) ctx)" "keeps data (Conn_Close (fst env) k)"
    "keeps data (sqlite_Open (snd env) p)" "keeps data (Opened_Conn (snd env) h ctx)"
    "keeps data (Opened_Close (snd env) h)"
  using assms unfolding quiet_storage_def by (elim conjE; simp)+

lemma quiet_deserialize:
  assumes "quiet_storage env data" and "Conn_Raw (snd env) k w = (Inr d, w')"
    and "Deserialize d = Some h" and "h img u = (Some e, u')"
  shows "data u' = data u"
  using assms unfolding quiet_storage_def by blast

lemma keeps_holder_close:
  assumes "quiet_storage env data"
  shows "keeps (\<lambda>v. data (live v)) (holder_close env h)"
  unfolding keeps_def holder_close_def
  using keeps_snd [OF quiet_laws(2) [OF assms]] keeps_snd [OF quiet_laws(5) [OF assms]]
  by (simp add: onLive_state)

lemma keeps_closeHolders:
  assumes "quiet_storage env data"
  shows "keeps (\<lambda>v. data (live v)) (closeHolders env hs)"
proof -
  have "data (live (snd (closeHolders env hs v))) = data (live v)" for v
    using keeps_holder_close [OF assms] by (induction hs arbitrary: v) (simp_all add: keeps_def)
  then show ?thesis by (simp add: keeps_def)
qed

lemma keeps_openRestoredSchema:
  assumes "quiet_storage env data"
  shows "keeps (\<lambda>v. data (live v)) (openRestoredSchema env ctx name img)"
  unfolding openRestoredSchema_def openHolder_def Let_def
  by (intro keep_rules quiet_laws [OF assms] steady_laws [OF quiet_steady [OF assms]]
      keeps_restoreConnection keeps_holder_close quiet_steady assms)

lemma keeps_prepareHolders:
  assumes "quiet_storage env data"
  shows "keeps (\<lambda>v. data (live v)) (prepareHolders env ctx b names holders)"
proof -
  have "data (live (snd (prepareHolders env ctx b names holders v))) = data (live v)" for v
  proof (induction names arbitrary: holders v)
    case (Cons name names)
    then show ?case
      using keepsD [OF keeps_openRestoredSchema [OF assms, of ctx name "image_of b name"], of v]
      by (auto split: prod.split sum.split)
  qed simp
  then show ?thesis by (simp add: keeps_def)
qed

section \<open>Failures\<close>

text \<open>The two errors a restore can report after the public schema has been replaced.\<close>

definition detachFailed :: "string \<Rightarrow> go_error \<Rightarrow> go_error" where
  "detachFailed name cause = Wrapf (''pgmem: detach schema '' @ go_quote name @ '' for restore: '') cause ''''"

definition attachFailed :: "string \<Rightarrow> go_error \<Rightarrow> go_error" where
  "attachFailed name cause = Wrapf (''pgmem: attach restored schema '' @ go_quote name @ '': '') cause ''''"

definition swapFailed :: "go_error \<Rightarrow> bool" where
  "swapFailed e \<longleftrightarrow> (\<exists>name cause. e = detachFailed name cause \<or> e = attachFailed name cause)"

lemma attachHolders_error: "attachHolders env ctx c hs v = (Inl e, v') \<Longrightarrow> swapFailed e"
proof (induction hs arbitrary: v)
  case (Cons h hs)
  then show ?case
    by (auto simp: run_iffs swapFailed_def detachFailed_def attachFailed_def)
qed simp

lemma deserializeConnection_error:
  assumes "quiet_storage env data" and "deserializeConnection env c img v = (Inl e, v')"
  shows "data (live v') = data (live v)"
proof -
  obtain r w where raw: "Conn_Raw (snd env) c (live v) = (r, w)" by force
  have w: "data w = data (live v)" using keepsD [OF steady_laws(1) [OF quiet_steady [OF assms(1)]] raw] .
  show ?thesis
  proof (cases r)
    case (Inl e')
    with assms(2) raw w show ?thesis by (auto simp: deserializeConnection_def andThen_def onLive_def)
  next
    case (Inr d)
    with assms(2) raw w quiet_deserialize [OF assms(1), of c "live v" d w]
    show ?thesis
      by (auto simp: deserializeConnection_def andThen_def onLive_iff onLive_def [of "Conn_Raw _ _"] must_iff
          split: option.splits)
  qed
qed

lemma commitRestore_error:
  assumes "quiet_storage env data" and "commitRestore env ctx b c hs v = (Inl e, v')"
  shows "data (live v') = data (live v) \<or> swapFailed e"
  using assms(2) deserializeConnection_error [OF assms(1)] attachHolders_error [of env]
  by (auto simp: commitRestore_def run_iffs split: option.splits)

lemma restoreImages_error:
  assumes quiet: "quiet_storage env data" and "restoreImages env ctx b c names v = (Inl e, v')"
  shows "data (live v') = data (live v) \<or> swapFailed e"
proof -
  let ?open = "wrapping ''pgmem: validate public schema for restore: '' (openRestoredSchema env ctx ''public'' (image_of b ''public''))"
  obtain r v1 where val: "?open v = (r, v1)" by force
  have v1: "data (live v1) = data (live v)"
    by (rule keepsD [OF keeps_wrapping [OF keeps_openRestoredSchema [OF quiet]] val])
  show ?thesis
  proof (cases r)
    case (Inl x)
    with assms(2) val v1 show ?thesis by (simp add: restoreImages_def andThen_def)
  next
    case (Inr public)
    obtain err hs v3 where prep:
      "prepareHolders env ctx b names [] (snd (holder_close env public v1)) = ((err, hs), v3)" by (metis surj_pair)
    have "data (live v3) = data (live (snd (holder_close env public v1)))"
      by (rule keepsD [OF keeps_prepareHolders [OF quiet] prep])
    then have v3: "data (live v3) = data (live v)"
      using keeps_snd [OF keeps_holder_close [OF quiet]] v1 by simp
    have "deferred (closeHolders env hs)
       (case err of Some e \<Rightarrow> fails e | None \<Rightarrow> commitRestore env ctx b c hs) v3 = (Inl e, v')"
      using assms(2) val Inr prep by (simp add: restoreImages_def andThen_def)
    then obtain v4 where v4: "(case err of Some e \<Rightarrow> fails e | None \<Rightarrow> commitRestore env ctx b c hs) v3 = (Inl e, v4)"
      and v': "v' = snd (closeHolders env hs v4)" by (auto simp: deferred_iff)
    have "data (live v4) = data (live v3) \<or> swapFailed e"
      using v4 commitRestore_error [OF quiet] by (cases err) auto
    then show ?thesis using v3 v' keeps_snd [OF keeps_closeHolders [OF quiet]] by auto
  qed
qed

lemma RestoreContext_error:
  assumes quiet: "quiet_storage env data" and step: "RestoreContext env receiver ctx v = (Inl e, v')"
  shows "data (live v') = data (live v) \<or> swapFailed e"
proof (cases "v' = v")
  case False
  then obtain b where b: "receiver = Some b" "backup_database b" "\<not> db_closed (live v)"
      "schemaNamesLocked (live v) = schemaNames b"
    using step by (cases receiver) (auto simp: RestoreContext_def Let_def split: if_splits)
  let ?conn = "wrapping ''pgmem: acquire connection for restore: '' (onLive (Pool_Conn (fst env) ctx))"
  obtain r v1 where acq: "?conn v = (r, v1)" by force
  have v1: "data (live v1) = data (live v)"
    by (rule keepsD [OF keeps_wrapping [OF keeps_onLive [OF quiet_laws(1) [OF quiet]]] acq])
  show ?thesis
  proof (cases r)
    case (Inl x)
    with step acq b v1 show ?thesis by (simp add: RestoreContext_def Let_def andThen_def)
  next
    case (Inr c)
    let ?read = "wrapping ''pgmem: read schema versions before restore: ''
      (readSchemaVersions env ctx c (schemaNames b) Map.empty)"
    have "deferred (onLive (Conn_Close (fst env) c))
        (andThen ?read (\<lambda>current. andThen (checkVersions (schemaNames b) current (schemaVersions b))
          (\<lambda>_. restoreImages env ctx b c (schemaNames b)))) v1 = (Inl e, v')"
      using step acq Inr b by (simp add: RestoreContext_def Let_def andThen_def)
    then obtain v4 where v4: "andThen ?read (\<lambda>current. andThen (checkVersions (schemaNames b) current (schemaVersions b))
          (\<lambda>_. restoreImages env ctx b c (schemaNames b))) v1 = (Inl e, v4)"
      and v': "v' = snd (onLive (Conn_Close (fst env) c) v4)" by (auto simp: deferred_iff)
    have check: "checkVersions ns cur old w = (q, w') \<Longrightarrow> w' = w" for ns cur old and w w' :: "('a, 'b, 'c) vault" and q
      by (induction ns) (auto split: if_splits)
    have read: "?read v1 = (q, w) \<Longrightarrow> data (live w) = data (live v1)" for q w
      by (rule keepsD [OF keeps_wrapping [OF keeps_readSchemaVersions [OF quiet_steady [OF quiet]]]])
    have "data (live v4) = data (live v1) \<or> swapFailed e"
      using v4 check read restoreImages_error [OF quiet]
      by (auto simp: andThen_Inl_iff dest!: check) (metis read)+
    then show ?thesis
      using v1 v' keeps_snd [OF keeps_onLive [OF quiet_laws(2) [OF quiet]]] by auto
  qed
qed simp

end
