(* ===== verification/BackupResources.thy ===== *)
theory BackupResources imports BackupCorrect
begin

text \<open>
  Connections and databases that backups and restores acquire: on every path, errors
  included, what an operation has taken it gives back.
\<close>

section \<open>What the operations acquire and release\<close>

text \<open>
  The documented behaviour of \<^verbatim>\<open>database/sql\<close> on the set \<open>held\<close> of connections handed out and
  the set \<open>opened\<close> of databases opened and not closed: \<^verbatim>\<open>Conn\<close> hands a connection out until
  its \<^verbatim>\<open>Close\<close>, \<^verbatim>\<open>sql.Open\<close> opens a database until its \<^verbatim>\<open>Close\<close>, and nothing else changes them.
\<close>

type_synonym resources = "nat set \<times> nat set"

definition takes_conn :: "('w \<Rightarrow> resources) \<Rightarrow> ('w \<Rightarrow> (go_error + nat) \<times> 'w) \<Rightarrow> bool" where
  "takes_conn res f \<longleftrightarrow> (\<forall>w. case f w of
     (Inl e, w') \<Rightarrow> res w' = res w
   | (Inr k, w') \<Rightarrow> k \<notin> fst (res w) \<and> res w' = (insert k (fst (res w)), snd (res w)))"

definition takes_db :: "('w \<Rightarrow> resources) \<Rightarrow> ('w \<Rightarrow> (go_error + nat) \<times> 'w) \<Rightarrow> bool" where
  "takes_db res f \<longleftrightarrow> (\<forall>w. case f w of
     (Inl e, w') \<Rightarrow> res w' = res w
   | (Inr h, w') \<Rightarrow> h \<notin> snd (res w) \<and> res w' = (fst (res w), insert h (snd (res w))))"

definition accounting :: "('f, 'i, 'o) backup_env \<Rightarrow> (('f, 'i, 'o) DB \<Rightarrow> resources) \<Rightarrow> bool" where
  "accounting env res \<longleftrightarrow> steady env res
   \<and> (\<forall>ctx. takes_conn res (Pool_Conn (fst env) ctx))
   \<and> (\<forall>h ctx. takes_conn res (Opened_Conn (snd env) h ctx))
   \<and> (\<forall>uri. takes_db res (sqlite_Open (snd env) uri))
   \<and> (\<forall>k w. res (snd (Conn_Close (fst env) k w)) = (fst (res w) - {k}, snd (res w)))
   \<and> (\<forall>h w. res (snd (Opened_Close (snd env) h w)) = (fst (res w), snd (res w) - {h}))
   \<and> (\<forall>k ctx st args. keeps res (Conn_ExecContext (snd env) k ctx st args))
   \<and> (\<forall>k w d w' f img. Conn_Raw (snd env) k w = (Inr d, w') \<and> Deserialize d = Some f \<longrightarrow> keeps res (f img))"

lemma accounting_laws:
  assumes "accounting env res"
  shows "steady env res" "takes_conn res (Pool_Conn (fst env) ctx)" "takes_conn res (Opened_Conn (snd env) h ctx)"
    "takes_db res (sqlite_Open (snd env) uri)"
    "res (snd (Conn_Close (fst env) k w)) = (fst (res w) - {k}, snd (res w))"
    "res (snd (Opened_Close (snd env) h w)) = (fst (res w), snd (res w) - {h})"
    "keeps res (Conn_ExecContext (snd env) k ctx st args)"
  using assms unfolding accounting_def by (elim conjE; simp)+

lemma accounting_deserialize:
  assumes "accounting env res" and "Conn_Raw (snd env) k w = (Inr d, w')" and "Deserialize d = Some f"
  shows "keeps res (f img)"
  using assms unfolding accounting_def by blast

section \<open>Replacements\<close>

text \<open>From resources \<open>r\<close>, exactly those of the given replacements have been taken.\<close>

definition acquired :: "resources \<Rightarrow> restoredSchemaHolder list \<Rightarrow> resources \<Rightarrow> bool" where
  "acquired r hs r' \<longleftrightarrow>
     r' = (fst r \<union> holder_connection ` set hs, snd r \<union> holder_database ` set hs)
   \<and> fst r \<inter> holder_connection ` set hs = {} \<and> snd r \<inter> holder_database ` set hs = {}"

lemma acquired_Nil [simp]: "acquired r [] r' \<longleftrightarrow> r' = r"
  by (auto simp: acquired_def prod_eq_iff)

lemma acquired_snoc: "acquired r hs r' \<Longrightarrow> acquired r' [h] r'' \<Longrightarrow> acquired r (hs @ [h]) r''"
  by (auto simp: acquired_def)

lemma keeps_accounted:
  assumes "accounting env res"
  shows "keeps (\<lambda>v. res (live v)) (deserializeConnection env c img)"
    and "keeps (\<lambda>v. res (live v)) (attachHolders env ctx c hs)"
proof -
  note steady = accounting_laws(1) [OF assms]
  show "keeps (\<lambda>v. res (live v)) (deserializeConnection env c img)"
    unfolding deserializeConnection_def
    by (rule keeps_Raw [OF steady])
      (auto split: option.split intro!: keep_rules dest: accounting_deserialize [OF assms])
  show "keeps (\<lambda>v. res (live v)) (attachHolders env ctx c hs)"
    by (induction hs) (auto intro!: keep_rules accounting_laws(7) [OF assms])
qed

lemma keeps_commitRestore:
  assumes "accounting env res"
  shows "keeps (\<lambda>v. res (live v)) (commitRestore env ctx b c hs)"
proof -
  have "keeps (\<lambda>v. res (live v)) (andThen (wrapping p (deserializeConnection env c img)) (\<lambda>_. attachHolders env ctx' c hs))"
    for p img ctx'
    by (intro keep_rules keeps_accounted assms)
  then show ?thesis by (simp add: keeps_def commitRestore_def split: option.split)
qed

lemma closeHolders_resources:
  assumes "accounting env res"
  shows "res (live (snd (closeHolders env hs v))) =
     (fst (res (live v)) - holder_connection ` set hs, snd (res (live v)) - holder_database ` set hs)"
proof (induction hs arbitrary: v)
  case (Cons h hs)
  have "res (live (snd (holder_close env h v))) =
      (fst (res (live v)) - {holder_connection h}, snd (res (live v)) - {holder_database h})"
    using accounting_laws(5,6) [OF assms] by (simp add: holder_close_def onLive_state)
  then show ?case unfolding closeHolders.simps Cons.IH by auto
qed simp

lemma closeHolders_acquired:
  assumes "accounting env res" and "acquired r hs (res (live v))"
  shows "res (live (snd (closeHolders env hs v))) = r"
  using closeHolders_resources [OF assms(1), of hs v] assms(2)
  by (auto simp: acquired_def prod_eq_iff)

lemma holder_close_acquired:
  assumes "accounting env res" and "acquired r [h] (res (live v))"
  shows "res (live (snd (holder_close env h v))) = r"
  using closeHolders_acquired [OF assms] by simp

lemma takesD:
  "takes_conn res f \<Longrightarrow> f w = (Inr k, w') \<Longrightarrow> k \<notin> fst (res w) \<and> res w' = (insert k (fst (res w)), snd (res w))"
  "takes_conn res f \<Longrightarrow> f w = (Inl e, w') \<Longrightarrow> res w' = res w"
  "takes_db res g \<Longrightarrow> g w = (Inr k, w') \<Longrightarrow> k \<notin> snd (res w) \<and> res w' = (fst (res w), insert k (snd (res w)))"
  "takes_db res g \<Longrightarrow> g w = (Inl e, w') \<Longrightarrow> res w' = res w"
  unfolding takes_conn_def takes_db_def by (drule spec [of _ w]; simp)+

lemma openHolder_resources:
  assumes acc: "accounting env res" and "openHolder env ctx name p v = (r, v')"
  shows "case r of Inl e \<Rightarrow> res (live v') = res (live v) | Inr h \<Rightarrow> acquired (res (live v)) [h] (res (live v'))"
proof -
  let ?uri = "restoreURI (restoreSequence v + 1)"
  obtain r1 w1 where db: "sqlite_Open (snd env) ?uri (live v) = (r1, w1)" by force
  show ?thesis
  proof (cases r1)
    case (Inl e)
    with assms(2) db takesD(4) [OF accounting_laws(4) [OF acc] db [unfolded Inl]] show ?thesis
      by (auto simp: openHolder_def andThen_def nextRestore_def onLive_def)
  next
    case (Inr h)
    note h = takesD(3) [OF accounting_laws(4) [OF acc] db [unfolded Inr]]
    obtain r2 w2 where conn: "Opened_Conn (snd env) h ctx w1 = (r2, w2)" by force
    show ?thesis
    proof (cases r2)
      case (Inl e)
      with assms(2) db Inr conn takesD(2) [OF accounting_laws(3) [OF acc] conn [unfolded Inl]] h
        accounting_laws(6) [OF acc]
      show ?thesis
        by (auto simp: openHolder_def andThen_def nextRestore_def onLive_def onError_def split: prod.split)
          (metis Diff_insert_absorb fst_conv prod.collapse snd_conv)
    next
      case c: (Inr c)
      note k = takesD(1) [OF accounting_laws(3) [OF acc] conn [unfolded c]]
      let ?h = "\<lparr>holder_name = name, holder_uri = ?uri, holder_database = h, holder_connection = c\<rparr>"
      let ?v = "v\<lparr>restoreSequence := restoreSequence v + 1, live := w2\<rparr>"
      have acq: "acquired (res (live v)) [?h] (res w2)" using h k by (auto simp: acquired_def)
      obtain r3 v3 where rest: "restoreConnectionFromURI env c p ?v = (r3, v3)" by force
      have same: "res (live v3) = res w2"
        using keepsD [OF keeps_restoreConnection [OF accounting_laws(1) [OF acc]] rest] by simp
      have "res (live (snd (holder_close env ?h v3))) = res (live v)"
        by (rule holder_close_acquired [OF acc]) (simp add: same acq)
      with assms(2) db Inr conn c rest acq same show ?thesis
        by (auto simp: openHolder_def andThen_def nextRestore_def onLive_def onError_def Let_def yields_def
            split: sum.splits)
    qed
  qed
qed

lemma openRestoredSchema_resources:
  assumes acc: "accounting env res" and step: "openRestoredSchema env ctx name img v = (r, v')"
  shows "case r of Inl e \<Rightarrow> res (live v') = res (live v) | Inr h \<Rightarrow> acquired (res (live v)) [h] (res (live v'))"
proof -
  note steady = accounting_laws(1) [OF acc]
  obtain r1 v1 where temp: "onLive (os_CreateTemp (snd env) ''pgmem-restore-source-*.sqlite'') v = (r1, v1)" by force
  have v1: "res (live v1) = res (live v)"
    by (rule keepsD [OF keeps_onLive [OF steady_laws(6) [OF steady]] temp])
  show ?thesis
  proof (cases r1)
    case (Inl e)
    with step temp v1 show ?thesis by (auto simp: openRestoredSchema_def andThen_def)
  next
    case (Inr p)
    let ?wr = "andThen (onError (onLive (File_Close (snd env) p)) (must (onLive (File_Write (snd env) p (cloneBytes img)))))
        (\<lambda>_. must (onLive (File_Close (snd env) p)))"
    have assoc: "andThen (onError (onLive (File_Close (snd env) p)) (must (onLive (File_Write (snd env) p (cloneBytes img)))))
        (\<lambda>_. andThen (must (onLive (File_Close (snd env) p))) (\<lambda>_. openHolder env ctx name p)) =
        andThen ?wr (\<lambda>_. openHolder env ctx name p)"
      by (rule ext) (simp add: andThen_def split: sum.split prod.split)
    obtain r2 v2 where wr: "?wr v1 = (r2, v2)" by force
    have "keeps (\<lambda>v. res (live v)) ?wr" by (intro keep_rules steady_laws [OF steady])
    from keepsD [OF this wr] have v2: "res (live v2) = res (live v1)" .
    obtain v3 where v3: "andThen ?wr (\<lambda>_. openHolder env ctx name p) v1 = (r, v3)"
      and v': "v' = snd (onLive (os_Remove (snd env) p) v3)"
      using step temp Inr by (auto simp: openRestoredSchema_def andThen_def [of "onLive _"] assoc deferred_iff)
    have "res (live v') = res (live v3)"
      unfolding v' by (rule keeps_snd [OF keeps_onLive [OF steady_laws(9) [OF steady]]])
    moreover have "case r of Inl e \<Rightarrow> res (live v3) = res (live v2) | Inr h \<Rightarrow> acquired (res (live v2)) [h] (res (live v3))"
      using v3 wr openHolder_resources [OF acc] by (cases r2) (auto simp: andThen_def)
    ultimately show ?thesis using v1 v2 by (simp split: sum.splits)
  qed
qed

lemma prepareHolders_resources:
  assumes acc: "accounting env res"
  shows "prepareHolders env ctx b names holders v = ((err, hs), v') \<Longrightarrow>
     acquired r holders (res (live v)) \<Longrightarrow> acquired r hs (res (live v'))"
proof (induction names arbitrary: holders v)
  case (Cons name names)
  show ?case
  proof (cases "name = ''public''")
    case False
    obtain q w where opened: "openRestoredSchema env ctx name (image_of b name) v = (q, w)" by force
    note after = openRestoredSchema_resources [OF acc this]
    show ?thesis
    proof (cases q)
      case (Inl e)
      with Cons.prems False opened after show ?thesis by auto
    next
      case (Inr h)
      have "acquired r (holders @ [h]) (res (live w))"
        using acquired_snoc Cons.prems(2) after Inr by auto
      moreover have "prepareHolders env ctx b names (holders @ [h]) w = ((err, hs), v')"
        using Cons.prems(1) False opened Inr by simp
      ultimately show ?thesis using Cons.IH by blast
    qed
  qed (use Cons in auto)
qed simp

section \<open>Operations\<close>

lemma restoreImages_resources:
  assumes acc: "accounting env res"
  shows "keeps (\<lambda>v. res (live v)) (restoreImages env ctx b c names)"
proof -
  let ?val = "wrapping ''pgmem: validate public schema for restore: '' (openRestoredSchema env ctx ''public'' (image_of b ''public''))"
  have "res (live (snd (restoreImages env ctx b c names v))) = res (live v)" for v
  proof (cases "openRestoredSchema env ctx ''public'' (image_of b ''public'') v")
    case (Pair r v1)
    note after = openRestoredSchema_resources [OF acc Pair]
    show ?thesis
    proof (cases r)
      case (Inl e)
      with Pair after show ?thesis by (simp add: restoreImages_def andThen_def wrapping_def)
    next
      case (Inr h)
      let ?v2 = "snd (holder_close env h v1)"
      have v2: "res (live ?v2) = res (live v)"
        using holder_close_acquired [OF acc] after Inr by auto
      obtain err hs v3 where prep: "prepareHolders env ctx b names [] ?v2 = ((err, hs), v3)" by (metis surj_pair)
      have acq: "acquired (res (live v)) hs (res (live v3))"
        using prepareHolders_resources [OF acc prep] v2 by simp
      let ?f = "case err of Some e \<Rightarrow> fails e | None \<Rightarrow> commitRestore env ctx b c hs"
      have "keeps (\<lambda>v. res (live v)) ?f"
        using keeps_commitRestore [OF acc] by (auto intro: keep_rules split: option.split)
      then have "res (live (snd (?f v3))) = res (live v3)" by (rule keeps_snd)
      with acq have "acquired (res (live v)) hs (res (live (snd (?f v3))))" by simp
      from closeHolders_acquired [OF acc this] Pair Inr prep show ?thesis
        by (simp add: restoreImages_def andThen_def wrapping_def deferred_state)
    qed
  qed
  then show ?thesis by (simp add: keeps_def)
qed

text \<open>A connection of the pool, used and closed at the end.\<close>

lemma keeps_with_connection:
  assumes acc: "accounting env res" and body: "\<And>c. keeps (\<lambda>v. res (live v)) (body c)"
  shows "keeps (\<lambda>v. res (live v))
     (andThen (wrapping p (onLive (Pool_Conn (fst env) ctx))) (\<lambda>c. deferred (onLive (Conn_Close (fst env) c)) (body c)))"
    (is "keeps _ ?f")
proof -
  have "res (live (snd (?f v))) = res (live v)" for v
  proof (cases "Pool_Conn (fst env) ctx (live v)")
    case (Pair r w)
    show ?thesis
    proof (cases r)
      case (Inl e)
      with Pair takesD(2) [OF accounting_laws(2) [OF acc]] show ?thesis
        by (simp add: andThen_def wrapping_def onLive_def)
    next
      case (Inr c)
      note taken = takesD(1) [OF accounting_laws(2) [OF acc] Pair [unfolded Inr]]
      have "res (live (snd (body c (v\<lparr>live := w\<rparr>)))) = res w" using keeps_snd [OF body [of c]] by fastforce
      then have "res (live (snd (?f v))) = (fst (res w) - {c}, snd (res w))"
        using Pair Inr accounting_laws(5) [OF acc]
        by (simp add: andThen_def wrapping_def onLive_def [of "Pool_Conn _ _"] onLive_state deferred_state)
      with taken show ?thesis by (auto simp: prod_eq_iff)
    qed
  qed
  then show ?thesis by (simp add: keeps_def)
qed

lemma BackupContext_resources:
  assumes acc: "accounting env res"
  shows "keeps (\<lambda>v. res (live v)) (BackupContext env receiver ctx)"
proof -
  have images: "keeps (\<lambda>v. res (live v)) (\<lambda>v. takeImages env ctx c (schemaNamesLocked (live v)) v)" for c
    using keeps_snd [OF keeps_takeImages [OF accounting_laws(1) [OF acc]]] by (simp add: keeps_def)
  show ?thesis
    using keeps_snd [OF keeps_with_connection [OF acc images, of "''pgmem: acquire connection for backup: ''" ctx]]
    by (simp add: keeps_def BackupContext_def)
qed

lemma keeps_checkVersions [keep_rules]: "keeps obs (checkVersions names current saved)"
  by (induction names) (auto intro: keep_rules)

lemma RestoreContext_resources:
  assumes acc: "accounting env res"
  shows "keeps (\<lambda>v. res (live v)) (RestoreContext env receiver ctx)"
proof -
  have body: "keeps (\<lambda>v. res (live v))
      (andThen (wrapping p (readSchemaVersions env ctx c names Map.empty)) (\<lambda>current.
       andThen (checkVersions names current saved) (\<lambda>_. restoreImages env ctx b c names)))" for p c names saved b
    by (intro keep_rules keeps_readSchemaVersions restoreImages_resources accounting_laws(1) [OF acc] acc)
  have "res (live (snd (RestoreContext env receiver ctx v))) = res (live v)" for v
    using keeps_snd [OF keeps_with_connection [OF acc body]]
    by (simp add: RestoreContext_def Let_def split: option.split)
  then show ?thesis by (simp add: keeps_def)
qed

end
