(* ===== verification/BackupRoundtrip.thy ===== *)
theory BackupRoundtrip imports BackupResources
begin

text \<open>
  A successful restore brings back, in every schema, the content that a successful backup
  found there.  The replacements of a restore live in shared in-memory databases named by
  \<^verbatim>\<open>restoreSequence\<close>; that these names differ is what keeps them apart.
\<close>

section \<open>What the engine stores\<close>

text \<open>
  The content of each schema of the live connection, the bytes of each file, the content of
  each shared in-memory database, the URI a database and a connection of it have been
  opened with, and the destination and the source of each online restore.
\<close>

record 'c storage =
  content :: "string \<Rightarrow> 'c"
  files :: "string \<Rightarrow> string option"
  shared :: "string \<Rightarrow> 'c"
  db_uri :: "nat \<Rightarrow> string"
  conn_uri :: "nat \<Rightarrow> string"
  job :: "nat \<Rightarrow> string \<times> string option"

definition same_stores :: "'c storage \<Rightarrow> 'c storage \<Rightarrow> bool" where
  "same_stores s s' \<longleftrightarrow> files s' = files s \<and> shared s' = shared s \<and> db_uri s' = db_uri s
     \<and> conn_uri s' = conn_uri s"

text \<open>
  The documented behaviour of the operations when they succeed, over the observation
  \<open>view\<close>; \<open>decode\<close> is the content an image stands for.
\<close>

definition snapshot_driver :: "('w \<Rightarrow> 'c storage) \<Rightarrow> (string option \<Rightarrow> 'c) \<Rightarrow> nat \<Rightarrow> 'w driver_conn \<Rightarrow> bool" where
  "snapshot_driver view decode k d \<longleftrightarrow>
     (\<forall>f w img w'. Serialize d = Some f \<and> f w = (Inr img, w') \<longrightarrow> decode img = content (view w) ''main'')
   \<and> (\<forall>f img w w'. Deserialize d = Some f \<and> f img w = (None, w') \<longrightarrow>
        content (view w') = (content (view w))(''main'' := decode img) \<and> shared (view w') = shared (view w))
   \<and> (\<forall>f p w j w'. NewRestore d = Some f \<and> f p w = (Inr j, w') \<longrightarrow>
        job (view w') j = (conn_uri (view w) k, files (view w) p) \<and> shared (view w') = shared (view w))"

definition snapshotting ::
  "('f, 'i, 'o) backup_env \<Rightarrow> (('f, 'i, 'o) DB \<Rightarrow> 'c storage) \<Rightarrow> (string option \<Rightarrow> 'c) \<Rightarrow> bool" where
  "snapshotting env view decode \<longleftrightarrow>
     steady env (\<lambda>w. content (view w))
   \<and> decode (Some []) = decode None
   \<and> (\<forall>ctx. keeps (\<lambda>w. content (view w)) (Pool_Conn (fst env) ctx))
   \<and> (\<forall>k. keeps (\<lambda>w. content (view w)) (Conn_Close (fst env) k))
   \<and> (\<forall>h. keeps (\<lambda>w. content (view w)) (Opened_Close (snd env) h))
   \<and> (\<forall>k w d w'. Conn_Raw (snd env) k w = (Inr d, w') \<longrightarrow>
        snapshot_driver view decode k d \<and> same_stores (view w) (view w'))
   \<and> (\<forall>k ctx n p w r w'. Conn_ExecContext (snd env) k ctx (vacuumStatement n p) [] w = (Inr r, w') \<longrightarrow>
        decode (files (view w') p) = content (view w) n)
   \<and> (\<forall>p w b w'. os_ReadFile (snd env) p w = (Inr b, w') \<longrightarrow> b = files (view w) p)
   \<and> (\<forall>p w q w'. os_CreateTemp (snd env) p w = (Inr q, w') \<longrightarrow> shared (view w') = shared (view w))
   \<and> (\<forall>p b w w'. File_Write (snd env) p b w = (None, w') \<longrightarrow>
        files (view w') p = b \<and> shared (view w') = shared (view w))
   \<and> (\<forall>p w w'. File_Close (snd env) p w = (None, w') \<longrightarrow> same_stores (view w) (view w'))
   \<and> (\<forall>p w. shared (view (snd (os_Remove (snd env) p w))) = shared (view w))
   \<and> (\<forall>uri w h w'. sqlite_Open (snd env) uri w = (Inr h, w') \<longrightarrow>
        db_uri (view w') h = uri \<and> files (view w') = files (view w) \<and> shared (view w') = shared (view w))
   \<and> (\<forall>h ctx w k w'. Opened_Conn (snd env) h ctx w = (Inr k, w') \<longrightarrow>
        conn_uri (view w') k = db_uri (view w) h \<and> files (view w') = files (view w) \<and> shared (view w') = shared (view w))
   \<and> (\<forall>j w w'. Restore_Step (snd env) j (-1) w = (None, w') \<longrightarrow>
        shared (view w') = (shared (view w))(fst (job (view w) j) := decode (snd (job (view w) j))))
   \<and> (\<forall>j w. shared (view (snd (Restore_Finish (snd env) j w))) = shared (view w))
   \<and> (\<forall>k ctx n w r w'. Conn_ExecContext (snd env) k ctx (detachStatement n) [] w = (Inr r, w') \<longrightarrow>
        (\<forall>m. toLower m \<noteq> toLower n \<longrightarrow> content (view w') m = content (view w) m) \<and> shared (view w') = shared (view w))
   \<and> (\<forall>k ctx n uri w r w'. Conn_ExecContext (snd env) k ctx (reattachStatement n) [VString uri] w = (Inr r, w') \<longrightarrow>
        content (view w') n = shared (view w) uri
        \<and> (\<forall>m. toLower m \<noteq> toLower n \<longrightarrow> content (view w') m = content (view w) m)
        \<and> shared (view w') = shared (view w))"

lemma snapshot_laws:
  assumes "snapshotting env view decode"
  shows "steady env (\<lambda>w. content (view w))" "decode (Some []) = decode None"
    "keeps (\<lambda>w. content (view w)) (Pool_Conn (fst env) ctx)"
    "keeps (\<lambda>w. content (view w)) (Conn_Close (fst env) k)"
    "keeps (\<lambda>w. content (view w)) (Opened_Close (snd env) h)"
    "Conn_ExecContext (snd env) k ctx (vacuumStatement n p) [] w = (Inr r, w') \<Longrightarrow>
       decode (files (view w') p) = content (view w) n"
    "os_ReadFile (snd env) p w = (Inr b, w') \<Longrightarrow> b = files (view w) p"
    "os_CreateTemp (snd env) p w = (Inr q, w') \<Longrightarrow> shared (view w') = shared (view w)"
    "File_Write (snd env) p b w = (None, w') \<Longrightarrow> files (view w') p = b \<and> shared (view w') = shared (view w)"
    "File_Close (snd env) p w = (None, w') \<Longrightarrow> same_stores (view w) (view w')"
    "shared (view (snd (os_Remove (snd env) p w))) = shared (view w)"
    "sqlite_Open (snd env) uri w = (Inr h, w') \<Longrightarrow>
       db_uri (view w') h = uri \<and> files (view w') = files (view w) \<and> shared (view w') = shared (view w)"
    "Opened_Conn (snd env) h ctx w = (Inr k, w') \<Longrightarrow>
       conn_uri (view w') k = db_uri (view w) h \<and> files (view w') = files (view w) \<and> shared (view w') = shared (view w)"
    "Restore_Step (snd env) j (-1) w = (None, w') \<Longrightarrow>
       shared (view w') = (shared (view w))(fst (job (view w) j) := decode (snd (job (view w) j)))"
    "shared (view (snd (Restore_Finish (snd env) j w))) = shared (view w)"
  using assms unfolding snapshotting_def by (elim conjE; (simp; fail | (erule allE)+, erule mp, assumption))+

lemma snapshot_exec:
  assumes "snapshotting env view decode"
  shows "Conn_ExecContext (snd env) k ctx (detachStatement n) [] w = (Inr r, w') \<Longrightarrow>
       (\<forall>m. toLower m \<noteq> toLower n \<longrightarrow> content (view w') m = content (view w) m) \<and> shared (view w') = shared (view w)"
    "Conn_ExecContext (snd env) k ctx (reattachStatement n) [VString uri] w = (Inr r, w') \<Longrightarrow>
       content (view w') n = shared (view w) uri
       \<and> (\<forall>m. toLower m \<noteq> toLower n \<longrightarrow> content (view w') m = content (view w) m)
       \<and> shared (view w') = shared (view w)"
proof -
  have detach: "\<forall>k ctx n w r w'. Conn_ExecContext (snd env) k ctx (detachStatement n) [] w = (Inr r, w') \<longrightarrow>
        (\<forall>m. toLower m \<noteq> toLower n \<longrightarrow> content (view w') m = content (view w) m) \<and> shared (view w') = shared (view w)"
    using assms unfolding snapshotting_def by (elim conjE)
  then show "Conn_ExecContext (snd env) k ctx (detachStatement n) [] w = (Inr r, w') \<Longrightarrow>
       (\<forall>m. toLower m \<noteq> toLower n \<longrightarrow> content (view w') m = content (view w) m) \<and> shared (view w') = shared (view w)"
    by blast
  have attach: "\<forall>k ctx n uri w r w'. Conn_ExecContext (snd env) k ctx (reattachStatement n) [VString uri] w = (Inr r, w') \<longrightarrow>
        content (view w') n = shared (view w) uri
        \<and> (\<forall>m. toLower m \<noteq> toLower n \<longrightarrow> content (view w') m = content (view w) m)
        \<and> shared (view w') = shared (view w)"
    using assms unfolding snapshotting_def by (elim conjE)
  then show "Conn_ExecContext (snd env) k ctx (reattachStatement n) [VString uri] w = (Inr r, w') \<Longrightarrow>
       content (view w') n = shared (view w) uri
       \<and> (\<forall>m. toLower m \<noteq> toLower n \<longrightarrow> content (view w') m = content (view w) m)
       \<and> shared (view w') = shared (view w)"
    by blast
qed

lemma snapshot_raw:
  assumes "snapshotting env view decode" and "Conn_Raw (snd env) k w = (Inr d, w')"
  shows "snapshot_driver view decode k d" "same_stores (view w) (view w')"
proof -
  have "\<forall>k w d w'. Conn_Raw (snd env) k w = (Inr d, w') \<longrightarrow>
      snapshot_driver view decode k d \<and> same_stores (view w) (view w')"
    using assms(1) unfolding snapshotting_def by (elim conjE)
  with assms(2) show "snapshot_driver view decode k d" "same_stores (view w) (view w')" by blast+
qed

lemma snapshot_driver_laws:
  assumes "snapshot_driver view decode k d"
  shows "Serialize d = Some f \<Longrightarrow> f w = (Inr img, w') \<Longrightarrow> decode img = content (view w) ''main''"
    and "Deserialize d = Some g \<Longrightarrow> g img w = (None, w') \<Longrightarrow>
        content (view w') = (content (view w))(''main'' := decode img) \<and> shared (view w') = shared (view w)"
    and "NewRestore d = Some h \<Longrightarrow> h p w = (Inr j, w') \<Longrightarrow>
        job (view w') j = (conn_uri (view w) k, files (view w) p) \<and> shared (view w') = shared (view w)"
  using assms unfolding snapshot_driver_def by blast+

section \<open>Images\<close>

lemma decode_cloneBytes: "snapshotting env view decode \<Longrightarrow> decode (cloneBytes img) = decode img"
  using snapshot_laws(2) [of env view decode] by (simp add: cloneBytes_def split: option.split list.split)

lemma vacuumSchemaImage_content:
  assumes snap: "snapshotting env view decode" and "vacuumSchemaImage env ctx c n v = (Inr img, v')"
  shows "decode img = content (view (live v)) n"
proof -
  note steady = snapshot_laws(1) [OF snap]
  obtain path v1 v2 v3 where temp: "onLive (os_CreateTemp (snd env) ''pgmem-backup-*.sqlite'') v = (Inr path, v1)"
    and cls: "must (onLive (File_Close (snd env) path)) v1 = (Inr (), v2)"
    and rem: "must (onLive (os_Remove (snd env) path)) v2 = (Inr (), v3)"
    and rest: "deferred (onLive (os_Remove (snd env) path))
       (andThen (onLive (Conn_ExecContext (snd env) c ctx (vacuumStatement n path) [])) (\<lambda>_.
        onLive (os_ReadFile (snd env) path))) v3 = (Inr img, v')"
    using assms(2) unfolding vacuumSchemaImage_def by (auto simp: andThen_Inr_iff onError_iff)
  have "content (view (live v1)) = content (view (live v))"
    by (rule keepsD [OF keeps_onLive [OF steady_laws(6) [OF steady]] temp])
  moreover have "content (view (live v2)) = content (view (live v1))"
    by (rule keepsD [OF keeps_must [OF keeps_onLive [OF steady_laws(8) [OF steady]]] cls])
  moreover have "content (view (live v3)) = content (view (live v2))"
    by (rule keepsD [OF keeps_must [OF keeps_onLive [OF steady_laws(9) [OF steady]]] rem])
  moreover have "decode img = content (view (live v3)) n"
    using rest snapshot_laws(6,7) [OF snap] by (fastforce simp: run_iffs onLive_iff)
  ultimately show ?thesis by simp
qed

lemma serializeConnection_content:
  assumes snap: "snapshotting env view decode" and "serializeConnection env c v = (Inr img, v')"
  shows "decode img = content (view (live v)) ''main''"
proof -
  obtain d w where raw: "Conn_Raw (snd env) c (live v) = (Inr d, w)"
    and rest: "(case Serialize d of
        None \<Rightarrow> fails (ErrorText ''embedded SQLite connection does not support serialization'')
      | Some f \<Rightarrow> andThen (onLive f) (\<lambda>b. yields (cloneBytes b))) (v\<lparr>live := w\<rparr>) = (Inr img, v')"
    using assms(2) by (auto simp: serializeConnection_def andThen_Inr_iff onLive_iff)
  obtain f b db where f: "Serialize d = Some f" "f w = (Inr b, db)" "img = cloneBytes b"
    using rest by (cases "Serialize d") (auto simp: andThen_Inr_iff onLive_iff)
  have "content (view w) = content (view (live v))"
    by (rule keepsD [OF steady_laws(1) [OF snapshot_laws(1) [OF snap]] raw])
  with snapshot_driver_laws(1) [OF snapshot_raw(1) [OF snap raw] f(1,2)] f(3) decode_cloneBytes [OF snap]
  show ?thesis by simp
qed

lemma vacuumImages_content:
  assumes snap: "snapshotting env view decode"
  shows "vacuumImages env ctx c names imgs v = (Inr imgs', v') \<Longrightarrow>
     (\<forall>n \<in> set names - {''public''}. \<exists>img. imgs' n = Some img \<and> decode img = content (view (live v)) n)
   \<and> (\<forall>n. n \<notin> set names - {''public''} \<longrightarrow> imgs' n = imgs n)"
proof (induction names arbitrary: imgs v)
  case (Cons name names)
  show ?case
  proof (cases "name = ''public''")
    case False
    then obtain img w where img: "vacuumSchemaImage env ctx c name v = (Inr img, w)"
      and rest: "vacuumImages env ctx c names (imgs(name \<mapsto> cloneBytes img)) w = (Inr imgs', v')"
      using Cons.prems(1) by (auto simp: run_iffs)
    have w: "content (view (live w)) = content (view (live v))"
      by (rule keepsD [OF keeps_vacuumSchemaImage [OF snapshot_laws(1) [OF snap]] img])
    from Cons.IH [OF rest] False vacuumSchemaImage_content [OF snap img] decode_cloneBytes [OF snap]
    show ?thesis by (cases "name \<in> set names") (auto simp: w)
  qed (use Cons in auto)
qed simp

text \<open>What a backup holds: for every schema an image of its content.\<close>

definition captures :: "backup \<Rightarrow> (string option \<Rightarrow> 'c) \<Rightarrow> (string \<Rightarrow> 'c) \<Rightarrow> bool" where
  "captures b decode stored \<longleftrightarrow>
     (\<forall>n \<in> insert ''public'' (set (schemaNames b)). decode (image_of b n) = stored (engineSchemaName n))"

lemma takeImages_captures:
  assumes snap: "snapshotting env view decode" and "takeImages env ctx c names v = (Inr b, v')"
  shows "captures b decode (content (view (live v))) \<and> schemaNames b = names"
proof -
  obtain versions v1 img v2 imgs where
      read: "readSchemaVersions env ctx c names Map.empty v = (Inr versions, v1)"
    and ser: "serializeConnection env c v1 = (Inr img, v2)"
    and vac: "vacuumImages env ctx c names (Map.empty(''public'' \<mapsto> cloneBytes img)) v2 = (Inr imgs, v')"
    and b: "b = \<lparr>backup_database = True, schemaNames = names, schemaVersions = versions, images = imgs\<rparr>"
    using assms(2) unfolding takeImages_def by (auto simp: run_iffs)
  note steady = snapshot_laws(1) [OF snap]
  have "content (view (live v1)) = content (view (live v))"
    by (rule keepsD [OF keeps_readSchemaVersions [OF steady] read])
  moreover have "content (view (live v2)) = content (view (live v1))"
    by (rule keepsD [OF keeps_serializeConnection [OF steady] ser])
  ultimately have main: "decode img = content (view (live v)) ''main''"
    and same: "content (view (live v2)) = content (view (live v))"
    using serializeConnection_content [OF snap ser] by simp_all
  have "decode (image_of b n) = content (view (live v)) (engineSchemaName n)"
    if "n \<in> insert ''public'' (set names)" for n
  proof (cases "n = ''public''")
    case True
    then have "imgs n = Some (cloneBytes img)"
      using vacuumImages_content [OF snap vac] by simp
    with True main decode_cloneBytes [OF snap] show ?thesis by (simp add: b image_of_def engineSchemaName_def)
  next
    case False
    with that have "n \<in> set names - {''public''}" by simp
    with vacuumImages_content [OF snap vac] same obtain i where
      "imgs n = Some i" "decode i = content (view (live v)) n" by auto
    with False show ?thesis by (simp add: b image_of_def engineSchemaName_def)
  qed
  then show ?thesis by (simp add: captures_def b)
qed

lemma BackupContext_captures:
  assumes snap: "snapshotting env view decode" and "BackupContext env receiver ctx v = (Inr b, v')"
  shows "captures b decode (content (view (live v)))"
proof -
  obtain c v1 v2 where conn: "onLive (Pool_Conn (fst env) ctx) v = (Inr c, v1)"
    and imgs: "takeImages env ctx c (schemaNamesLocked (live v1)) v1 = (Inr b, v2)"
    using assms(2) by (auto simp: BackupContext_def run_iffs split: if_splits)
  have "content (view (live v1)) = content (view (live v))"
    by (rule keepsD [OF keeps_onLive [OF snapshot_laws(3) [OF snap]] conn])
  with takeImages_captures [OF snap imgs] show ?thesis by simp
qed

section \<open>Replacements\<close>

lemma restoreURI_inject [simp]: "restoreURI m = restoreURI n \<longleftrightarrow> m = n"
  by (simp add: restoreURI_def word_unat_eq_iff)

lemma restoreConnection_shared:
  assumes snap: "snapshotting env view decode" and "restoreConnectionFromURI env c p v = (Inr u, v')"
  shows "shared (view (live v')) = (shared (view (live v)))(conn_uri (view (live v)) c := decode (files (view (live v)) p))"
    and "restoreSequence v' = restoreSequence v"
proof -
  obtain d w where raw: "Conn_Raw (snd env) c (live v) = (Inr d, w)"
    and rest: "(case NewRestore d of
         None \<Rightarrow> fails (ErrorText ''embedded SQLite connection does not support online restore'')
       | Some newRestore \<Rightarrow>
           andThen (onLive (newRestore p)) (\<lambda>restore v.
             case onLive (Restore_Step (snd env) restore (-1)) v of (stepErr, v1) \<Rightarrow>
             (case onLive (Restore_Finish (snd env) restore) v1 of (finishErr, v2) \<Rightarrow>
               (case stepErr of
                  Some e \<Rightarrow> (Inl e, v2)
                | None \<Rightarrow> (case finishErr of Some e \<Rightarrow> (Inl e, v2) | None \<Rightarrow> (Inr (), v2))))))
       (v\<lparr>live := w\<rparr>) = (Inr u, v')"
    using assms(2) by (auto simp: restoreConnectionFromURI_def andThen_Inr_iff onLive_iff)
  obtain f j w1 where f: "NewRestore d = Some f" "f p w = (Inr j, w1)"
    using rest by (cases "NewRestore d") (auto simp: andThen_Inr_iff onLive_iff)
  obtain stepErr w2 where step: "Restore_Step (snd env) j (-1) w1 = (stepErr, w2)" by force
  obtain finishErr w3 where fin: "Restore_Finish (snd env) j w2 = (finishErr, w3)" by force
  have step: "Restore_Step (snd env) j (-1) w1 = (None, w2)"
    and fin: "Restore_Finish (snd env) j w2 = (None, w3)" and v': "v' = v\<lparr>live := w3\<rparr>"
    using rest f step fin by (auto simp: andThen_def onLive_def split: option.splits)
  have w: "same_stores (view (live v)) (view w)" by (rule snapshot_raw(2) [OF snap raw])
  have j: "job (view w1) j = (conn_uri (view w) c, files (view w) p) \<and> shared (view w1) = shared (view w)"
    by (rule snapshot_driver_laws(3) [OF snapshot_raw(1) [OF snap raw] f])
  have w2: "shared (view w2) = (shared (view w1))(fst (job (view w1) j) := decode (snd (job (view w1) j)))"
    by (rule snapshot_laws(14) [OF snap step])
  have "shared (view w3) = shared (view w2)"
    using snapshot_laws(15) [OF snap, of j w2] fin by simp
  with w j w2 v' show "shared (view (live v')) =
      (shared (view (live v)))(conn_uri (view (live v)) c := decode (files (view (live v)) p))"
    by (simp add: same_stores_def)
  show "restoreSequence v' = restoreSequence v" by (simp add: v')
qed

lemma openHolder_shared:
  assumes snap: "snapshotting env view decode" and "openHolder env ctx name p v = (Inr h, v')"
  shows "holder_name h = name \<and> holder_uri h = restoreURI (restoreSequence v + 1)
    \<and> restoreSequence v' = restoreSequence v + 1
    \<and> shared (view (live v')) = (shared (view (live v)))(holder_uri h := decode (files (view (live v)) p))"
proof -
  let ?uri = "restoreURI (restoreSequence v + 1)"
  obtain db c w1 w2 where opened: "sqlite_Open (snd env) ?uri (live v) = (Inr db, w1)"
    and conn: "Opened_Conn (snd env) db ctx w1 = (Inr c, w2)"
    and rest: "restoreConnectionFromURI env c p (v\<lparr>restoreSequence := restoreSequence v + 1, live := w2\<rparr>) = (Inr (), v')"
    and h: "h = \<lparr>holder_name = name, holder_uri = ?uri, holder_database = db, holder_connection = c\<rparr>"
    using assms(2) by (auto simp: openHolder_def Let_def run_iffs onLive_iff nextRestore_def)
  note a = snapshot_laws(12) [OF snap opened] and b = snapshot_laws(13) [OF snap conn]
    and c = restoreConnection_shared [OF snap rest]
  from a b c show ?thesis by (simp add: h)
qed

lemma openRestoredSchema_shared:
  assumes snap: "snapshotting env view decode" and "openRestoredSchema env ctx name img v = (Inr h, v')"
  shows "holder_name h = name \<and> holder_uri h = restoreURI (restoreSequence v + 1)
    \<and> restoreSequence v' = restoreSequence v + 1
    \<and> shared (view (live v')) = (shared (view (live v)))(holder_uri h := decode img)"
proof -
  obtain p w1 w2 w3 v4 where temp: "os_CreateTemp (snd env) ''pgmem-restore-source-*.sqlite'' (live v) = (Inr p, w1)"
    and wr: "File_Write (snd env) p (cloneBytes img) w1 = (None, w2)"
    and cls: "File_Close (snd env) p w2 = (None, w3)"
    and hold: "openHolder env ctx name p (v\<lparr>live := w3\<rparr>) = (Inr h, v4)"
    and v': "v' = v4\<lparr>live := snd (os_Remove (snd env) p (live v4))\<rparr>"
    using assms(2) by (auto simp: openRestoredSchema_def run_iffs onLive_iff onLive_state [of "os_Remove _ _"])
  have "shared (view w3) = shared (view (live v))" "files (view w3) p = cloneBytes img"
    using snapshot_laws(8) [OF snap temp] snapshot_laws(9) [OF snap wr] snapshot_laws(10) [OF snap cls]
    by (simp_all add: same_stores_def)
  with openHolder_shared [OF snap hold] snapshot_laws(11) [OF snap, of p "live v4"] decode_cloneBytes [OF snap]
  show ?thesis by (simp add: v')
qed

text \<open>
  The replacements prepared so far: their URIs are numbered on from \<open>s\<close>, and each holds the
  content of its image.
\<close>

definition prepared ::
  "(('f, 'i, 'o) DB \<Rightarrow> 'c storage) \<Rightarrow> (string option \<Rightarrow> 'c) \<Rightarrow> backup \<Rightarrow> 64 word
     \<Rightarrow> restoredSchemaHolder list \<Rightarrow> ('f, 'i, 'o) vault \<Rightarrow> bool" where
  "prepared view decode b s hs v \<longleftrightarrow>
     map holder_uri hs = map (\<lambda>i. restoreURI (s + of_nat (Suc i))) [0..<length hs]
   \<and> restoreSequence v = s + of_nat (length hs)
   \<and> (\<forall>h \<in> set hs. shared (view (live v)) (holder_uri h) = decode (image_of b (holder_name h)))"

lemma prepared_snoc:
  assumes snap: "snapshotting env view decode" and hs: "prepared view decode b s hs v"
    and new: "openRestoredSchema env ctx name (image_of b name) v = (Inr h, v')"
    and small: "length hs < 2 ^ 64 - 1"
  shows "prepared view decode b s (hs @ [h]) v'"
proof -
  note new = openRestoredSchema_shared [OF snap new]
  have uri: "holder_uri h = restoreURI (s + of_nat (Suc (length hs)))"
    using new hs by (simp add: prepared_def ac_simps)
  have notin: "holder_uri h \<notin> set (map holder_uri hs)"
  proof
    assume "holder_uri h \<in> set (map holder_uri hs)"
    moreover have "map holder_uri hs = map (\<lambda>i. restoreURI (s + of_nat (Suc i))) [0..<length hs]"
      using hs unfolding prepared_def by (elim conjE)
    ultimately obtain i where i: "i < length hs" "(of_nat (Suc (length hs)) :: 64 word) = of_nat (Suc i)"
      using uri by auto
    then have "Suc (length hs) = Suc i"
      using small by (simp add: word_of_nat_eq_iff take_bit_nat_eq_self del: of_nat_Suc)
    with i show False by simp
  qed
  have other: "holder_uri g \<noteq> holder_uri h" if "g \<in> set hs" for g
    using notin that by (metis image_eqI list.set_map)
  have stored: "shared (view (live v')) (holder_uri g) = decode (image_of b (holder_name g))"
    if "g \<in> set (hs @ [h])" for g
    using that hs new other [of g] by (auto simp: prepared_def)
  from hs new uri stored show ?thesis by (auto simp: prepared_def ac_simps)
qed

lemma prepareHolders_prepared:
  assumes snap: "snapshotting env view decode"
  shows "prepareHolders env ctx b names hs v = ((None, hs'), v') \<Longrightarrow> prepared view decode b s hs v \<Longrightarrow>
     length hs + length names < 2 ^ 64 \<Longrightarrow>
     prepared view decode b s hs' v' \<and> map holder_name hs' = map holder_name hs @ filter (\<lambda>n. n \<noteq> ''public'') names"
proof (induction names arbitrary: hs v)
  case (Cons name names)
  show ?case
  proof (cases "name = ''public''")
    case False
    obtain h w where new: "openRestoredSchema env ctx name (image_of b name) v = (Inr h, w)"
      and rest: "prepareHolders env ctx b names (hs @ [h]) w = ((None, hs'), v')"
      using Cons.prems(1) False by (auto split: prod.splits sum.splits)
    have "prepared view decode b s (hs @ [h]) w"
      using Cons.prems(2,3) by (intro prepared_snoc [OF snap _ new]) simp_all
    from Cons.IH [OF rest this] Cons.prems(3) openRestoredSchema_shared [OF snap new] False
    show ?thesis by simp
  qed (use Cons in auto)
qed simp

section \<open>The swap\<close>

lemma attachHolders_content:
  assumes snap: "snapshotting env view decode"
  shows "attachHolders env ctx c hs v = (Inr u, v') \<Longrightarrow> distinct (map (toLower \<circ> holder_name) hs) \<Longrightarrow>
     (\<forall>h \<in> set hs. content (view (live v')) (holder_name h) = shared (view (live v)) (holder_uri h))
   \<and> (\<forall>m. toLower m \<notin> set (map (toLower \<circ> holder_name) hs) \<longrightarrow> content (view (live v')) m = content (view (live v)) m)
   \<and> shared (view (live v')) = shared (view (live v))"
proof (induction hs arbitrary: v)
  case (Cons h hs)
  obtain r1 w1 r2 w2 where
      det: "Conn_ExecContext (snd env) c ctx (detachStatement (holder_name h)) [] (live v) = (Inr r1, w1)"
    and att: "Conn_ExecContext (snd env) c ctx (reattachStatement (holder_name h)) [VString (holder_uri h)] w1 = (Inr r2, w2)"
    and rest: "attachHolders env ctx c hs (v\<lparr>live := w2\<rparr>) = (Inr u, v')"
    using Cons.prems(1) by (auto simp: run_iffs onLive_iff)
  note d = snapshot_exec(1) [OF snap det] and a = snapshot_exec(2) [OF snap att]
  note IH = Cons.IH [OF rest]
  from IH d a Cons.prems(2) show ?case by auto
qed simp

lemma deserialize_content:
  assumes snap: "snapshotting env view decode" and "deserializeConnection env c img v = (Inr u, v')"
  shows "content (view (live v')) = (content (view (live v)))(''main'' := decode img)
    \<and> shared (view (live v')) = shared (view (live v))"
proof -
  obtain d w f w' where raw: "Conn_Raw (snd env) c (live v) = (Inr d, w)"
    and f: "Deserialize d = Some f" "f (cloneBytes img) w = (None, w')" and v': "v' = v\<lparr>live := w'\<rparr>"
    using assms(2) by (auto simp: deserializeConnection_def run_iffs onLive_iff split: option.splits)
  have "content (view w) = content (view (live v))"
    by (rule keepsD [OF steady_laws(1) [OF snapshot_laws(1) [OF snap]] raw])
  with snapshot_raw(2) [OF snap raw] snapshot_driver_laws(2) [OF snapshot_raw(1) [OF snap raw] f]
    decode_cloneBytes [OF snap] v'
  show ?thesis by (simp add: same_stores_def)
qed

lemma restoreImages_content:
  assumes snap: "snapshotting env view decode" and step: "restoreImages env ctx b c names v = (Inr u, v')"
    and names: "distinct (map toLower names)" "''main'' \<notin> toLower ` set names" "length names < 2 ^ 64"
  shows "\<forall>n \<in> insert ''public'' (set names). content (view (live v')) (engineSchemaName n) = decode (image_of b n)"
proof -
  obtain public v1 where val: "openRestoredSchema env ctx ''public'' (image_of b ''public'') v = (Inr public, v1)"
    using step by (auto simp: restoreImages_def run_iffs)
  let ?v2 = "snd (holder_close env public v1)"
  obtain err hs v3 where prep: "prepareHolders env ctx b names [] ?v2 = ((err, hs), v3)" by (metis surj_pair)
  obtain v4 where v4: "(case err of Some e \<Rightarrow> fails e | None \<Rightarrow> commitRestore env ctx b c hs) v3 = (Inr u, v4)"
    and v': "v' = snd (closeHolders env hs v4)"
    using step val prep by (auto simp: restoreImages_def andThen_def wrapping_def deferred_iff)
  have err: "err = None" using v4 by (cases err) auto
  with v4 obtain v5 where des: "deserializeConnection env c (image_of b ''public'') v3 = (Inr (), v5)"
    and att: "attachHolders env (WithoutCancel ctx) c hs v5 = (Inr u, v4)"
    by (auto simp: commitRestore_def run_iffs split: option.splits)
  have "prepared view decode b (restoreSequence ?v2) [] ?v2" by (simp add: prepared_def)
  from prepareHolders_prepared [OF snap prep [unfolded err] this] names(3)
  have prepd: "prepared view decode b (restoreSequence ?v2) hs v3"
    and hs: "map holder_name hs = filter (\<lambda>n. n \<noteq> ''public'') names" by simp_all
  have lower: "map (toLower \<circ> holder_name) hs = map toLower (filter (\<lambda>n. n \<noteq> ''public'') names)"
    using hs by (metis map_map)
  have dist: "distinct (map (toLower \<circ> holder_name) hs)"
    unfolding lower using names(1) by (induction names) auto
  have "toLower ''main'' = ''main''" by (simp add: toLower_def ascii_lower_def)
  then have main: "toLower ''main'' \<notin> set (map (toLower \<circ> holder_name) hs)"
    unfolding lower using names(2) by auto
  note swap = attachHolders_content [OF snap att dist] and public = deserialize_content [OF snap des]
  have "content (view (live v')) = content (view (live v4))"
    unfolding v' using snapshot_laws(4,5) [OF snap]
    by (induction hs arbitrary: v4) (simp_all add: holder_close_def onLive_state keeps_def)
  moreover have "content (view (live v4)) ''main'' = decode (image_of b ''public'')"
    using swap main public by simp
  moreover have "content (view (live v4)) n = decode (image_of b n)" if "n \<in> set names" "n \<noteq> ''public''" for n
  proof -
    have "n \<in> set (map holder_name hs)" using that by (simp add: hs)
    then obtain h where h: "h \<in> set hs" "n = holder_name h" by auto
    with prepd swap public show ?thesis by (simp add: prepared_def)
  qed
  ultimately show ?thesis by (simp add: engineSchemaName_def)
qed

lemma RestoreContext_content:
  assumes snap: "snapshotting env view decode" and step: "RestoreContext env (Some b) ctx v = (Inr u, v')"
    and names: "distinct (map toLower (schemaNames b))" "''main'' \<notin> toLower ` set (schemaNames b)"
      "length (schemaNames b) < 2 ^ 64"
  shows "\<forall>n \<in> insert ''public'' (set (schemaNames b)).
     content (view (live v')) (engineSchemaName n) = decode (image_of b n)"
proof -
  obtain c v1 v2 v3 where imgs: "restoreImages env ctx b c (schemaNames b) v1 = (Inr u, v2)"
    and v': "v' = snd (onLive (Conn_Close (fst env) c) v2)"
    using step by (auto simp: RestoreContext_def Let_def run_iffs split: if_splits)
  have "content (view (live v')) = content (view (live v2))"
    unfolding v' by (rule keeps_snd [OF keeps_onLive [OF snapshot_laws(4) [OF snap]]])
  with restoreImages_content [OF snap imgs names] show ?thesis by simp
qed

end
