(* ===== verification/BackupProperties.thy ===== *)
theory BackupProperties imports BackupRoundtrip DriverProperties
begin

text \<open>
  The properties of backups: a restore brings back what the backup found, a restore that is
  rejected or fails early changes nothing, changes of the schemas are detected, and
  connections and databases are given back on every path.
\<close>

section \<open>An example engine\<close>

text \<open>
  Contents are texts and an image is the text itself.  As in SQLite, a database that an
  online restore has filled has schema version 1.
\<close>

record ex_store = "string storage" +
  version_number :: "string \<Rightarrow> 64 word"
  conns :: "nat list"
  dbs :: "nat list"

type_synonym store_example = "(nat, nat, ex_store) DB"

definition bytes_text :: "string option \<Rightarrow> string" where
  "bytes_text b = (case b of None \<Rightarrow> '''' | Some s \<Rightarrow> s)"

definition fresh_number :: "nat list \<Rightarrow> nat" where
  "fresh_number xs = Suc (sum_list xs)"

definition on_store :: "(ex_store \<Rightarrow> ex_store) \<Rightarrow> store_example \<Rightarrow> store_example" where
  "on_store f db = db\<lparr>outside := f (outside db)\<rparr>"

definition take_number :: "store_example \<Rightarrow> (go_error + nat) \<times> store_example" where
  "take_number db =
     (let k = fresh_number (conns (outside db)) in (Inr k, on_store (\<lambda>s. s\<lparr>conns := k # conns s\<rparr>) db))"

definition run_vacuum :: "string \<Rightarrow> store_example \<Rightarrow> store_example" where
  "run_vacuum text db =
     (case scan_quoted (CHR 0x22) text of None \<Rightarrow> db
      | Some (n, rest) \<Rightarrow> (case scan_quoted (CHR 0x27) (drop 6 rest) of None \<Rightarrow> db
        | Some (p, _) \<Rightarrow> on_store (\<lambda>s. s\<lparr>files := (files s)(p := Some (content s n))\<rparr>) db))"

definition run_detach :: "string \<Rightarrow> store_example \<Rightarrow> store_example" where
  "run_detach text db =
     (case scan_quoted (CHR 0x22) text of None \<Rightarrow> db
      | Some (n, rest) \<Rightarrow> on_store (\<lambda>s. s\<lparr>content := (content s)(n := '''')\<rparr>) db)"

definition run_attach :: "string \<Rightarrow> govalue list \<Rightarrow> store_example \<Rightarrow> store_example" where
  "run_attach text args db =
     (case (scan_quoted (CHR 0x22) text, args) of
        (Some (n, rest), [VString uri]) \<Rightarrow>
          on_store (\<lambda>s. s\<lparr>content := (content s)(n := shared s uri), version_number := (version_number s)(n := 1)\<rparr>) db
      | _ \<Rightarrow> db)"

definition run_statement :: "string \<Rightarrow> govalue list \<Rightarrow> store_example \<Rightarrow> store_example" where
  "run_statement st args db =
     (if take 7 st = ''VACUUM '' then run_vacuum (drop 7 st) db
      else if take 16 st = ''DETACH DATABASE '' then run_detach (drop 16 st) db
      else if take 21 st = ''ATTACH DATABASE ? AS '' then run_attach (drop 21 st) args db
      else db)"

definition read_version :: "string \<Rightarrow> store_example \<Rightarrow> 64 word" where
  "read_version st db =
     (case scan_quoted (CHR 0x22) (drop 7 st) of None \<Rightarrow> 0 | Some (n, rest) \<Rightarrow> version_number (outside db) n)"

definition store_driver :: "nat \<Rightarrow> store_example driver_conn" where
  "store_driver k =
     \<lparr>Serialize = Some (\<lambda>db. (Inr (Some (content (outside db) ''main'')), db)),
      Deserialize = Some (\<lambda>img db. (None, on_store (\<lambda>s. s\<lparr>content := (content s)(''main'' := bytes_text img)\<rparr>) db)),
      NewRestore = Some (\<lambda>p db. (Inr 0, on_store (\<lambda>s. s\<lparr>job := (job s)(0 := (conn_uri s k, files s p))\<rparr>) db))\<rparr>"

definition store_pool :: "store_example pool_engine" where
  "store_pool = \<lparr>Pool_Conn = (\<lambda>ctx. take_number), Pool_PingContext = (\<lambda>ctx db. (None, db)),
     Pool_PrepareContext = (\<lambda>ctx st db. (Inr 0, db)), Conn_BeginTx = (\<lambda>k ctx opts db. (Inr 0, db)),
     Conn_PingContext = (\<lambda>k ctx db. (None, db)),
     Conn_Close = (\<lambda>k db. (None, on_store (\<lambda>s. s\<lparr>conns := removeAll k (conns s)\<rparr>) db)),
     Tx_PrepareContext = (\<lambda>tx ctx st db. (Inr 0, db)), Stmt_ExecContext = (\<lambda>s ctx args db. (Inr (Inr 0), db)),
     Stmt_QueryContext = (\<lambda>s ctx args db. (Inr ex_rows, db)), Stmt_Close = (\<lambda>s db. (None, db))\<rparr>"

definition store_engine :: "store_example storage_engine" where
  "store_engine =
     \<lparr>Conn_Raw = (\<lambda>k db. (Inr (store_driver k), db)),
      Conn_QueryRowScan = (\<lambda>k ctx st db. (Inr (read_version st db), db)),
      Conn_ExecContext = (\<lambda>k ctx st args db. (Inr (Inr 0), run_statement st args db)),
      Restore_Step = (\<lambda>j n db. (None, on_store (\<lambda>s. s\<lparr>shared := (shared s)(fst (job s j) := bytes_text (snd (job s j)))\<rparr>) db)),
      Restore_Finish = (\<lambda>j db. (None, db)),
      sqlite_Open = (\<lambda>uri db. let h = fresh_number (dbs (outside db)) in
        (Inr h, on_store (\<lambda>s. s\<lparr>dbs := h # dbs s, db_uri := (db_uri s)(h := uri)\<rparr>) db)),
      Opened_Conn = (\<lambda>h ctx db. let k = fresh_number (conns (outside db)) in
        (Inr k, on_store (\<lambda>s. s\<lparr>conns := k # conns s, conn_uri := (conn_uri s)(k := db_uri s h)\<rparr>) db)),
      Opened_Close = (\<lambda>h db. (None, on_store (\<lambda>s. s\<lparr>dbs := removeAll h (dbs s)\<rparr>) db)),
      os_CreateTemp = (\<lambda>p db. (Inr ''tmp'', db)),
      File_Write = (\<lambda>p b db. (None, on_store (\<lambda>s. s\<lparr>files := (files s)(p := b)\<rparr>) db)),
      File_Close = (\<lambda>p db. (None, db)),
      os_Remove = (\<lambda>p db. (None, on_store (\<lambda>s. s\<lparr>files := (files s)(p := None)\<rparr>) db)),
      os_ReadFile = (\<lambda>p db. (Inr (files (outside db) p), db))\<rparr>"

definition store_env :: "(nat, nat, ex_store) backup_env" where
  "store_env = (store_pool, store_engine)"

definition store_view :: "store_example \<Rightarrow> string storage" where
  "store_view db = storage.truncate (outside db)"

definition store_res :: "store_example \<Rightarrow> resources" where
  "store_res db = (set (conns (outside db)), set (dbs (outside db)))"

lemma take_lit: "take 7 (''VACUUM '' @ s) = ''VACUUM ''" "drop 7 (''VACUUM '' @ s) = s"
  "take 7 (''DETACH DATABASE '' @ s) = ''DETACH ''" "take 16 (''DETACH DATABASE '' @ s) = ''DETACH DATABASE ''"
  "drop 16 (''DETACH DATABASE '' @ s) = s"
  "take 7 (''ATTACH DATABASE ? AS '' @ s) = ''ATTACH ''" "take 16 (''ATTACH DATABASE ? AS '' @ s) = ''ATTACH DATABASE ''"
  "take 21 (''ATTACH DATABASE ? AS '' @ s) = ''ATTACH DATABASE ? AS ''" "drop 21 (''ATTACH DATABASE ? AS '' @ s) = s"
  "drop 6 ('' INTO '' @ s) = s"
  by (simp_all add: numeral_eq_Suc)

lemma scan_ident: "scan_quoted (CHR 0x22) (quoteIdentifier n) = Some (n, [])"
    "scan_quoted (CHR 0x22) (quoteIdentifier n @ '' INTO '' @ t) = Some (n, '' INTO '' @ t)"
    "scan_quoted (CHR 0x27) (quoteStringLiteral p) = Some (p, [])"
  using ident.scan_quote [of "[]" n] ident.scan_quote [of "'' INTO '' @ t" n] strlit.scan_quote [of "[]" p]
  by (simp_all add: ends_quote_def)

lemma run_vacuum_statement [simp]:
  "run_statement (vacuumStatement n p) args db = on_store (\<lambda>s. s\<lparr>files := (files s)(p := Some (content s n))\<rparr>) db"
  by (simp only: run_statement_def vacuumStatement_def take_lit run_vacuum_def scan_ident
      option.case prod.case simp_thms if_True)

lemma run_detach_statement [simp]:
  "run_statement (detachStatement n) args db = on_store (\<lambda>s. s\<lparr>content := (content s)(n := '''')\<rparr>) db"
  by (simp add: run_statement_def detachStatement_def take_lit run_detach_def scan_ident del: append_Cons)

lemma run_attach_statement [simp]:
  "run_statement (reattachStatement n) [VString uri] db =
     on_store (\<lambda>s. s\<lparr>content := (content s)(n := shared s uri), version_number := (version_number s)(n := 1)\<rparr>) db"
  by (simp add: run_statement_def reattachStatement_def take_lit run_attach_def scan_ident del: append_Cons)

lemma outside_on_store [simp]: "outside (on_store f db) = f (outside db)"
  by (simp add: on_store_def)

lemma fresh_number [simp]: "fresh_number xs \<notin> set xs"
  using member_le_sum_list [of "fresh_number xs" xs] by (auto simp: fresh_number_def)

lemmas store_defs = store_env_def store_pool_def store_engine_def store_driver_def take_number_def Let_def


lemma store_view_fields [simp]:
  "content (store_view db) = content (outside db)" "files (store_view db) = files (outside db)"
  "shared (store_view db) = shared (outside db)" "db_uri (store_view db) = db_uri (outside db)"
  "conn_uri (store_view db) = conn_uri (outside db)" "job (store_view db) = job (outside db)"
  by (simp_all add: store_view_def storage.truncate_def)

lemma store_quiet: "quiet_storage store_env (\<lambda>db. content (outside db))"
  by (auto simp: quiet_storage_def steady_def steady_driver_def keeps_def store_defs)

lemma run_statement_res: "store_res (run_statement st args db) = store_res db"
  by (auto simp: run_statement_def run_vacuum_def run_detach_def run_attach_def store_res_def
      split: option.split list.split govalue.split)

lemma store_accounting: "accounting store_env store_res"
  by (auto simp: accounting_def steady_def steady_driver_def keeps_def takes_conn_def takes_db_def
      store_defs store_res_def run_statement_res [unfolded store_res_def])

lemma store_snapshotting: "snapshotting store_env store_view bytes_text"
  by (auto simp: snapshotting_def steady_def steady_driver_def snapshot_driver_def same_stores_def keeps_def
      store_defs bytes_text_def)

text \<open>A run of the example: a named schema \<^verbatim>\<open>audit\<close> whose schema version is 2.\<close>

definition store_at :: "ex_store \<Rightarrow> store_example" where
  "store_at s = \<lparr>schemas = [(''public'', empty_interceptors), (''audit'', empty_interceptors)], dispatchID = ''id'',
     fn_registry = [], db_closed = False, outside = s\<rparr>"

definition store_start :: "(nat, nat, ex_store) vault" where
  "store_start = \<lparr>restoreSequence = 0, live = store_at
     \<lparr>content = (\<lambda>n. if n = ''main'' then ''p0'' else ''a0''), files = (\<lambda>p. None), shared = (\<lambda>u. ''''),
       db_uri = (\<lambda>h. ''''), conn_uri = (\<lambda>k. ''''), job = (\<lambda>j. ('''', None)), version_number = (\<lambda>n. 2),
       conns = [], dbs = []\<rparr>\<rparr>"

definition store_backup :: backup where
  "store_backup = \<lparr>backup_database = True, schemaNames = [''audit'', ''public''],
    schemaVersions = [''audit'' \<mapsto> 2, ''public'' \<mapsto> 2], images = [''public'' \<mapsto> Some ''p0'', ''audit'' \<mapsto> Some ''a0'']\<rparr>"

text \<open>Both schemas change after the backup.\<close>

definition store_changed :: "(nat, nat, ex_store) vault" where
  "store_changed = store_start\<lparr>live := on_store (\<lambda>s. s\<lparr>content := (\<lambda>n. ''x'')\<rparr>) (live store_start)\<rparr>"

definition store_restored :: "(nat, nat, ex_store) vault" where
  "store_restored = snd (RestoreContext store_env (Some store_backup) Background store_changed)"

lemma store_at_simps [simp]:
  "outside (store_at s) = s" "db_closed (store_at s) = False" "on_store f (store_at s) = store_at (f s)"
  "schemaNamesLocked (store_at s) = [''audit'', ''public'']"
proof -
  have "sort_strings [''public'', ''audit''] = [''audit'', ''public'']" by code_simp
  then show "schemaNamesLocked (store_at s) = [''audit'', ''public'']"
    by (simp add: schemaNamesLocked_def store_at_def)
qed (simp_all add: store_at_def on_store_def)

lemma read_version_pragma:
  "read_version (''PRAGMA '' @ quoteIdentifier n @ ''.schema_version'') db = version_number (outside db) n"
proof -
  have "drop 7 (''PRAGMA '' @ s) = s" for s :: string by (simp add: numeral_eq_Suc)
  moreover have "scan_quoted (CHR 0x22) (quoteIdentifier n @ ''.schema_version'') = Some (n, ''.schema_version'')"
    by (rule ident.scan_quote) (simp add: ends_quote_def)
  ultimately show ?thesis by (simp only: read_version_def option.case prod.case)
qed

lemmas read_version_cons [simp] = read_version_pragma [unfolded append_Cons append_Nil]

lemma store_ops:
  "Pool_Conn (fst store_env) ctx (store_at s) =
     (Inr (fresh_number (conns s)), store_at (s\<lparr>conns := fresh_number (conns s) # conns s\<rparr>))"
  "Conn_Close (fst store_env) k (store_at s) = (None, store_at (s\<lparr>conns := removeAll k (conns s)\<rparr>))"
  "Conn_Raw (snd store_env) k (store_at s) = (Inr (store_driver k), store_at s)"
  "Conn_QueryRowScan (snd store_env) k ctx st (store_at s) = (Inr (read_version st (store_at s)), store_at s)"
  "Conn_ExecContext (snd store_env) k ctx st args (store_at s) = (Inr (Inr 0), run_statement st args (store_at s))"
  "Restore_Step (snd store_env) j n (store_at s) =
     (None, store_at (s\<lparr>shared := (shared s)(fst (job s j) := bytes_text (snd (job s j)))\<rparr>))"
  "Restore_Finish (snd store_env) j (store_at s) = (None, store_at s)"
  "sqlite_Open (snd store_env) uri (store_at s) = (Inr (fresh_number (dbs s)),
     store_at (s\<lparr>dbs := fresh_number (dbs s) # dbs s, db_uri := (db_uri s)(fresh_number (dbs s) := uri)\<rparr>))"
  "Opened_Conn (snd store_env) h ctx (store_at s) = (Inr (fresh_number (conns s)),
     store_at (s\<lparr>conns := fresh_number (conns s) # conns s, conn_uri := (conn_uri s)(fresh_number (conns s) := db_uri s h)\<rparr>))"
  "Opened_Close (snd store_env) h (store_at s) = (None, store_at (s\<lparr>dbs := removeAll h (dbs s)\<rparr>))"
  "os_CreateTemp (snd store_env) p (store_at s) = (Inr ''tmp'', store_at s)"
  "File_Write (snd store_env) p b (store_at s) = (None, store_at (s\<lparr>files := (files s)(p := b)\<rparr>))"
  "File_Close (snd store_env) p (store_at s) = (None, store_at s)"
  "os_Remove (snd store_env) p (store_at s) = (None, store_at (s\<lparr>files := (files s)(p := None)\<rparr>))"
  "os_ReadFile (snd store_env) p (store_at s) = (Inr (files s p), store_at s)"
  "Serialize (store_driver k) = Some (\<lambda>db. (Inr (Some (content (outside db) ''main'')), db))"
  "Deserialize (store_driver k) = Some (\<lambda>img db. (None, on_store (\<lambda>s. s\<lparr>content := (content s)(''main'' := bytes_text img)\<rparr>) db))"
  "NewRestore (store_driver k) = Some (\<lambda>p db. (Inr 0, on_store (\<lambda>s. s\<lparr>job := (job s)(0 := (conn_uri s k, files s p))\<rparr>) db))"
  by (simp_all add: store_defs)

lemmas store_run = andThen_def wrapping_def deferred_state onError_def must_def onLive_def yields_def fails_def
  readSchemaVersions.simps serializeConnection_def deserializeConnection_def vacuumSchemaImage_def
  takeImages_def vacuumImages.simps openRestoredSchema_def openHolder_def nextRestore_def holder_close_def
  restoreConnectionFromURI_def restoreImages_def commitRestore_def Background_def engineSchemaName_def
  cloneBytes_def fresh_number_def bytes_text_def image_of_def version_of_def Let_def

lemma store_backup_ok: "fst (BackupContext store_env True Background store_start) = Inr store_backup"
  by (simp add: BackupContext_def store_start_def store_backup_def store_run store_ops)

lemma store_restore_ok: "fst (RestoreContext store_env (Some store_backup) Background store_changed) = Inr ()"
  by (simp add: RestoreContext_def store_start_def store_changed_def store_backup_def store_run store_ops)

lemma store_second_restore:
  "fst (RestoreContext store_env (Some store_backup) Background store_restored) = Inl (versionChanged ''audit'' 1 2)"
  by (simp add: RestoreContext_def store_start_def store_changed_def store_restored_def store_backup_def store_run store_ops)

section \<open>Restoring brings the backup back\<close>

text \<open>
  C9: backup and restore are inverse: if a backup succeeds in one state and a restore of it in
  any other, then afterwards every schema of the backup, the public and the named ones, has
  the content it had when the backup was taken.  (The names are those of a database's
  schemas: different ignoring case, and none is \<^verbatim>\<open>main\<close>.)
\<close>

theorem backup_restore_roundtrip:
  assumes "snapshotting env view decode"
    and "BackupContext env receiver ctx v = (Inr b, v')"
    and "RestoreContext env (Some b) ctx' u = (Inr done, u')"
    and "distinct (map toLower (schemaNames b))" and "''main'' \<notin> toLower ` set (schemaNames b)"
    and "length (schemaNames b) < 2 ^ 64" and "n \<in> insert ''public'' (set (schemaNames b))"
  shows "content (view (live u')) (engineSchemaName n) = content (view (live v)) (engineSchemaName n)"
  using RestoreContext_content [OF assms(1,3-6)] BackupContext_captures [OF assms(1,2)] assms(7)
  by (simp only: captures_def)

theorem backup_restore_roundtrip_witness:
  "content (store_view (live store_restored)) ''audit'' = ''a0'' \<and> content (store_view (live store_changed)) ''audit'' = ''x''"
proof -
  have b: "BackupContext store_env True Background store_start =
      (Inr store_backup, snd (BackupContext store_env True Background store_start))"
    using store_backup_ok by (simp add: prod_eq_iff)
  have r: "RestoreContext store_env (Some store_backup) Background store_changed = (Inr (), store_restored)"
    using store_restore_ok by (simp add: prod_eq_iff store_restored_def)
  have "distinct (map toLower (schemaNames store_backup)) \<and> ''main'' \<notin> toLower ` set (schemaNames store_backup)"
    by (simp add: store_backup_def toLower_def ascii_lower_def)
  then have "content (store_view (live store_restored)) (engineSchemaName ''audit'') =
      content (store_view (live store_start)) (engineSchemaName ''audit'')"
    by (intro backup_restore_roundtrip [OF store_snapshotting b r]) (simp_all add: store_backup_def)
  then show ?thesis by (simp add: engineSchemaName_def store_start_def store_changed_def)
qed

section \<open>Failures change nothing\<close>

text \<open>
  C10: taking a backup never changes the data of the database, and a restore that reports an
  error has not changed it either, whichever of its steps failed and with whatever error
  (a closed database, changed schemas, an ended context, a bad image): the only exceptions
  are a \<^verbatim>\<open>DETACH\<close> or \<^verbatim>\<open>ATTACH\<close> that fails during the final swap.
\<close>

theorem failed_restore_keeps_data:
  assumes "quiet_storage env data"
  shows "data (live (snd (BackupContext env receiver ctx v))) = data (live v)
    \<and> (case RestoreContext env saved ctx v of
         (Inl e, v') \<Rightarrow> swapFailed e \<or> data (live v') = data (live v)
       | (Inr u, v') \<Rightarrow> True)"
proof -
  have images: "keeps (\<lambda>v. data (live v)) (\<lambda>v. takeImages env ctx c (schemaNamesLocked (live v)) v)" for c
    using keeps_snd [OF keeps_takeImages [OF quiet_steady [OF assms]]] by (simp add: keeps_def)
  have "keeps (\<lambda>v. data (live v))
     (andThen (wrapping p (onLive (Pool_Conn (fst env) ctx)))
       (\<lambda>c. deferred (onLive (Conn_Close (fst env) c)) (\<lambda>v. takeImages env ctx c (schemaNamesLocked (live v)) v)))" for p
    by (intro keep_rules images quiet_laws [OF assms])
  from keeps_snd [OF this] have "data (live (snd (BackupContext env receiver ctx v))) = data (live v)"
    by (simp add: BackupContext_def)
  moreover have "case RestoreContext env saved ctx v of
         (Inl e, v') \<Rightarrow> swapFailed e \<or> data (live v') = data (live v)
       | (Inr u, v') \<Rightarrow> True"
    using RestoreContext_error [OF assms, of saved ctx v] by (auto split: prod.split sum.split)
  ultimately show ?thesis ..
qed

theorem failed_restore_keeps_data_witness:
  "\<not> swapFailed (versionChanged ''audit'' 1 2)
   \<and> content (outside (live (snd (RestoreContext store_env (Some store_backup) Background store_restored)))) =
       content (outside (live store_restored))"
proof -
  have no: "\<not> swapFailed (versionChanged ''audit'' 1 2)"
    by (simp add: swapFailed_def versionChanged_def detachFailed_def attachFailed_def)
  from failed_restore_keeps_data [OF store_quiet, where v = store_restored and saved = "Some store_backup" and ctx = Background]
    store_second_restore no show ?thesis
    by (cases "RestoreContext store_env (Some store_backup) Background store_restored") (simp split: sum.splits)
qed

section \<open>Changed schemas are detected\<close>

lemma checkVersions_rejects:
  "n \<in> set names \<Longrightarrow> version_of current n \<noteq> version_of saved n \<Longrightarrow>
   \<exists>m \<in> set names. version_of current m \<noteq> version_of saved m
     \<and> checkVersions names current saved w = (Inl (versionChanged m (version_of current m) (version_of saved m)), w)"
  by (induction names) auto

text \<open>
  C38: a restore detects changed schemas: if the database has other schemas than the backup,
  it reports so before anything is done; if the version the engine reports for any schema
  differs from the backup's, it reports such a schema, having done no more than read the
  versions and given the connection back.  Both reports match \<^verbatim>\<open>ErrSchemaChanged\<close>.
\<close>

theorem restore_rejects_changes:
  assumes "backup_database b" and "\<not> db_closed (live v)"
  shows "(schemaNamesLocked (live v) \<noteq> schemaNames b \<longrightarrow>
      RestoreContext env (Some b) ctx v = (Inl (topologyChanged (schemaNamesLocked (live v)) (schemaNames b)), v))
    \<and> (\<forall>c v1 current v2 n.
        schemaNamesLocked (live v) = schemaNames b
        \<and> onLive (Pool_Conn (fst env) ctx) v = (Inr c, v1)
        \<and> readSchemaVersions env ctx c (schemaNames b) Map.empty v1 = (Inr current, v2)
        \<and> n \<in> set (schemaNames b) \<and> version_of current n \<noteq> version_of (schemaVersions b) n \<longrightarrow>
        (\<exists>m \<in> set (schemaNames b). version_of current m \<noteq> version_of (schemaVersions b) m
          \<and> RestoreContext env (Some b) ctx v =
              (Inl (versionChanged m (version_of current m) (version_of (schemaVersions b) m)),
               snd (onLive (Conn_Close (fst env) c) v2))))
    \<and> errors_is (topologyChanged ns ns') (Sentinel ErrSchemaChanged)
    \<and> errors_is (versionChanged m x y) (Sentinel ErrSchemaChanged)"
proof (intro conjI impI allI)
  fix c v1 current v2 n
  assume asm: "schemaNamesLocked (live v) = schemaNames b
        \<and> onLive (Pool_Conn (fst env) ctx) v = (Inr c, v1)
        \<and> readSchemaVersions env ctx c (schemaNames b) Map.empty v1 = (Inr current, v2)
        \<and> n \<in> set (schemaNames b) \<and> version_of current n \<noteq> version_of (schemaVersions b) n"
  then have "n \<in> set (schemaNames b)" "version_of current n \<noteq> version_of (schemaVersions b) n" by simp_all
  from checkVersions_rejects [OF this, of v2] obtain m where m: "m \<in> set (schemaNames b)"
    "version_of current m \<noteq> version_of (schemaVersions b) m"
    "checkVersions (schemaNames b) current (schemaVersions b) v2 =
       (Inl (versionChanged m (version_of current m) (version_of (schemaVersions b) m)), v2)"
    by (elim bexE conjE)
  with asm assms show "\<exists>m \<in> set (schemaNames b). version_of current m \<noteq> version_of (schemaVersions b) m
          \<and> RestoreContext env (Some b) ctx v =
              (Inl (versionChanged m (version_of current m) (version_of (schemaVersions b) m)),
               snd (onLive (Conn_Close (fst env) c) v2))"
    by (intro bexI [of _ m] conjI) (simp_all add: RestoreContext_def andThen_def wrapping_def deferred_state)
next
  assume "schemaNamesLocked (live v) \<noteq> schemaNames b"
  with assms show "RestoreContext env (Some b) ctx v =
      (Inl (topologyChanged (schemaNamesLocked (live v)) (schemaNames b)), v)"
    by (simp add: RestoreContext_def)
qed (simp_all add: topologyChanged_def versionChanged_def errors_is_def)

theorem restore_rejects_changes_witness:
  "RestoreContext store_env (Some (store_backup\<lparr>schemaNames := [''public'']\<rparr>)) Background store_start =
     (Inl (topologyChanged [''audit'', ''public''] [''public'']), store_start)"
  using restore_rejects_changes [of "store_backup\<lparr>schemaNames := [''public'']\<rparr>" store_start store_env Background]
  by (simp add: store_backup_def store_start_def)

section \<open>Resources\<close>

text \<open>
  C39: backups and restores give back what they take: whatever they return, an error of any
  step included, the connections handed out and the databases opened afterwards are those
  of before; in particular the one connection of the engine is free again, and no
  replacement database stays open.
\<close>

theorem backups_release_connections:
  assumes "accounting env res"
  shows "res (live (snd (BackupContext env receiver ctx v))) = res (live v)
    \<and> res (live (snd (RestoreContext env saved ctx v))) = res (live v)"
  using keeps_snd [OF BackupContext_resources [OF assms]] keeps_snd [OF RestoreContext_resources [OF assms]] by simp

theorem backups_release_connections_witness:
  "store_res (live store_restored) = ({}, {})"
  using backups_release_connections [OF store_accounting, where saved = "Some store_backup" and v = store_changed and ctx = Background]
  by (simp add: store_restored_def store_changed_def store_start_def store_res_def)

end
