(* ===== verification/Locks.thy ===== *)
theory Locks imports Prelude
begin

text \<open>
  The locking of the package: for each operation of a database the locks it acquires and
  releases, in order (\<^verbatim>\<open>database.go\<close>, \<^verbatim>\<open>backup.go\<close>, \<^verbatim>\<open>function.go\<close>, \<^verbatim>\<open>intercept.go\<close>,
  \<^verbatim>\<open>driver.go\<close>), and the interleavings of operations that run at the same time.  The sole
  connection of the engine is a lock too: a pool with one connection hands it to one
  operation at a time, and an operation waits for it until its context ends.
\<close>

section \<open>Locks\<close>

text \<open>
  \<^verbatim>\<open>topologyMu\<close>, the connection, \<^verbatim>\<open>mu\<close>, the mutex of the function registry and those of the
  interceptor registries (which no operation holds while it acquires another lock, so one
  stands for all), and the mutex of each adapter connection.
\<close>

datatype lock = Topology | Connection | StateLock | FunctionsLock | InterceptorsLock | Adapter nat

datatype mode = Shared | Exclusive

text \<open>
  \<open>Await l give_up\<close> waits for \<open>l\<close> unless the context of the operation ends, and then goes on
  with \<open>give_up\<close> and nothing else.
\<close>

datatype action = Acquire mode lock | Await lock "action list" | Release lock

definition brief :: "mode \<Rightarrow> lock \<Rightarrow> action list" where
  "brief m l = [Acquire m l, Release l]"

section \<open>What the operations lock\<close>

text \<open>\<^verbatim>\<open>Public\<close>, \<^verbatim>\<open>Schema\<close>, \<^verbatim>\<open>SchemaNames\<close> and \<^verbatim>\<open>isClosed\<close>.\<close>

definition reader_locks :: "action list" where
  "reader_locks = brief Shared StateLock"

definition RegisterFunction_locks :: "bool \<Rightarrow> action list" where
  "RegisterFunction_locks rejected =
     [Acquire Shared StateLock] @ (if rejected then [] else brief Exclusive FunctionsLock) @ [Release StateLock]"

text \<open>\<^verbatim>\<open>hasAny\<close>, \<^verbatim>\<open>has\<close> and \<^verbatim>\<open>implementation\<close>.\<close>

definition lookup_locks :: "action list" where
  "lookup_locks = brief Shared FunctionsLock"

definition interceptors_locks :: "mode \<Rightarrow> action list" where
  "interceptors_locks m = brief m InterceptorsLock"

definition Close_locks :: "action list" where
  "Close_locks = brief Exclusive StateLock"

text \<open>
  \<^verbatim>\<open>CreateSchema\<close>: rejected because the database is closed or the schema exists, failing to
  attach, or attached.
\<close>

definition CreateSchema_locks :: "bool \<Rightarrow> bool \<Rightarrow> action list" where
  "CreateSchema_locks rejected attached =
     [Acquire Exclusive Topology] @ brief Shared StateLock
     @ (if rejected then []
        else [Await Connection [Release Topology], Release Connection]
          @ (if attached then brief Exclusive StateLock else []))
     @ [Release Topology]"

text \<open>\<^verbatim>\<open>BackupContext\<close>, rejected (the database is closed) or not.\<close>

definition Backup_locks :: "bool \<Rightarrow> action list" where
  "Backup_locks rejected =
     [Acquire Exclusive Topology, Acquire Shared StateLock]
     @ (if rejected then []
        else [Await Connection [Release StateLock, Release Topology], Release Connection])
     @ [Release StateLock, Release Topology]"

text \<open>\<^verbatim>\<open>RestoreContext\<close>, rejected (closed, other schemas) or not.\<close>

definition Restore_locks :: "bool \<Rightarrow> action list" where
  "Restore_locks rejected =
     [Acquire Exclusive Topology, Acquire Shared StateLock]
     @ (if rejected then []
        else [Await Connection [Release StateLock, Release Topology], Release Connection])
     @ [Release StateLock, Release Topology]"

text \<open>
  What runs between the acquisition and the release of other locks without keeping any:
  reading the state, looking functions up, and from callbacks of the user registering
  functions and interceptors.
\<close>

datatype access =
    ReadState
  | LookupFunction
  | UseInterceptors mode
  | Register bool

fun access_locks :: "access \<Rightarrow> action list" where
  "access_locks ReadState = reader_locks"
| "access_locks LookupFunction = lookup_locks"
| "access_locks (UseInterceptors m) = interceptors_locks m"
| "access_locks (Register rejected) = RegisterFunction_locks rejected"

definition accesses :: "access list \<Rightarrow> action list" where
  "accesses as = concat (map access_locks as)"

text \<open>
  A statement or script of a schema reads the state and the registries, then holds the
  connection while the engine runs, from where callbacks may come.
\<close>

definition Engine_locks :: "access list \<Rightarrow> access list \<Rightarrow> action list" where
  "Engine_locks before during =
     accesses before @ [Await Connection []] @ accesses during @ [Release Connection]"

text \<open>
  The operations of the adapter hold the mutex of their connection; \<^verbatim>\<open>database/sql\<close> uses a
  driver connection from one goroutine at a time, so the operation that runs as \<open>i\<close> has the
  connection \<open>Adapter i\<close> for itself.  Some operations, and those that are rejected, hold it
  while they read the state.  A statement outside a transaction waits for the engine's
  connection with the mutex held; the rows of a query keep the engine's connection until
  they are closed, without the mutex.
\<close>

definition Adapter_locks :: "nat \<Rightarrow> access list \<Rightarrow> action list" where
  "Adapter_locks i as = [Acquire Exclusive (Adapter i)] @ accesses as @ [Release (Adapter i)]"

definition Statement_locks :: "nat \<Rightarrow> bool \<Rightarrow> access list \<Rightarrow> access list \<Rightarrow> action list" where
  "Statement_locks i isQuery before during =
     [Acquire Exclusive (Adapter i)] @ accesses before
     @ [Await Connection [Release (Adapter i)]] @ accesses during
     @ (if isQuery then [Release (Adapter i), Release Connection] else [Release Connection, Release (Adapter i)])"

text \<open>
  A transaction of the adapter: \<^verbatim>\<open>BeginTx\<close> takes the engine's connection, each operation
  inside takes the mutex and has its accesses, and \<^verbatim>\<open>finish\<close> gives the connection back.
\<close>

definition Transaction_locks :: "nat \<Rightarrow> access list \<Rightarrow> access list list \<Rightarrow> action list" where
  "Transaction_locks i before calls =
     [Acquire Exclusive (Adapter i)] @ accesses before
     @ [Await Connection [Release (Adapter i)], Release (Adapter i)]
     @ concat (map (Adapter_locks i) calls)
     @ [Acquire Exclusive (Adapter i), Release Connection, Release (Adapter i)]"

datatype operation =
    Access access
  | CloseOp
  | CreateSchemaOp bool bool
  | EngineOp "access list" "access list"
  | AdapterOp "access list"
  | StatementOp bool "access list" "access list"
  | TransactionOp "access list" "access list list"
  | BackupOp bool
  | RestoreOp bool

fun operation_locks :: "nat \<Rightarrow> operation \<Rightarrow> action list" where
  "operation_locks i (Access a) = access_locks a"
| "operation_locks i CloseOp = Close_locks"
| "operation_locks i (CreateSchemaOp rejected attached) = CreateSchema_locks rejected attached"
| "operation_locks i (EngineOp before during) = Engine_locks before during"
| "operation_locks i (AdapterOp as) = Adapter_locks i as"
| "operation_locks i (StatementOp isQuery before during) = Statement_locks i isQuery before during"
| "operation_locks i (TransactionOp before calls) = Transaction_locks i before calls"
| "operation_locks i (BackupOp rejected) = Backup_locks rejected"
| "operation_locks i (RestoreOp rejected) = Restore_locks rejected"

section \<open>Interleavings\<close>

text \<open>
  A thread has actions to do and holds locks.  As in Go's \<^verbatim>\<open>sync.RWMutex\<close>, a thread that wants
  a lock exclusively first announces itself, from when on no other thread gets the lock,
  and takes it when all that hold it have released it.  The context of a thread may end at
  any time.
\<close>

record thread =
  todo :: "action list"
  holding :: "lock \<Rightarrow> mode option"

record config =
  threads :: "thread list"
  announced :: "lock \<Rightarrow> nat option"
  ended :: "nat list"

abbreviation thread_of :: "config \<Rightarrow> nat \<Rightarrow> thread" where
  "thread_of cfg i \<equiv> threads cfg ! i"

definition start :: "operation list \<Rightarrow> config" where
  "start ops = \<lparr>threads = map (\<lambda>i. \<lparr>todo = operation_locks i (ops ! i), holding = Map.empty\<rparr>) [0..<length ops],
     announced = Map.empty, ended = []\<rparr>"

definition held_in :: "config \<Rightarrow> lock \<Rightarrow> mode \<Rightarrow> bool" where
  "held_in cfg l m \<longleftrightarrow> (\<exists>t \<in> set (threads cfg). holding t l = Some m)"

definition go_on :: "nat \<Rightarrow> action list \<Rightarrow> (lock \<Rightarrow> mode option) \<Rightarrow> config \<Rightarrow> config" where
  "go_on i as hs cfg = cfg\<lparr>threads := (threads cfg)[i := \<lparr>todo = as, holding = hs\<rparr>]\<rparr>"

definition advance :: "nat \<Rightarrow> lock \<Rightarrow> mode option \<Rightarrow> config \<Rightarrow> config" where
  "advance i l m cfg = go_on i (tl (todo (thread_of cfg i))) ((holding (thread_of cfg i))(l := m)) cfg"

inductive lock_step :: "config \<Rightarrow> config \<Rightarrow> bool" where
  step_release: "i < length (threads cfg) \<Longrightarrow> todo (thread_of cfg i) = Release l # rest \<Longrightarrow>
     lock_step cfg (advance i l None cfg)"
| step_shared: "i < length (threads cfg) \<Longrightarrow> todo (thread_of cfg i) = Acquire Shared l # rest \<Longrightarrow>
     announced cfg l = None \<Longrightarrow> \<not> held_in cfg l Exclusive \<Longrightarrow>
     lock_step cfg (advance i l (Some Shared) cfg)"
| step_announce: "i < length (threads cfg) \<Longrightarrow> todo (thread_of cfg i) = Acquire Exclusive l # rest \<Longrightarrow>
     announced cfg l = None \<Longrightarrow> \<not> held_in cfg l Exclusive \<Longrightarrow>
     lock_step cfg (cfg\<lparr>announced := (announced cfg)(l \<mapsto> i)\<rparr>)"
| step_exclusive: "i < length (threads cfg) \<Longrightarrow> todo (thread_of cfg i) = Acquire Exclusive l # rest \<Longrightarrow>
     announced cfg l = Some i \<Longrightarrow> \<not> held_in cfg l Shared \<Longrightarrow>
     lock_step cfg (advance i l (Some Exclusive) (cfg\<lparr>announced := (announced cfg)(l := None)\<rparr>))"
| step_await: "i < length (threads cfg) \<Longrightarrow> todo (thread_of cfg i) = Await l give_up # rest \<Longrightarrow>
     \<not> held_in cfg l Shared \<Longrightarrow> \<not> held_in cfg l Exclusive \<Longrightarrow>
     lock_step cfg (advance i l (Some Exclusive) cfg)"
| step_give_up: "i < length (threads cfg) \<Longrightarrow> todo (thread_of cfg i) = Await l give_up # rest \<Longrightarrow>
     i \<in> set (ended cfg) \<Longrightarrow>
     lock_step cfg (go_on i give_up (holding (thread_of cfg i)) cfg)"

inductive event :: "config \<Rightarrow> config \<Rightarrow> bool" where
  event_step: "lock_step cfg cfg' \<Longrightarrow> event cfg cfg'"
| event_context: "i < length (threads cfg) \<Longrightarrow> i \<notin> set (ended cfg) \<Longrightarrow>
     event cfg (cfg\<lparr>ended := i # ended cfg\<rparr>)"

definition all_done :: "config \<Rightarrow> bool" where
  "all_done cfg \<longleftrightarrow> (\<forall>t \<in> set (threads cfg). todo t = [])"

definition stuck :: "config \<Rightarrow> bool" where
  "stuck cfg \<longleftrightarrow> \<not> all_done cfg \<and> (\<nexists>cfg'. lock_step cfg cfg')"

inductive_simps lock_step_iff: "lock_step cfg cfg'"

end
