(* ===== verification/LockProgress.thy ===== *)
theory LockProgress imports Locks
begin

text \<open>
  Progress of operations that run at the same time.  Locks are ordered; an operation that
  only acquires locks above those it holds never takes part in a deadlock.  All operations
  but backups and restores are of this kind; those wait for the connection out of order,
  and go on when their context ends.
\<close>

section \<open>The order of the locks\<close>

fun rank :: "lock \<Rightarrow> nat" where
  "rank Topology = 0"
| "rank Connection = 1"
| "rank StateLock = 2"
| "rank FunctionsLock = 3"
| "rank InterceptorsLock = 4"
| "rank (Adapter i) = 5 + i"

instantiation lock :: linorder
begin

definition less_eq_lock :: "lock \<Rightarrow> lock \<Rightarrow> bool" where
  "l \<le> k \<longleftrightarrow> rank l \<le> rank k"

definition less_lock :: "lock \<Rightarrow> lock \<Rightarrow> bool" where
  "l < k \<longleftrightarrow> rank l < rank k"

instance
proof
  fix l k :: lock
  assume "l \<le> k" "k \<le> l"
  then show "l = k" by (cases l; cases k) (simp_all add: less_eq_lock_def)
qed (auto simp: less_eq_lock_def less_lock_def)

end

text \<open>
  Holding the locks \<open>H\<close>, the actions of the operation \<open>i\<close> acquire upwards only and end
  holding nothing.  The mutex of the own adapter connection does not count, because nobody
  else wants it, and unless \<open>ordered\<close> neither does a lock that is waited for while the
  context lasts.
\<close>

fun disciplined :: "bool \<Rightarrow> nat \<Rightarrow> lock set \<Rightarrow> action list \<Rightarrow> bool" where
  "disciplined ordered i H [] \<longleftrightarrow> H = {}"
| "disciplined ordered i H (Release l # as) \<longleftrightarrow> l \<in> H \<and> disciplined ordered i (H - {l}) as"
| "disciplined ordered i H (Acquire m l # as) \<longleftrightarrow>
     (if l = Adapter i then l \<notin> H else l \<notin> range Adapter \<and> (\<forall>k \<in> H - {Adapter i}. k < l))
     \<and> disciplined ordered i (insert l H) as"
| "disciplined ordered i H (Await l give_up # as) \<longleftrightarrow>
     l \<notin> range Adapter \<and> l \<notin> H \<and> (if ordered then \<forall>k \<in> H - {Adapter i}. k < l else True)
     \<and> disciplined ordered i H give_up \<and> disciplined ordered i (insert l H) as"

lemma disciplined_finite: "disciplined b i H as \<Longrightarrow> finite H"
proof (induction as arbitrary: H)
  case (Cons a as)
  then have "\<exists>l. disciplined b i (insert l H) as \<or> disciplined b i (H - {l}) as"
    by (cases a) (auto split: if_splits)
  with Cons.IH show ?case by force
qed simp

text \<open>Actions that from the locks \<open>H\<close> come back to them.\<close>

definition returns :: "nat \<Rightarrow> lock set \<Rightarrow> action list \<Rightarrow> bool" where
  "returns i H as \<longleftrightarrow> (\<forall>b bs. disciplined b i H bs \<longrightarrow> disciplined b i H (as @ bs))"

lemma returnsD: "returns i H as \<Longrightarrow> disciplined b i H bs \<Longrightarrow> disciplined b i H (as @ bs)"
  by (simp add: returns_def)

lemma returns_concat: "(\<And>x. x \<in> set xs \<Longrightarrow> returns i H (f x)) \<Longrightarrow> returns i H (concat (map f xs))"
  by (induction xs) (auto simp: returns_def)

text \<open>Where an access may happen: nothing is held but the connection and the own mutex.\<close>

definition light :: "nat \<Rightarrow> lock set \<Rightarrow> bool" where
  "light i H \<longleftrightarrow> H \<subseteq> {Connection, Adapter i}"

lemma light_facts:
  assumes "light i H"
  shows "StateLock \<notin> H" "FunctionsLock \<notin> H" "InterceptorsLock \<notin> H"
    and "\<forall>k \<in> H - {Adapter i}. k < StateLock" "\<forall>k \<in> H - {Adapter i}. k < FunctionsLock"
    and "\<forall>k \<in> H - {Adapter i}. k < InterceptorsLock"
  using assms by (auto simp: light_def less_lock_def)

lemma returns_access:
  assumes "light i H"
  shows "returns i H (access_locks a)"
proof (cases a)
  case (Register rejected)
  have "insert StateLock H - {StateLock} = H"
    and "insert FunctionsLock (insert StateLock H) - {FunctionsLock} = insert StateLock H"
    using light_facts [OF assms] by auto
  with Register light_facts [OF assms] show ?thesis
    by (auto simp: returns_def RegisterFunction_locks_def brief_def less_lock_def)
qed (use light_facts [OF assms] in
  \<open>auto simp: returns_def reader_locks_def lookup_locks_def interceptors_locks_def brief_def\<close>)

lemma returns_accesses: "light i H \<Longrightarrow> returns i H (accesses as)"
  unfolding accesses_def by (rule returns_concat) (rule returns_access)

lemma light_sets [simp]: "light i {}" "light i {Connection}" "light i {Adapter i}" "light i {Connection, Adapter i}"
  by (auto simp: light_def)

lemma returns_adapter: "H \<subseteq> {Connection} \<Longrightarrow> returns i H (Adapter_locks i as)"
proof -
  assume H: "H \<subseteq> {Connection}"
  then have "light i (insert (Adapter i) H)" by (auto simp: light_def)
  then have "returns i (insert (Adapter i) H) (accesses as)" by (rule returns_accesses)
  moreover have "Adapter i \<notin> H" using H by auto
  ultimately show ?thesis by (auto simp: returns_def Adapter_locks_def)
qed

fun uses_backup :: "operation \<Rightarrow> bool" where
  "uses_backup (BackupOp rejected) = True"
| "uses_backup (RestoreOp rejected) = True"
| "uses_backup op = False"

lemma operation_disciplined: "disciplined (\<not> uses_backup op) i {} (operation_locks i op)"
proof (cases op)
  case (Access a)
  then show ?thesis using returnsD [OF returns_access [of i "{}" a], of _ "[]"] by simp
next
  case (AdapterOp as)
  then show ?thesis using returnsD [OF returns_adapter [of "{}" i as], of _ "[]"] by simp
next
  case (EngineOp before during)
  then show ?thesis by (auto simp: Engine_locks_def intro!: returnsD returns_accesses)
next
  case (StatementOp isQuery before during)
  then show ?thesis
    by (auto simp: Statement_locks_def less_lock_def insert_commute insert_Diff_if intro!: returnsD returns_accesses)
next
  case (TransactionOp before calls)
  then show ?thesis
    by (auto simp: Transaction_locks_def less_lock_def insert_commute insert_Diff_if
        intro!: returnsD returns_accesses returns_concat returns_adapter)
qed (auto simp: Close_locks_def CreateSchema_locks_def Backup_locks_def Restore_locks_def brief_def
    reader_locks_def less_lock_def insert_Diff_if)

section \<open>The invariant\<close>

text \<open>\<open>strict i\<close>: the thread \<open>i\<close> waits in order too.\<close>

definition thread_ok :: "(nat \<Rightarrow> bool) \<Rightarrow> nat \<Rightarrow> thread \<Rightarrow> bool" where
  "thread_ok strict i t \<longleftrightarrow> disciplined (strict i) i (dom (holding t)) (todo t)
     \<and> dom (holding t) \<inter> range Adapter \<subseteq> {Adapter i}"

definition config_ok :: "(nat \<Rightarrow> bool) \<Rightarrow> config \<Rightarrow> bool" where
  "config_ok strict cfg \<longleftrightarrow> (\<forall>i < length (threads cfg). thread_ok strict i (thread_of cfg i))
   \<and> (\<forall>l i. announced cfg l = Some i \<longrightarrow>
        i < length (threads cfg) \<and> (\<exists>rest. todo (thread_of cfg i) = Acquire Exclusive l # rest))"

lemma config_ok_start: "config_ok (\<lambda>i. \<not> uses_backup (ops ! i)) (start ops)"
  by (simp add: config_ok_def start_def thread_ok_def operation_disciplined)

lemma go_on_fields [simp]:
  "announced (go_on i as hs cfg) = announced cfg" "ended (go_on i as hs cfg) = ended cfg"
  "length (threads (go_on i as hs cfg)) = length (threads cfg)"
  "thread_of (go_on i as hs cfg) j = (if j = i \<and> i < length (threads cfg)
     then \<lparr>todo = as, holding = hs\<rparr> else thread_of cfg j)"
  by (cases "i < length (threads cfg)"; auto simp: go_on_def nth_list_update list_update_beyond)+

lemma config_okD:
  assumes "config_ok strict cfg"
  shows "i < length (threads cfg) \<Longrightarrow> disciplined (strict i) i (dom (holding (thread_of cfg i))) (todo (thread_of cfg i))"
    and "i < length (threads cfg) \<Longrightarrow> holding (thread_of cfg i) (Adapter n) \<noteq> None \<Longrightarrow> n = i"
    and "announced cfg l = Some j \<Longrightarrow> j < length (threads cfg)"
    and "announced cfg l = Some j \<Longrightarrow> \<exists>rest. todo (thread_of cfg j) = Acquire Exclusive l # rest"
proof -
  assume "i < length (threads cfg)" and n: "holding (thread_of cfg i) (Adapter n) \<noteq> None"
  then have "dom (holding (thread_of cfg i)) \<inter> range Adapter \<subseteq> {Adapter i}"
    using assms by (simp add: config_ok_def thread_ok_def)
  with n show "n = i" by blast
qed (use assms in \<open>auto simp: config_ok_def thread_ok_def\<close>)

lemma config_ok_go_on:
  assumes ok: "config_ok strict cfg" and i: "i < length (threads cfg)"
    and next_ok: "disciplined (strict i) i (dom hs) as"
    and mine: "dom hs \<subseteq> dom (holding (thread_of cfg i)) \<union> {l. l \<in> range Adapter \<longrightarrow> l = Adapter i}"
    and ann: "\<And>k j. announced cfg' k = Some j \<Longrightarrow> announced cfg k = Some j \<and> j \<noteq> i"
    and same: "threads cfg' = threads cfg"
  shows "config_ok strict (go_on i as hs cfg')"
proof -
  have "thread_ok strict i \<lparr>todo = as, holding = hs\<rparr>"
  proof -
    have "dom (holding (thread_of cfg i)) \<inter> range Adapter \<subseteq> {Adapter i}"
      using ok i by (simp add: config_ok_def thread_ok_def)
    with mine have "dom hs \<inter> range Adapter \<subseteq> {Adapter i}" by blast
    with next_ok show ?thesis by (simp add: thread_ok_def)
  qed
  then have "thread_ok strict j (thread_of (go_on i as hs cfg') j)" if "j < length (threads cfg)" for j
    using ok that i same by (auto simp: config_ok_def)
  moreover have "j < length (threads cfg) \<and> (\<exists>rest. todo (thread_of (go_on i as hs cfg') j) = Acquire Exclusive k # rest)"
    if "announced cfg' k = Some j" for j k
    using ok ann [OF that] same by (auto simp: config_ok_def)
  ultimately show ?thesis
    using same by (auto simp: config_ok_def simp del: go_on_fields(4))
qed

lemma config_ok_advance:
  assumes ok: "config_ok strict cfg" and i: "i < length (threads cfg)" "todo (thread_of cfg i) = a # rest"
    and next_ok: "disciplined (strict i) i (dom ((holding (thread_of cfg i))(l := m))) rest"
    and mine: "l \<in> range Adapter \<Longrightarrow> l \<in> dom (holding (thread_of cfg i)) \<or> l = Adapter i"
    and ann: "\<And>k j. announced cfg' k = Some j \<Longrightarrow> announced cfg k = Some j \<and> j \<noteq> i"
    and same: "threads cfg' = threads cfg"
  shows "config_ok strict (advance i l m cfg')"
proof -
  let ?hs = "(holding (thread_of cfg i))(l := m)"
  have "x = l \<or> x \<in> dom (holding (thread_of cfg i))" if "x \<in> dom ?hs" for x
    using that by (auto split: if_splits)
  with mine have "dom ?hs \<subseteq> dom (holding (thread_of cfg i)) \<union> {l. l \<in> range Adapter \<longrightarrow> l = Adapter i}" by blast
  from config_ok_go_on [OF ok i(1) next_ok this ann same] show ?thesis
    by (simp add: advance_def same i(2))
qed

text \<open>A thread that is not about to take a lock exclusively has announced nothing.\<close>

lemma not_announced:
  assumes "config_ok strict cfg" and "todo (thread_of cfg i) = a # rest" and "\<And>l. a \<noteq> Acquire Exclusive l"
    and "announced cfg k = Some j"
  shows "j \<noteq> i"
proof
  assume "j = i"
  with config_okD(4) [OF assms(1,4)] assms(2) have "a = Acquire Exclusive k" by auto
  with assms(3) show False by blast
qed

lemma config_ok_step:
  assumes ok: "config_ok strict cfg" and "lock_step cfg cfg'"
  shows "config_ok strict cfg'"
  using assms(2)
proof cases
  case (step_release i l rest)
  have "disciplined (strict i) i (dom (holding (thread_of cfg i)) - {l}) rest"
    using config_okD(1) [OF ok step_release(2)] by (simp add: step_release(3))
  moreover have "l \<in> dom (holding (thread_of cfg i))"
    using config_okD(1) [OF ok step_release(2)] by (simp add: step_release(3))
  ultimately show ?thesis
    unfolding step_release(1) using not_announced [OF ok step_release(3)]
    by (intro config_ok_advance [OF ok step_release(2,3)]) auto
next
  case (step_shared i l rest)
  have "disciplined (strict i) i (insert l (dom (holding (thread_of cfg i)))) rest"
    and "l \<in> range Adapter \<Longrightarrow> l = Adapter i"
    using config_okD(1) [OF ok step_shared(2)] by (auto simp: step_shared(3) split: if_splits)
  then show ?thesis
    unfolding step_shared(1) using not_announced [OF ok step_shared(3)]
    by (intro config_ok_advance [OF ok step_shared(2,3)]) auto
next
  case (step_announce i l rest)
  with ok show ?thesis by (auto simp: config_ok_def)
next
  case (step_exclusive i l rest)
  have next_ok: "disciplined (strict i) i (insert l (dom (holding (thread_of cfg i)))) rest"
    "l \<in> range Adapter \<Longrightarrow> l = Adapter i"
    using config_okD(1) [OF ok step_exclusive(2)] by (auto simp: step_exclusive(3) split: if_splits)
  have only: "k = l" if "announced cfg k = Some i" for k
    using config_okD(4) [OF ok that] step_exclusive(3) by simp
  show ?thesis
    unfolding step_exclusive(1)
  proof (rule config_ok_advance [OF ok step_exclusive(2,3)])
    fix k j
    assume "announced (cfg\<lparr>announced := (announced cfg)(l := None)\<rparr>) k = Some j"
    then have "announced cfg k = Some j" "k \<noteq> l" by (simp_all split: if_splits)
    with only show "announced cfg k = Some j \<and> j \<noteq> i" by blast
  qed (use next_ok in auto)
next
  case (step_await i l give_up rest)
  have "disciplined (strict i) i (insert l (dom (holding (thread_of cfg i)))) rest" "l \<notin> range Adapter"
    using config_okD(1) [OF ok step_await(2)] by (simp_all add: step_await(3))
  then show ?thesis
    unfolding step_await(1) using not_announced [OF ok step_await(3)]
    by (intro config_ok_advance [OF ok step_await(2,3)]) auto
next
  case (step_give_up i l give_up rest)
  have "disciplined (strict i) i (dom (holding (thread_of cfg i))) give_up"
    using config_okD(1) [OF ok step_give_up(2)] by (simp add: step_give_up(3))
  then show ?thesis
    unfolding step_give_up(1) using not_announced [OF ok step_give_up(3)]
    by (intro config_ok_go_on [OF ok step_give_up(2)]) auto
qed

section \<open>Progress\<close>

lemma free_lock_step:
  assumes ok: "config_ok strict cfg" and i: "i < length (threads cfg)" "todo (thread_of cfg i) = Acquire m l # rest"
    and free: "\<And>m. \<not> held_in cfg l m"
  shows "\<exists>cfg'. lock_step cfg cfg'"
proof (cases "announced cfg l")
  case None
  with i free show ?thesis by (cases m) (blast intro: step_shared step_announce)+
next
  case (Some j)
  then obtain rest' where "j < length (threads cfg)" "todo (thread_of cfg j) = Acquire Exclusive l # rest'"
    using config_okD(3,4) [OF ok] by blast
  with Some free show ?thesis by (blast intro: step_exclusive)
qed

lemma held_in_iff: "held_in cfg l m \<longleftrightarrow> (\<exists>j < length (threads cfg). holding (thread_of cfg j) l = Some m)"
  unfolding held_in_def by (metis in_set_conv_nth)

text \<open>The locks that are held, without the mutexes of adapter connections; the highest is somebody's.\<close>

lemma highest_holder:
  assumes ok: "config_ok strict cfg" and "\<not> all_done cfg"
  shows "\<exists>i < length (threads cfg). todo (thread_of cfg i) \<noteq> []
    \<and> (\<forall>l. (\<forall>k \<in> dom (holding (thread_of cfg i)) - {Adapter i}. k < l) \<longrightarrow> l \<notin> range Adapter
         \<longrightarrow> (\<forall>m. \<not> held_in cfg l m))"
proof -
  let ?held = "{l. l \<notin> range Adapter \<and> (\<exists>m. held_in cfg l m)}"
  have "?held \<subseteq> {Topology, Connection, StateLock, FunctionsLock, InterceptorsLock}"
    by (rule subsetI) (case_tac x; auto)
  then have fin: "finite ?held" by (rule finite_subset) simp
  show ?thesis
  proof (cases "?held = {}")
    case True
    obtain t where "t \<in> set (threads cfg)" "todo t \<noteq> []" using assms(2) by (auto simp: all_done_def)
    then obtain i where "i < length (threads cfg)" "todo (thread_of cfg i) \<noteq> []"
      by (metis in_set_conv_nth)
    with True show ?thesis by blast
  next
    case False
    then obtain h where h: "h \<in> ?held" "\<forall>k \<in> ?held. k \<le> h"
      using Max_in [OF fin] Max_ge [OF fin] by blast
    then obtain i where i: "i < length (threads cfg)" "holding (thread_of cfg i) h \<noteq> None"
      by (auto simp: held_in_iff)
    with config_okD(1) [OF ok i(1)] have "todo (thread_of cfg i) \<noteq> []" by auto
    moreover have "\<not> held_in cfg l m"
      if above: "\<forall>k \<in> dom (holding (thread_of cfg i)) - {Adapter i}. k < l" and "l \<notin> range Adapter" for l m
    proof
      assume "held_in cfg l m"
      with \<open>l \<notin> range Adapter\<close> h(2) have "l \<le> h" by blast
      moreover have "h < l" using above i(2) h(1) by auto
      ultimately show False by simp
    qed
    ultimately show ?thesis using i(1) by blast
  qed
qed

text \<open>
  As long as the contexts of the threads that wait out of order have ended, something can
  happen.
\<close>

lemma progress:
  assumes ok: "config_ok strict cfg" and "\<not> all_done cfg"
    and impatient: "\<And>i l give_up rest. i < length (threads cfg) \<Longrightarrow> \<not> strict i \<Longrightarrow>
      todo (thread_of cfg i) = Await l give_up # rest \<Longrightarrow> i \<in> set (ended cfg)"
  shows "\<exists>cfg'. lock_step cfg cfg'"
proof -
  obtain i where i: "i < length (threads cfg)" "todo (thread_of cfg i) \<noteq> []"
    and top: "\<And>l m. \<forall>k \<in> dom (holding (thread_of cfg i)) - {Adapter i}. k < l \<Longrightarrow> l \<notin> range Adapter
      \<Longrightarrow> \<not> held_in cfg l m"
    using highest_holder [OF assms(1,2)] by blast
  then obtain a rest where a: "todo (thread_of cfg i) = a # rest" by (meson neq_Nil_conv)
  have d: "disciplined (strict i) i (dom (holding (thread_of cfg i))) (a # rest)"
    using config_okD(1) [OF ok i(1)] a by simp
  show ?thesis
  proof (cases a)
    case (Release l)
    with i a show ?thesis by (blast intro: step_release)
  next
    case (Acquire m l)
    have "\<not> held_in cfg l n" for n
    proof (cases "l = Adapter i")
      case True
      with d Acquire have "holding (thread_of cfg i) (Adapter i) = None" by auto
      with True config_okD(2) [OF ok] show ?thesis
        by (metis held_in_iff option.distinct(1))
    next
      case False
      with d Acquire top show ?thesis by (simp split: if_splits)
    qed
    with free_lock_step [OF ok i(1)] a Acquire show ?thesis by simp
  next
    case (Await l give_up)
    show ?thesis
    proof (cases "strict i")
      case True
      with d Await have "\<not> held_in cfg l n" for n by (intro top) simp_all
      with i a Await show ?thesis by (blast intro: step_await)
    next
      case False
      with impatient i a Await have "i \<in> set (ended cfg)" by blast
      with i a Await show ?thesis by (blast intro: step_give_up)
    qed
  qed
qed

section \<open>Termination\<close>

text \<open>
  An exclusive acquisition takes two steps, every other action one, and a wait is followed
  by the longer of its continuations; what a thread has left to do is one step less once it
  has announced itself.  Besides each context may end once.
\<close>

fun work :: "action list \<Rightarrow> nat" where
  "work [] = 0"
| "work (Acquire Exclusive l # as) = 2 + work as"
| "work (Acquire Shared l # as) = 1 + work as"
| "work (Await l give_up # as) = 1 + max (work give_up) (work as)"
| "work (Release l # as) = 1 + work as"

definition thread_left :: "config \<Rightarrow> nat \<Rightarrow> nat" where
  "thread_left cfg i = work (todo (thread_of cfg i)) - (if \<exists>l. announced cfg l = Some i then 1 else 0)"

definition steps_left :: "config \<Rightarrow> nat" where
  "steps_left cfg = (\<Sum>i < length (threads cfg). thread_left cfg i)"

definition contexts_left :: "config \<Rightarrow> nat" where
  "contexts_left cfg = card ({..<length (threads cfg)} - set (ended cfg))"

lemma steps_left_change:
  assumes i: "i < length (threads cfg)" and len: "length (threads cfg') = length (threads cfg)"
    and other: "\<And>j. j < length (threads cfg) \<Longrightarrow> j \<noteq> i \<Longrightarrow> thread_left cfg' j = thread_left cfg j"
    and less: "thread_left cfg' i < thread_left cfg i"
  shows "steps_left cfg' < steps_left cfg"
  unfolding steps_left_def len
proof (rule sum_strict_mono_ex1)
  show "\<forall>j \<in> {..<length (threads cfg)}. thread_left cfg' j \<le> thread_left cfg j"
  proof
    fix j assume "j \<in> {..<length (threads cfg)}"
    then show "thread_left cfg' j \<le> thread_left cfg j"
      using other [of j] less by (cases "j = i") simp_all
  qed
qed (use i less in auto)

text \<open>What a thread has left, before and after one of its actions that is not announced.\<close>

lemma thread_left_quiet:
  assumes "\<And>k j. announced cfg k = Some j \<Longrightarrow> j \<noteq> i"
  shows "thread_left cfg i = work (todo (thread_of cfg i))"
  using assms by (auto simp: thread_left_def)

lemma thread_left_same:
  assumes "todo (thread_of cfg' j) = todo (thread_of cfg j)"
    and "\<And>k. announced cfg' k = Some j \<longleftrightarrow> announced cfg k = Some j"
  shows "thread_left cfg' j = thread_left cfg j"
  by (simp add: thread_left_def assms)

lemma steps_left_go_on:
  assumes i: "i < length (threads cfg)" and quiet: "\<And>k j. announced cfg k = Some j \<Longrightarrow> j \<noteq> i"
    and less: "work as < work (todo (thread_of cfg i))"
  shows "steps_left (go_on i as hs cfg) < steps_left cfg"
proof (rule steps_left_change [OF i])
  have "thread_left (go_on i as hs cfg) i = work (todo (thread_of (go_on i as hs cfg) i))"
  proof (rule thread_left_quiet)
    fix k j
    assume "announced (go_on i as hs cfg) k = Some j"
    then have "announced cfg k = Some j" by (simp only: go_on_fields(1))
    then show "j \<noteq> i" by (rule quiet)
  qed
  also have "\<dots> = work as" by (simp only: go_on_fields(4) i simp_thms if_True thread.simps)
  also note less
  also have "work (todo (thread_of cfg i)) = thread_left cfg i"
    by (rule thread_left_quiet [symmetric]) (rule quiet)
  finally show "thread_left (go_on i as hs cfg) i < thread_left cfg i" .
next
  fix j assume "j \<noteq> i"
  then show "thread_left (go_on i as hs cfg) j = thread_left cfg j" by (intro thread_left_same) simp_all
qed simp

lemma steps_left_step:
  assumes ok: "config_ok strict cfg" and "lock_step cfg cfg'"
  shows "steps_left cfg' < steps_left cfg"
  using assms(2)
proof cases
  case (step_release i l rest)
  show ?thesis
    unfolding step_release(1) advance_def
    by (rule steps_left_go_on [OF step_release(2) not_announced [OF ok step_release(3)]])
      (simp_all add: step_release(3))
next
  case (step_shared i l rest)
  show ?thesis
    unfolding step_shared(1) advance_def
    by (rule steps_left_go_on [OF step_shared(2) not_announced [OF ok step_shared(3)]])
      (simp_all add: step_shared(3))
next
  case (step_await i l give_up rest)
  show ?thesis
    unfolding step_await(1) advance_def
    by (rule steps_left_go_on [OF step_await(2) not_announced [OF ok step_await(3)]])
      (simp_all add: step_await(3))
next
  case (step_give_up i l give_up rest)
  show ?thesis
    unfolding step_give_up(1)
    by (rule steps_left_go_on [OF step_give_up(2) not_announced [OF ok step_give_up(3)]])
      (simp_all add: step_give_up(3))
next
  case (step_announce i l rest)
  have "announced cfg k \<noteq> Some i" for k
    using config_okD(4) [OF ok, of k i] step_announce(3,4) by auto
  then have "thread_left cfg' i < thread_left cfg i"
    using step_announce by (auto simp: thread_left_def)
  moreover have "thread_left cfg' j = thread_left cfg j" if "j \<noteq> i" for j
    using step_announce that by (intro thread_left_same) auto
  ultimately show ?thesis using step_announce by (intro steps_left_change [of i]) simp_all
next
  case (step_exclusive i l rest)
  have only: "announced cfg k = Some i \<longleftrightarrow> k = l" for k
    using config_okD(4) [OF ok, of k i] step_exclusive(3,4) by auto
  then have "thread_left cfg i = 1 + work rest" "thread_left cfg' i = work rest"
    using step_exclusive by (auto simp: thread_left_def advance_def)
  moreover have "thread_left cfg' j = thread_left cfg j" if "j \<noteq> i" for j
    using step_exclusive that by (intro thread_left_same) (auto simp: advance_def)
  ultimately show ?thesis using step_exclusive by (intro steps_left_change [of i]) (simp_all add: advance_def)
qed

lemma event_left:
  assumes "config_ok strict cfg" and "event cfg cfg'"
  shows "config_ok strict cfg' \<and> length (threads cfg') = length (threads cfg)
    \<and> steps_left cfg' + contexts_left cfg' < steps_left cfg + contexts_left cfg"
  using assms(2)
proof cases
  case event_step
  then have "length (threads cfg') = length (threads cfg)" and "ended cfg' = ended cfg"
    by (cases; simp add: advance_def)+
  with event_step config_ok_step [OF assms(1)] steps_left_step [OF assms(1)] show ?thesis
    by (simp add: contexts_left_def)
next
  case (event_context i)
  let ?left = "{..<length (threads cfg)} - set (ended cfg)"
  have "card (?left - {i}) < card ?left" using event_context by (intro card_Diff1_less) auto
  moreover have "{..<length (threads cfg)} - insert i (set (ended cfg)) = ?left - {i}" by auto
  moreover have "steps_left cfg' = steps_left cfg"
    using event_context(1) by (simp add: steps_left_def thread_left_def)
  ultimately show ?thesis
    using event_context assms(1) by (simp add: contexts_left_def config_ok_def)
qed

lemma events_left:
  assumes "(event ^^ n) cfg cfg'" and "config_ok strict cfg"
  shows "config_ok strict cfg' \<and> length (threads cfg') = length (threads cfg)
    \<and> n + (steps_left cfg' + contexts_left cfg') \<le> steps_left cfg + contexts_left cfg"
  using assms(1)
proof (induction n arbitrary: cfg')
  case (Suc n)
  then obtain c where "(event ^^ n) cfg c" "event c cfg'" by auto
  with Suc.IH event_left show ?case by fastforce
qed (use assms(2) in simp)

definition total_work :: "operation list \<Rightarrow> nat" where
  "total_work ops = (\<Sum>i < length ops. work (operation_locks i (ops ! i))) + length ops"

lemma left_start: "steps_left (start ops) + contexts_left (start ops) = total_work ops"
  by (simp add: steps_left_def thread_left_def start_def contexts_left_def total_work_def)

lemma reachable_left:
  assumes "(event ^^ n) (start ops) cfg"
  shows "config_ok (\<lambda>i. \<not> uses_backup (ops ! i)) cfg" and "length (threads cfg) = length ops"
    and "n \<le> total_work ops"
  using events_left [OF assms config_ok_start] left_start [of ops] by (simp_all add: start_def)

section \<open>Properties\<close>

text \<open>
  C12: statements, adapter statements and transactions, callbacks that register functions,
  the creation of schemas and the closing of the database never deadlock: however many of
  them run at the same time and however they are interleaved, as long as one has not
  finished some step is possible, whether contexts end or not, and every run ends within a
  number of steps fixed by the operations.
\<close>

theorem operations_finish:
  assumes "list_all (\<lambda>op. \<not> uses_backup op) ops" and "(event ^^ n) (start ops) cfg"
  shows "\<not> stuck cfg \<and> n \<le> total_work ops"
proof -
  note left = reachable_left [OF assms(2)]
  have "\<exists>cfg'. lock_step cfg cfg'" if "\<not> all_done cfg"
    by (rule progress [OF left(1) that]) (use assms(1) left(2) in \<open>simp add: list_all_length\<close>)
  with left(3) show ?thesis by (auto simp: stuck_def)
qed

definition busy_ops :: "operation list" where
  "busy_ops = [EngineOp [LookupFunction] [ReadState, Register False],
     TransactionOp [ReadState] [[ReadState, UseInterceptors Shared]], StatementOp True [ReadState] [LookupFunction],
     CreateSchemaOp False True, CloseOp]"

theorem operations_finish_witness: "\<not> stuck (start busy_ops) \<and> 0 \<le> total_work busy_ops"
proof (rule operations_finish)
  show "list_all (\<lambda>op. \<not> uses_backup op) busy_ops" by (simp add: busy_ops_def)
  show "(event ^^ 0) (start busy_ops) (start busy_ops)" by simp
qed

text \<open>
  C14: backups and restores never block the others for good if their contexts end: in every
  interleaving of any operations, once the context of each backup and restore that waits for
  the connection has ended, some step is possible until all operations have finished.
\<close>

theorem backups_give_way:
  assumes "(event ^^ n) (start ops) cfg"
    and "\<And>i. i < length ops \<Longrightarrow> uses_backup (ops ! i) \<Longrightarrow> i \<in> set (ended cfg)"
  shows "\<not> stuck cfg \<and> n \<le> total_work ops"
proof -
  note left = reachable_left [OF assms(1)]
  have "\<exists>cfg'. lock_step cfg cfg'" if "\<not> all_done cfg"
    by (rule progress [OF left(1) that]) (use assms(2) left(2) in simp)
  with left(3) show ?thesis by (auto simp: stuck_def)
qed

text \<open>
  A run in which an adapter transaction that holds the connection, a backup and a close
  meet: the backup holds the read lock of the database while it waits for the connection,
  the close waits for the read lock to be released, and the transaction's next statement
  waits behind the close.
\<close>

definition dead_ops :: "operation list" where
  "dead_ops = [TransactionOp [] [[ReadState]], BackupOp False, CloseOp]"

definition dead_config :: config where
  "dead_config = \<lparr>threads =
     [\<lparr>todo = [Acquire Shared StateLock, Release StateLock, Release (Adapter 0),
         Acquire Exclusive (Adapter 0), Release Connection, Release (Adapter 0)],
       holding = [Connection \<mapsto> Exclusive, Adapter 0 \<mapsto> Exclusive]\<rparr>,
      \<lparr>todo = [Await Connection [Release StateLock, Release Topology], Release Connection,
         Release StateLock, Release Topology],
       holding = [Topology \<mapsto> Exclusive, StateLock \<mapsto> Shared]\<rparr>,
      \<lparr>todo = [Acquire Exclusive StateLock, Release StateLock], holding = Map.empty\<rparr>],
    announced = [StateLock \<mapsto> 2], ended = []\<rparr>"

lemma take_exclusive:
  assumes "i < length (threads cfg)" and "todo (thread_of cfg i) = Acquire Exclusive l # rest"
    and "announced cfg l = None" and "\<not> held_in cfg l Exclusive" and "\<not> held_in cfg l Shared"
  shows "lock_step\<^sup>*\<^sup>* cfg (advance i l (Some Exclusive) cfg)"
proof -
  let ?c = "cfg\<lparr>announced := (announced cfg)(l \<mapsto> i)\<rparr>"
  have "lock_step cfg ?c" using assms by (intro step_announce)
  moreover have "lock_step ?c (advance i l (Some Exclusive) (?c\<lparr>announced := (announced ?c)(l := None)\<rparr>))"
    using assms by (intro step_exclusive) (simp_all add: held_in_def)
  moreover have "?c\<lparr>announced := (announced ?c)(l := None)\<rparr> = cfg"
    using assms(3) by (cases cfg) (auto simp: fun_eq_iff)
  ultimately show ?thesis by simp
qed

definition dead_stage :: "action list \<Rightarrow> (lock \<Rightarrow> mode option) \<Rightarrow> action list \<Rightarrow> (lock \<Rightarrow> mode option) \<Rightarrow> config" where
  "dead_stage as hs bs ks = \<lparr>threads = [\<lparr>todo = as, holding = hs\<rparr>, \<lparr>todo = bs, holding = ks\<rparr>,
     \<lparr>todo = [Acquire Exclusive StateLock, Release StateLock], holding = Map.empty\<rparr>],
     announced = Map.empty, ended = []\<rparr>"

lemma stage_advance:
  "advance 0 l m (dead_stage (a # as) hs bs ks) = dead_stage as (hs(l := m)) bs ks"
  "advance (Suc 0) l m (dead_stage as hs (b # bs) ks) = dead_stage as hs bs (ks(l := m))"
  by (simp_all add: dead_stage_def advance_def go_on_def)

lemma stage_fields:
  "threads (dead_stage as hs bs ks) = [\<lparr>todo = as, holding = hs\<rparr>, \<lparr>todo = bs, holding = ks\<rparr>,
     \<lparr>todo = [Acquire Exclusive StateLock, Release StateLock], holding = Map.empty\<rparr>]"
  "announced (dead_stage as hs bs ks) = Map.empty"
  "held_in (dead_stage as hs bs ks) l m \<longleftrightarrow> hs l = Some m \<or> ks l = Some m"
  by (auto simp: dead_stage_def held_in_def)

lemma stage_steps:
  assumes "hs l \<noteq> Some Exclusive" and "ks l \<noteq> Some Exclusive"
  shows "lock_step (dead_stage (Release k # as) hs bs ks) (dead_stage as (hs(k := None)) bs ks)"
    and "lock_step (dead_stage as hs (Acquire Shared l # bs) ks) (dead_stage as hs bs (ks(l \<mapsto> Shared)))"
    and "hs l = None \<Longrightarrow> ks l = None \<Longrightarrow>
      lock_step (dead_stage (Await l give_up # as) hs bs ks) (dead_stage as (hs(l \<mapsto> Exclusive)) bs ks)"
    and "hs l = None \<Longrightarrow> ks l = None \<Longrightarrow>
      lock_step\<^sup>*\<^sup>* (dead_stage (Acquire Exclusive l # as) hs bs ks) (dead_stage as (hs(l \<mapsto> Exclusive)) bs ks)"
    and "hs l = None \<Longrightarrow> ks l = None \<Longrightarrow>
      lock_step\<^sup>*\<^sup>* (dead_stage as hs (Acquire Exclusive l # bs) ks) (dead_stage as hs bs (ks(l \<mapsto> Exclusive)))"
  using assms step_release [of 0 "dead_stage (Release k # as) hs bs ks" k as]
    step_shared [of "Suc 0" "dead_stage as hs (Acquire Shared l # bs) ks" l bs]
    step_await [of 0 "dead_stage (Await l give_up # as) hs bs ks" l give_up as]
    take_exclusive [of 0 "dead_stage (Acquire Exclusive l # as) hs bs ks" l as]
    take_exclusive [of "Suc 0" "dead_stage as hs (Acquire Exclusive l # bs) ks" l bs]
  by (simp_all add: stage_advance stage_fields)

lemma dead_config_reachable: "lock_step\<^sup>*\<^sup>* (start dead_ops) dead_config"
proof -
  let ?use = "[Acquire Shared StateLock, Release StateLock, Release (Adapter 0),
    Acquire Exclusive (Adapter 0), Release Connection, Release (Adapter 0)]"
  let ?got = "Acquire Exclusive (Adapter 0) # ?use"
  let ?tx = "Await Connection [Release (Adapter 0)] # Release (Adapter 0) # ?got"
  let ?wait = "[Await Connection [Release StateLock, Release Topology], Release Connection, Release StateLock, Release Topology]"
  let ?backup = "Acquire Exclusive Topology # Acquire Shared StateLock # ?wait"
  let ?none = "\<lambda>l. None" and ?own = "[Connection \<mapsto> Exclusive, Adapter 0 \<mapsto> Exclusive]"
  have s0: "start dead_ops = dead_stage (Acquire Exclusive (Adapter 0) # ?tx) ?none ?backup ?none"
    by (simp add: start_def dead_ops_def Transaction_locks_def Adapter_locks_def Backup_locks_def Close_locks_def
        accesses_def brief_def reader_locks_def dead_stage_def)
  have s1: "lock_step\<^sup>*\<^sup>* (dead_stage (Acquire Exclusive (Adapter 0) # ?tx) ?none ?backup ?none)
      (dead_stage ?tx [Adapter 0 \<mapsto> Exclusive] ?backup ?none)"
    by (rule stage_steps(4)) simp_all
  have s2: "lock_step (dead_stage ?tx [Adapter 0 \<mapsto> Exclusive] ?backup ?none)
      (dead_stage (Release (Adapter 0) # ?got) [Adapter 0 \<mapsto> Exclusive, Connection \<mapsto> Exclusive] ?backup ?none)"
    by (rule stage_steps(3)) simp_all
  have s3: "lock_step
      (dead_stage (Release (Adapter 0) # ?got) [Adapter 0 \<mapsto> Exclusive, Connection \<mapsto> Exclusive] ?backup ?none)
      (dead_stage ?got ([Adapter 0 \<mapsto> Exclusive, Connection \<mapsto> Exclusive](Adapter 0 := None)) ?backup ?none)"
    by (rule stage_steps(1) [of _ Topology]) simp_all
  have s4: "[Adapter 0 \<mapsto> Exclusive, Connection \<mapsto> Exclusive](Adapter 0 := None) = [Connection \<mapsto> Exclusive]"
    by (simp add: fun_eq_iff)
  have s5: "lock_step\<^sup>*\<^sup>* (dead_stage ?got [Connection \<mapsto> Exclusive] ?backup ?none) (dead_stage ?use ?own ?backup ?none)"
    by (rule stage_steps(4)) simp_all
  have s6: "lock_step\<^sup>*\<^sup>* (dead_stage ?use ?own ?backup ?none)
      (dead_stage ?use ?own (Acquire Shared StateLock # ?wait) [Topology \<mapsto> Exclusive])"
    by (rule stage_steps(5)) simp_all
  have s7: "lock_step (dead_stage ?use ?own (Acquire Shared StateLock # ?wait) [Topology \<mapsto> Exclusive])
      (dead_stage ?use ?own ?wait [Topology \<mapsto> Exclusive, StateLock \<mapsto> Shared])"
    by (rule stage_steps(2)) simp_all
  have s8: "lock_step (dead_stage ?use ?own ?wait [Topology \<mapsto> Exclusive, StateLock \<mapsto> Shared]) dead_config"
  proof -
    let ?s = "dead_stage ?use ?own ?wait [Topology \<mapsto> Exclusive, StateLock \<mapsto> Shared]"
    have "dead_config = ?s\<lparr>announced := (announced ?s)(StateLock \<mapsto> 2)\<rparr>"
      by (simp add: dead_stage_def dead_config_def)
    moreover have "lock_step ?s (?s\<lparr>announced := (announced ?s)(StateLock \<mapsto> 2)\<rparr>)"
      by (rule step_announce) (simp_all add: stage_fields)
    ultimately show ?thesis by (simp only:)
  qed
  note one = rtranclp.rtrancl_into_rtrancl [of lock_step] and many = rtranclp_trans [of lock_step]
  note opened = one [OF one [OF s1 s2] s3 [unfolded s4]]
  show ?thesis
    unfolding s0 by (rule one [OF one [OF many [OF many [OF opened s5] s6] s7] s8])
qed

lemma dead_config_stuck: "stuck dead_config"
proof -
  have "\<not> lock_step dead_config cfg'" for cfg'
  proof
    assume "lock_step dead_config cfg'"
    then show False
      by cases (auto simp: dead_config_def held_in_def less_Suc_eq numeral_3_eq_3)
  qed
  then show ?thesis by (simp add: stuck_def all_done_def) (simp add: dead_config_def)
qed

lemma event_steps: "lock_step\<^sup>*\<^sup>* cfg cfg' \<Longrightarrow> event\<^sup>*\<^sup>* cfg cfg'"
  by (induction rule: rtranclp_induct) (auto intro: event_step rtranclp.rtrancl_into_rtrancl)

text \<open>
  C13: a backup can deadlock with a transaction and a close: the three operations, started
  together, reach a state in which none of them has finished and none can go on unless the
  context of the backup ends.  With the creation of a schema in place of the backup, which
  does not hold the lock of the state while it waits for the connection, no reachable state
  is of this kind, whatever contexts do.
\<close>

theorem backup_can_deadlock:
  "(\<exists>cfg. event\<^sup>*\<^sup>* (start [TransactionOp [] [[ReadState]], BackupOp False, CloseOp]) cfg \<and> stuck cfg)
   \<and> (\<nexists>cfg. event\<^sup>*\<^sup>* (start [TransactionOp [] [[ReadState]], CreateSchemaOp False True, CloseOp]) cfg \<and> stuck cfg)"
proof
  show "\<exists>cfg. event\<^sup>*\<^sup>* (start [TransactionOp [] [[ReadState]], BackupOp False, CloseOp]) cfg \<and> stuck cfg"
    using event_steps [OF dead_config_reachable] dead_config_stuck unfolding dead_ops_def by blast
  have "\<not> stuck cfg"
    if run: "event\<^sup>*\<^sup>* (start [TransactionOp [] [[ReadState]], CreateSchemaOp False True, CloseOp]) cfg" for cfg
  proof -
    obtain n where "(event ^^ n) (start [TransactionOp [] [[ReadState]], CreateSchemaOp False True, CloseOp]) cfg"
      using run by (auto simp: rtranclp_power)
    note left = reachable_left [OF this]
    have "\<exists>cfg'. lock_step cfg cfg'" if "\<not> all_done cfg"
      by (rule progress [OF left(1) that])
        (use left(2) in \<open>auto simp: less_Suc_eq_0_disj split: nat.splits\<close>)
    then show ?thesis by (auto simp: stuck_def)
  qed
  then show "\<nexists>cfg. event\<^sup>*\<^sup>* (start [TransactionOp [] [[ReadState]], CreateSchemaOp False True, CloseOp]) cfg \<and> stuck cfg"
    by blast
qed

theorem backups_give_way_witness:
  "\<not> stuck (dead_config\<lparr>ended := [1]\<rparr>)"
proof -
  have "event\<^sup>*\<^sup>* (start dead_ops) dead_config" by (rule event_steps [OF dead_config_reachable])
  moreover have "event dead_config (dead_config\<lparr>ended := 1 # ended dead_config\<rparr>)"
    by (rule event_context) (simp_all add: dead_config_def)
  moreover have "ended dead_config = []" by (simp add: dead_config_def)
  ultimately have "event\<^sup>*\<^sup>* (start dead_ops) (dead_config\<lparr>ended := [1]\<rparr>)" by simp
  then obtain n where "(event ^^ n) (start dead_ops) (dead_config\<lparr>ended := [1]\<rparr>)" by (auto simp: rtranclp_power)
  moreover have "i \<in> set (ended (dead_config\<lparr>ended := [1]\<rparr>))" if "i < length dead_ops" "uses_backup (dead_ops ! i)" for i
    using that by (auto simp: dead_ops_def less_Suc_eq numeral_3_eq_3)
  ultimately show ?thesis using backups_give_way by blast
qed

end
