(* ===== verification/TreeTypes.thy ===== *)
theory TreeTypes imports FunctionsCorrect
begin

text \<open>
  The typing of parse trees.  A tree is a protocol buffer message of the parser package, so
  every message has the fields its type declares and every field holds a value of its
  declared type.  The declarations are not part of the repository: they are a parameter of
  which only the entries for the fields the package touches are used.  Both rewritings keep
  the typing, hence the deparser is only ever given trees it can read.
\<close>

section \<open>Message declarations\<close>

text \<open>
  A field is declared as a scalar, as a message of a type or as a list of such messages; an
  enumeration with the names of its values other than the zero value.  A populated field
  does not hold the zero value of its type, and of the \<^verbatim>\<open>oneof\<close> of a \<^verbatim>\<open>Node\<close> at most one
  field is populated.
\<close>

datatype fieldtype = TString | TBool | TInt | TEnum "string list" | TMsg mkind | TList mkind

type_synonym declarations = "mkind \<Rightarrow> string \<Rightarrow> fieldtype option"

fun holds :: "fieldtype \<Rightarrow> fvalue \<Rightarrow> bool" where
  "holds TString (FScalar (SString s)) = (s \<noteq> '''')"
| "holds TBool (FScalar (SBool b)) = b"
| "holds TInt (FScalar (SInt i)) = (i \<noteq> 0)"
| "holds (TEnum es) (FScalar (SEnum e)) = (e \<in> set es)"
| "holds (TMsg k) (FMsg m) = (kind m = k)"
| "holds (TList k) (FList ms) = (ms \<noteq> [] \<and> list_all (\<lambda>m. kind m = k) ms)"
| "holds _ _ = False"

definition field_typed :: "declarations \<Rightarrow> mkind \<Rightarrow> string \<times> fvalue \<Rightarrow> bool" where
  "field_typed S k = (\<lambda>(n, v). case S k n of None \<Rightarrow> False | Some t \<Rightarrow> holds t v)"

definition node_typed :: "declarations \<Rightarrow> msg \<Rightarrow> bool" where
  "node_typed S m \<longleftrightarrow> distinct (map fst (populated m))
     \<and> (if kind m = Node then length (populated m) \<le> 1 else True)
     \<and> list_all (field_typed S (kind m)) (populated m)"

definition well_typed :: "declarations \<Rightarrow> msg \<Rightarrow> bool" where
  "well_typed S m = list_all (node_typed S) (all_msgs m)"

text \<open>
  The declarations of the fields that the package reads or assigns, as
  \<^verbatim>\<open>pg_query.proto\<close> documents them.
\<close>

definition declares :: "declarations \<Rightarrow> bool" where
  "declares S \<longleftrightarrow>
     S RangeVar ''schemaname'' = Some TString
     \<and> S TypeName ''names'' = Some (TList Node)
     \<and> (case S A_Expr ''kind'' of Some (TEnum es) \<Rightarrow> ''AEXPR_LIKE'' \<in> set es | _ \<Rightarrow> False)
     \<and> S A_Expr ''name'' = Some (TList Node)
     \<and> S Node ''string'' = Some (TMsg StringMsg)
     \<and> S StringMsg ''sval'' = Some TString
     \<and> S Constraint ''pktable'' = Some (TMsg RangeVar)
     \<and> S CreateStmt ''relation'' = Some (TMsg RangeVar)
     \<and> S CreateStmt ''table_elts'' = Some (TList Node)
     \<and> S FuncCall ''funcname'' = Some (TList Node)
     \<and> S FuncCall ''args'' = Some (TList Node)
     \<and> S FuncCall ''location'' = Some TInt"

text \<open>\<^verbatim>\<open>MakeAConstStrNode\<close> returns a node of its declared type.\<close>

definition constants_typed :: "declarations \<Rightarrow> pg_query \<Rightarrow> bool" where
  "constants_typed S pq \<longleftrightarrow>
     (\<forall>s l. kind (MakeAConstStrNode pq s l) = Node \<and> well_typed S (MakeAConstStrNode pq s l))"

section \<open>Typing of updates\<close>

lemma well_typed_iff: "well_typed S m \<longleftrightarrow> node_typed S m \<and> (\<forall>c \<in> set (children m). well_typed S c)"
  unfolding well_typed_def by (rule list_all_all_msgs)

lemma well_typed_node: "well_typed S m \<Longrightarrow> node_typed S m"
  by (simp add: well_typed_iff [of S m])

lemma well_typed_child: "well_typed S m \<Longrightarrow> c \<in> set (children m) \<Longrightarrow> well_typed S c"
  by (simp add: well_typed_iff [of S m])

lemma holds_map_fvalue:
  "(\<And>c. c \<in> set (submsgs v) \<Longrightarrow> kind (f c) = kind c) \<Longrightarrow> holds t (map_fvalue f v) = holds t v"
  by (cases "(t, v)" rule: holds.cases) (auto simp: list_all_iff)

lemma node_typed_map_children:
  assumes "\<And>c. kind (f c) = kind c"
  shows "node_typed S (map_children f m) = node_typed S m"
proof -
  have "field_typed S k (n, map_fvalue f v) = field_typed S k (n, v)" for k n v
    by (simp add: field_typed_def holds_map_fvalue assms split: option.split)
  moreover have "map fst (populated (map_children f m)) = map fst (populated m)"
    by (simp add: populated_map_children comp_def split_def)
  ultimately show ?thesis
    by (simp add: node_typed_def) (simp add: populated_map_children list_all_iff split_def)
qed

lemma well_typed_map_children:
  assumes "\<And>c. kind (f c) = kind c" and "node_typed S m"
    and "\<And>c. c \<in> set (children m) \<Longrightarrow> well_typed S (f c)"
  shows "well_typed S (map_children f m)"
  using assms by (simp add: well_typed_iff [of S "map_children f m"] node_typed_map_children)

lemma get_field_member: "get_field n m = Some v \<Longrightarrow> (n, v) \<in> set (populated m)"
  by (simp add: get_field_def map_of_SomeD)

lemma node_typed_get:
  "node_typed S m \<Longrightarrow> get_field n m = Some v \<Longrightarrow> S (kind m) n = Some t \<Longrightarrow> holds t v"
  by (auto simp: node_typed_def list_all_iff field_typed_def dest!: get_field_member)

lemma length_update_old: "map_of fs f \<noteq> None \<Longrightarrow> length (AList.update f v fs) = length fs"
  by (induction fs) auto

lemma node_typed_set_field:
  assumes "node_typed S m" and "S (kind m) f = Some t" and "holds t v"
    and "kind m = Node \<Longrightarrow> get_field f m \<noteq> None"
  shows "node_typed S (set_field f v m)"
proof -
  have "list_all (field_typed S (kind m)) (AList.update f v (populated m))"
    using assms(1-3) set_update_subset [of f v "populated m"]
    by (fastforce simp: node_typed_def list_all_iff field_typed_def)
  moreover have "length (AList.update f v (populated m)) \<le> 1" if "kind m = Node"
    using assms(1) assms(4) [OF that] that
    by (simp add: node_typed_def length_update_old get_field_def del: not_None_eq)
  ultimately show ?thesis
    using assms(1) by (simp add: node_typed_def set_field_def distinct_update)
qed

lemma well_typed_set_field:
  assumes "well_typed S m" and "S (kind m) f = Some t" and "holds t v"
    and "list_all (well_typed S) (submsgs v)" and "kind m = Node \<Longrightarrow> get_field f m \<noteq> None"
  shows "well_typed S (set_field f v m)"
proof -
  have "node_typed S (set_field f v m)"
    using assms by (intro node_typed_set_field) (auto intro: well_typed_node)
  moreover have "well_typed S c" if "c \<in> set (children (set_field f v m))" for c
    using subsetD [OF children_set_field that] assms(1,4) by (auto simp: list_all_iff intro: well_typed_child)
  ultimately show ?thesis by (simp add: well_typed_iff [of S "set_field f v m"])
qed

lemma well_typed_clear_field:
  assumes "well_typed S m"
  shows "well_typed S (clear_field f m)"
proof -
  have "node_typed S (clear_field f m)"
    using well_typed_node [OF assms]
    by (auto simp: node_typed_def clear_field_def list_all_iff distinct_map_filter
        intro: le_trans [OF length_filter_le])
  then show ?thesis
    using subsetD [OF children_clear_field] well_typed_child [OF assms]
    by (auto simp: well_typed_iff [of S "clear_field f m"])
qed

lemma well_typed_set_string:
  assumes "well_typed S m" and "S (kind m) f = Some TString" and "kind m \<noteq> Node"
  shows "well_typed S (set_string f s m)"
  using assms well_typed_set_field [of S m f TString "FScalar (SString s)"]
  by (simp add: set_string_def well_typed_clear_field)

text \<open>Updating what a field holds, by a function that keeps types and kinds.\<close>

lemma well_typed_update_list:
  assumes "well_typed S m" and "\<And>x. kind (g x) = kind x"
    and "\<And>x. x \<in> set (get_list f m) \<Longrightarrow> well_typed S (g x)"
  shows "well_typed S (update_list f g m)"
proof (cases "get_field f m")
  case (Some v)
  obtain t where t: "S (kind m) f = Some t" "holds t v"
    using well_typed_node [OF assms(1)] get_field_member [OF Some]
    by (auto simp: node_typed_def list_all_iff field_typed_def split: option.splits)
  show ?thesis
  proof (cases v)
    case (FList xs)
    have "holds t (map_fvalue g v)" using t(2) by (simp add: holds_map_fvalue assms(2))
    with assms t(1) Some FList show ?thesis
      by (auto simp: update_list_def get_list_def list_all_iff intro!: well_typed_set_field)
  qed (use assms Some in \<open>simp_all add: update_list_def\<close>)
qed (use assms in \<open>simp add: update_list_def\<close>)

lemma well_typed_update_msg:
  assumes "well_typed S m" and "\<And>x. kind (g x) = kind x"
    and "\<And>x. get_msg f m = Some x \<Longrightarrow> well_typed S (g x)"
  shows "well_typed S (update_msg f g m)"
proof (cases "get_field f m")
  case (Some v)
  obtain t where t: "S (kind m) f = Some t" "holds t v"
    using well_typed_node [OF assms(1)] get_field_member [OF Some]
    by (auto simp: node_typed_def list_all_iff field_typed_def split: option.splits)
  show ?thesis
  proof (cases v)
    case (FMsg x)
    have "holds t (map_fvalue g v)" using t(2) by (simp add: holds_map_fvalue assms(2))
    with assms t(1) Some FMsg show ?thesis
      by (auto simp: update_msg_def get_msg_def intro!: well_typed_set_field)
  qed (use assms Some in \<open>simp_all add: update_msg_def\<close>)
qed (use assms in \<open>simp add: update_msg_def\<close>)

text \<open>Reading a field of a declared type.\<close>

lemma get_list_typed:
  assumes "well_typed S m" and "S (kind m) f = Some (TList k)" and "x \<in> set (get_list f m)"
  shows "kind x = k" and "well_typed S x"
proof -
  show "kind x = k"
  proof -
    obtain xs where "get_field f m = Some (FList xs)" and x: "x \<in> set xs"
      using assms(3) by (cases "get_field f m") (auto simp: get_list_def split: fvalue.splits)
    from node_typed_get [OF well_typed_node [OF assms(1)] this(1) assms(2)] x
    show ?thesis by (simp add: list_all_iff)
  qed
  show "well_typed S x" using assms get_list_child by (blast intro: well_typed_child)
qed

lemma get_msg_typed:
  assumes "well_typed S m" and "S (kind m) f = Some (TMsg k)" and "get_msg f m = Some x"
  shows "kind x = k" and "well_typed S x"
proof -
  show "kind x = k"
    using node_typed_get [OF well_typed_node [OF assms(1)] _ assms(2)] assms(3)
    by (auto simp: get_msg_def split: option.splits fvalue.splits)
  show "well_typed S x" using assms get_msg_child by (blast intro: well_typed_child)
qed

section \<open>The translator\<close>

lemma typed_MakeStrNode:
  assumes "declares S" and "s \<noteq> ''''"
  shows "well_typed S (MakeStrNode s)"
proof -
  have "node_typed S (string_msg s)" and "children (string_msg s) = []"
    using assms by (simp_all add: node_typed_def string_msg_def field_typed_def declares_def children_def)
  then have "well_typed S (string_msg s)" by (simp add: well_typed_iff [of S "string_msg s"])
  moreover have "node_typed S (MakeStrNode s)"
    using assms by (simp add: node_typed_def MakeStrNode_def string_msg_def field_typed_def declares_def)
  moreover have "children (MakeStrNode s) = [string_msg s]"
    by (simp add: MakeStrNode_def children_def)
  ultimately show ?thesis by (simp add: well_typed_iff [of S "MakeStrNode s"])
qed

lemma kind_MakeStrNode [simp]: "kind (MakeStrNode s) = Node"
  by (simp add: MakeStrNode_def)

text \<open>A pass whose two steps keep the typing keeps it.\<close>

context tree_pass
begin

lemma well_typed_pass:
  assumes "\<And>m. well_typed S m \<Longrightarrow> well_typed S (step m)"
    and "\<And>m. well_typed S m \<Longrightarrow> well_typed S (finish m)"
  shows "well_typed S m \<Longrightarrow> well_typed S (pass m)"
proof (induction m rule: pass_induct)
  case (node m)
  have "well_typed S (step m)" using node.prems by (rule assms(1))
  then have "well_typed S (map_children pass (step m))"
    by (intro well_typed_map_children kind_pass node.IH) (auto intro: well_typed_node well_typed_child)
  then show ?case by (subst pass_eq) (rule assms(2))
qed

end

lemma typed_rewriteRangeVar:
  assumes "declares S" and "well_typed S m" and "kind m = RangeVar"
  shows "well_typed S (rewriteRangeVar ds m)"
  using assms by (simp add: rewriteRangeVar_def Let_def well_typed_set_string declares_def)

lemma type_table_nonempty: "map_of type_table t = Some u \<Longrightarrow> u \<noteq> ''''"
proof -
  assume "map_of type_table t = Some u"
  then have "u \<in> snd ` set type_table" by (force dest: map_of_SomeD)
  moreover have "list_all (\<lambda>(t, u). u \<noteq> '''') type_table" by code_simp
  ultimately show ?thesis by (auto simp: list_all_iff)
qed

lemma typed_rewritePostgreSQLType:
  assumes "declares S" and "well_typed S m" and "kind m = TypeName"
  shows "well_typed S (rewritePostgreSQLType m)"
proof -
  have "well_typed S (set_field ''names'' (FList [MakeStrNode u]) m)"
    if "map_of type_table t = Some u" for t u
    using assms typed_MakeStrNode [OF assms(1) type_table_nonempty [OF that]]
    by (intro well_typed_set_field [of S m _ "TList Node"]) (simp_all add: declares_def)
  with assms(2) show ?thesis
    by (auto simp: rewritePostgreSQLType_def Let_def split: option.split)
qed

lemma typed_rewriteOperator:
  assumes "declares S" and "well_typed S m" and "kind m = StringMsg"
  shows "well_typed S (rewriteOperator m)"
  using assms by (simp add: rewriteOperator_def well_typed_set_string declares_def)

lemma kind_rewriteOperator [simp]: "kind (rewriteOperator m) = kind m"
  by (simp add: rewriteOperator_def)

lemma typed_rewriteILike:
  assumes "declares S" and m: "well_typed S m" and k: "kind m = A_Expr"
  shows "well_typed S (rewriteILike m)"
proof -
  let ?m = "set_field ''kind'' (FScalar (SEnum ''AEXPR_LIKE'')) m"
  obtain es where es: "S A_Expr ''kind'' = Some (TEnum es)" "''AEXPR_LIKE'' \<in> set es"
    using assms(1) by (auto simp: declares_def split: option.splits fieldtype.splits)
  have D: "S A_Expr ''name'' = Some (TList Node)" "S Node ''string'' = Some (TMsg StringMsg)"
    using assms(1) by (simp_all add: declares_def)
  have "well_typed S ?m"
    by (rule well_typed_set_field [OF m, of _ "TEnum es"]) (simp_all add: k es)
  moreover have "well_typed S (update_msg ''string'' rewriteOperator x)"
    if "x \<in> set (get_list ''name'' ?m)" for x
  proof -
    have x: "kind x = Node" "well_typed S x"
      using get_list_typed [OF \<open>well_typed S ?m\<close> _ that] k D(1) by simp_all
    show ?thesis
    proof (rule well_typed_update_msg [OF x(2)])
      fix y assume y: "get_msg ''string'' x = Some y"
      show "well_typed S (rewriteOperator y)"
        using get_msg_typed [OF x(2) _ y, of StringMsg] x(1) D(2)
        by (intro typed_rewriteOperator [OF assms(1)]) simp_all
    qed simp
  qed
  ultimately show ?thesis
    using m by (simp add: rewriteILike_def well_typed_update_list)
qed

lemma typed_rewriteNode:
  "declares S \<Longrightarrow> well_typed S m \<Longrightarrow> well_typed S (rewriteNode ds m)"
  by (cases "kind m")
    (simp_all add: rewriteNode_def typed_rewriteRangeVar typed_rewritePostgreSQLType typed_rewriteILike)

lemma typed_clearConstraint:
  assumes "declares S" and "well_typed S m"
  shows "well_typed S (clearConstraint ts m)"
proof -
  have "well_typed S (set_field ''pktable'' (FMsg (set_string ''schemaname'' '''' pk)) m)"
    if "kind m = Constraint" "get_msg ''pktable'' m = Some pk" for pk
  proof -
    have D: "S Constraint ''pktable'' = Some (TMsg RangeVar)" "S RangeVar ''schemaname'' = Some TString"
      using assms(1) by (simp_all add: declares_def)
    have pk: "kind pk = RangeVar" "well_typed S pk"
      using get_msg_typed [OF assms(2) _ that(2), of RangeVar] that(1) D(1) by simp_all
    have "well_typed S (set_string ''schemaname'' '''' pk)"
      by (rule well_typed_set_string [OF pk(2)]) (simp_all add: pk(1) D(2))
    then show ?thesis
      by (intro well_typed_set_field [OF assms(2), of _ "TMsg RangeVar"]) (simp_all add: that(1) pk(1) D(1))
  qed
  with assms(2) show ?thesis by (simp add: clearConstraint_def split: option.split)
qed

lemma typed_clear:
  "declares S \<Longrightarrow> well_typed S m \<Longrightarrow> well_typed S (clearSameSchemaForeignKeyQualifiers ts m)"
  by (rule clear.well_typed_pass) (simp_all add: typed_clearConstraint)

lemma typed_finishCreateStmt:
  assumes "declares S" and "well_typed S m"
  shows "well_typed S (finishCreateStmt m)"
proof -
  have "well_typed S (update_list ''table_elts'' (clearSameSchemaForeignKeyQualifiers ts) m)" for ts
    using assms(2)
    by (rule well_typed_update_list)
      (auto simp: clear.kind_pass intro: typed_clear [OF assms(1)] well_typed_child [OF assms(2)] get_list_child)
  with assms(2) show ?thesis by (simp add: finishCreateStmt_def split: option.split)
qed

lemma typed_rewrite:
  "declares S \<Longrightarrow> well_typed S m \<Longrightarrow> well_typed S (rewritePostgreSQLTree ds m)"
  by (rule rewrite.well_typed_pass) (simp_all add: typed_rewriteNode typed_finishCreateStmt)

section \<open>Calls of registered functions\<close>

lemma typed_routeCall:
  assumes "declares S" and "constants_typed S pq" and "well_typed S m" and "kind m = FuncCall"
  shows "well_typed S (routeCall pq did s f m)"
proof -
  have D: "S FuncCall ''funcname'' = Some (TList Node)" "S FuncCall ''args'' = Some (TList Node)"
    "S FuncCall ''location'' = Some TInt"
    using assms(1) by (simp_all add: declares_def)
  let ?m = "set_field ''funcname'' (FList [MakeStrNode dispatchFunctionName]) m"
  let ?args = "[MakeAConstStrNode pq did (-1), MakeAConstStrNode pq s (-1), MakeAConstStrNode pq f (-1)]
    @ get_list ''args'' m"
  have args: "kind x = Node" "well_typed S x" if "x \<in> set (get_list ''args'' m)" for x
    using get_list_typed [OF assms(3) _ that] assms(4) D(2) by simp_all
  have "well_typed S ?m"
    using typed_MakeStrNode [OF assms(1), of dispatchFunctionName] assms(3,4) D(1)
    by (intro well_typed_set_field [OF assms(3), of _ "TList Node"]) (simp_all add: dispatchFunctionName_def)
  then have "well_typed S (set_field ''args'' (FList ?args) ?m)"
    by (rule well_typed_set_field [of _ _ _ "TList Node"])
      (use assms(2,4) args D(2) in \<open>auto simp: constants_typed_def list_all_iff\<close>)
  then have "well_typed S (set_field ''location'' (FScalar (SInt (-1))) (set_field ''args'' (FList ?args) ?m))"
    by (rule well_typed_set_field [of _ _ _ TInt]) (simp_all add: assms(4) D(3))
  then show ?thesis by (simp add: routeCall_def)
qed

lemma typed_routeTree:
  assumes "declares S" and "constants_typed S pq"
  shows "well_typed S m \<Longrightarrow> well_typed S (routeTree pq did r ds m)"
proof (rule route.well_typed_pass)
  fix m assume "well_typed S m"
  then show "well_typed S (routeNode pq did r ds m)"
    using typed_routeCall [OF assms] by (auto simp: routeNode_def registeredCall_def split: option.split)
qed simp_all

lemma typed_rewriteFunctionTree:
  assumes "declares S" and "constants_typed S pq" and "well_typed S m"
    and "rewriteFunctionTree pq did r ds m c = Inr (m', c')"
  shows "well_typed S m'" and "kind m' = kind m"
  using assms(4) typed_routeTree [OF assms(1-3)]
  by (auto simp: rewriteFunctionTree_reference route.kind_pass split: if_splits)

section \<open>Properties\<close>

text \<open>Declarations for the trees of the examples.\<close>

definition example_declarations :: declarations where
  "example_declarations k n = map_of
     [((RangeVar, ''schemaname''), TString), ((RangeVar, ''relname''), TString),
      ((TypeName, ''names''), TList Node),
      ((A_Expr, ''kind''), TEnum [''AEXPR_OP'', ''AEXPR_LIKE'', ''AEXPR_ILIKE'']),
      ((A_Expr, ''name''), TList Node), ((A_Expr, ''lexpr''), TMsg Node),
      ((Node, ''string''), TMsg StringMsg), ((StringMsg, ''sval''), TString),
      ((Constraint, ''pktable''), TMsg RangeVar),
      ((CreateStmt, ''relation''), TMsg RangeVar), ((CreateStmt, ''table_elts''), TList Node),
      ((FuncCall, ''funcname''), TList Node), ((FuncCall, ''args''), TList Node),
      ((FuncCall, ''location''), TInt), ((FuncCall, ''funcformat''), TEnum [''COERCE_EXPLICIT_CALL'']),
      ((Node, ''select_stmt''), TMsg (OtherMsg ''SelectStmt'')),
      ((OtherMsg ''SelectStmt'', ''target_list''), TList Node),
      ((Node, ''func_call''), TMsg FuncCall), ((Node, ''a_const''), TMsg AConst),
      ((Node, ''a_expr''), TMsg A_Expr), ((AConst, ''sval''), TMsg StringMsg)] (k, n)"

lemma example_declares: "declares example_declarations"
  by code_simp

lemma example_constants_typed: "constants_typed example_declarations example_parser"
proof -
  have "well_typed example_declarations (example_const s l)" for s l
    unfolding well_typed_def all_msgs_example_const
    by (simp add: node_typed_def field_typed_def example_declarations_def example_const_def string_msg_def)
  moreover have "kind (example_const s l) = Node" for s l by (simp add: example_const_def)
  ultimately show ?thesis by (simp add: constants_typed_def example_parser_def)
qed



end
