(* ===== verification/Pipeline.thy ===== *)
theory Pipeline imports SchemaExecCorrect TreeTypes
begin

text \<open>
  The way of a statement from the caller to the engine, across \<^verbatim>\<open>schema.go\<close>,
  \<^verbatim>\<open>translator.go\<close> and \<^verbatim>\<open>function.go\<close>: it is parsed, rewritten and written out by the
  translator; the text is parsed again for calls of registered functions, rewritten and
  written out a second time.  What holds of the trees of one stage must survive the text
  between the stages; the laws of the parser this needs are stated here.
\<close>

section \<open>Relations of a tree\<close>

text \<open>
  The schemas that the relations of a tree name, with whether the relation is the target of
  a foreign key.
\<close>

function relations :: "bool \<Rightarrow> msg \<Rightarrow> (bool \<times> string) list" where
  "relations fk m =
     (if kind m = RangeVar then [(fk, get_string ''schemaname'' m)] else [])
     @ concat (map (\<lambda>(n, v). concat (map (relations (kind m = Constraint \<and> n = ''pktable'')) (submsgs v)))
         (populated m))"
  by pat_completeness auto
termination
  by (relation "measure (\<lambda>(b, m). msize m)") (auto intro: children_smaller)

declare relations.simps [simp del]

definition pinned_relation :: "bool \<times> string \<Rightarrow> bool" where
  "pinned_relation = (\<lambda>(fk, s). s \<noteq> ''public'' \<and> (fk \<or> s \<noteq> ''''))"

lemma set_relations:
  "set (relations fk m) = (if kind m = RangeVar then {(fk, get_string ''schemaname'' m)} else {})
     \<union> (\<Union>(n, v) \<in> set (populated m). \<Union>c \<in> set (submsgs v). set (relations (kind m = Constraint \<and> n = ''pktable'') c))"
  by (subst relations.simps) (auto simp: split_def)

lemma pinned_relations: "pinned fk m \<longleftrightarrow> list_all pinned_relation (relations fk m)"
proof (induction m arbitrary: fk rule: msize_induct)
  case (step m)
  have IH: "pinned b c \<longleftrightarrow> (\<forall>x \<in> set (relations b c). pinned_relation x)"
    if "(n, v) \<in> set (populated m)" "c \<in> set (submsgs v)" for n v c b
    using step.IH [OF children_smaller [OF child_of_field [OF that]], of b] by (simp add: list_all_iff)
  have "(\<forall>n v c. (n, v) \<in> set (populated m) \<longrightarrow> c \<in> set (submsgs v)
          \<longrightarrow> pinned (kind m = Constraint \<and> n = ''pktable'') c)
      \<longleftrightarrow> (\<forall>(n, v) \<in> set (populated m). \<forall>c \<in> set (submsgs v).
          \<forall>x \<in> set (relations (kind m = Constraint \<and> n = ''pktable'') c). pinned_relation x)"
    using IH by fast
  then show ?case
    unfolding list_all_iff
    by (simp add: pinned_iff [of fk m] set_relations [of fk m] ball_Un split_def pinned_relation_def
        del: split_paired_All)
qed

definition stmt_relations :: "raw_stmt list \<Rightarrow> (bool \<times> string) list" where
  "stmt_relations raws =
     concat (map (\<lambda>raw. case Stmt raw of None \<Rightarrow> [] | Some m \<Rightarrow> relations False m) raws)"

definition stmts_pinned :: "raw_stmt list \<Rightarrow> bool" where
  "stmts_pinned raws = list_all pinned_relation (stmt_relations raws)"

definition stmts_settled :: "pg_query \<Rightarrow> string \<Rightarrow> 'f functionRegistry \<Rightarrow> string \<Rightarrow> raw_stmt list \<Rightarrow> bool" where
  "stmts_settled pq did r ds raws =
     list_all (\<lambda>raw. case Stmt raw of None \<Rightarrow> True | Some m \<Rightarrow> list_all (settled pq did r ds) (all_msgs m)) raws"

text \<open>The documented shape of a constant node: it names no relation.\<close>

definition constants_unrelated :: "pg_query \<Rightarrow> bool" where
  "constants_unrelated pq \<longleftrightarrow> (\<forall>s l. list_all (\<lambda>x. kind x \<noteq> RangeVar) (all_msgs (MakeAConstStrNode pq s l)))"

lemma relations_none:
  "list_all (\<lambda>x. kind x \<noteq> RangeVar) (all_msgs m) \<Longrightarrow> relations fk m = []"
proof (induction m arbitrary: fk rule: msize_induct)
  case (step m)
  have "relations b c = []" if "(n, v) \<in> set (populated m)" "c \<in> set (submsgs v)" for n v c b
  proof (rule step.IH)
    have "c \<in> set (children m)" using that by (rule child_of_field)
    with step.prems show "msize c < msize m" "list_all (\<lambda>x. kind x \<noteq> RangeVar) (all_msgs c)"
      by (simp_all add: children_smaller list_all_all_msgs [of _ m])
  qed
  then show ?case
    using step.prems by (subst relations.simps) (auto simp: list_all_all_msgs [of _ m])
qed

lemma set_relations_children:
  "kind m \<noteq> Constraint \<Longrightarrow> set (relations fk m) =
     (if kind m = RangeVar then {(fk, get_string ''schemaname'' m)} else {})
     \<union> (\<Union>c \<in> set (children m). set (relations False c))"
  by (simp add: set_relations [of fk m] children_def split_def)

lemma relations_routeTree:
  assumes "constants_unrelated pq"
  shows "set (relations fk (routeTree pq did r ds m)) \<subseteq> set (relations fk m)"
proof (induction m arbitrary: fk rule: route.pass_induct)
  case (node m)
  let ?y = "map_children (routeTree pq did r ds) m"
  have y: "set (relations fk ?y) \<subseteq> set (relations fk m)"
    using node child_of_field
    by (fastforce simp: set_relations [of fk m] set_relations [of fk ?y] populated_map_children split: if_splits)
  have "set (relations fk (routeNode pq did r ds ?y)) \<subseteq> set (relations fk ?y)"
  proof (cases "registeredCall r ds ?y")
    case True
    then have kind: "kind ?y = FuncCall" by (simp add: registeredCall_def)
    have "set (relations False c) \<subseteq> set (relations fk ?y)" if "c \<in> set (children (routeNode pq did r ds ?y))" for c
      using children_routeNode [OF that]
    proof (elim disjE exE)
      assume "c \<in> set (children ?y)"
      then show ?thesis using kind by (auto simp: set_relations_children [of ?y])
    next
      fix s assume "c = MakeAConstStrNode pq s (-1)"
      with assms show ?thesis by (simp add: constants_unrelated_def relations_none)
    next
      assume c: "c = MakeStrNode dispatchFunctionName"
      have "list_all (\<lambda>x. kind x \<noteq> RangeVar) (all_msgs c)" unfolding c by code_simp
      then show ?thesis by (simp add: relations_none)
    qed
    with kind show ?thesis by (auto simp: set_relations_children [of "routeNode pq did r ds ?y"])
  qed (simp add: routeNode_def)
  with y show ?case by (subst route.pass_eq) blast
qed

section \<open>The laws of the parser\<close>

text \<open>
  What the package relies on when it parses text that it has written itself, in the words of
  the parser's documentation that a deparsed tree reads back as the tree: the relations are
  the same, and a call of a function spells its name (without which the check for the name
  of the dispatcher before parsing would be useless).
\<close>

definition rereads :: "pg_query \<Rightarrow> bool" where
  "rereads pq \<longleftrightarrow> (\<forall>raws out raws'. Deparse pq raws = Inr out \<longrightarrow> Parse pq (trimSpace out) = Inr raws'
     \<longrightarrow> set (stmt_relations raws') = set (stmt_relations raws))"

definition spells_calls :: "pg_query \<Rightarrow> bool" where
  "spells_calls pq \<longleftrightarrow> (\<forall>raws out. Deparse pq raws = Inr out \<longrightarrow> list_ex (stmt_ex directCall) raws
     \<longrightarrow> contains (toLower (trimSpace out)) dispatchFunctionName)"

definition parser_laws :: "pg_query \<Rightarrow> bool" where
  "parser_laws pq \<longleftrightarrow> rereads pq \<and> spells_calls pq \<and> constant_nodes pq \<and> constants_unrelated pq"

text \<open>A text means the statements it parses to, or those it was written from.\<close>

definition denotes :: "pg_query \<Rightarrow> string \<Rightarrow> raw_stmt list \<Rightarrow> bool" where
  "denotes pq t raws \<longleftrightarrow> Parse pq t = Inr raws
     \<or> (case Deparse pq raws of Inl e \<Rightarrow> False | Inr out \<Rightarrow> t = trimSpace out)"

text \<open>A text that the engine may be given on behalf of a database.\<close>

definition engine_text :: "pg_query \<Rightarrow> string \<Rightarrow> 'f functionRegistry \<Rightarrow> string \<Rightarrow> string \<Rightarrow> bool" where
  "engine_text pq did r ds t \<longleftrightarrow>
     (\<exists>raws. denotes pq t raws \<and> stmts_pinned raws \<and> stmts_settled pq did r ds raws)"

section \<open>From stage to stage\<close>

lemma stmts_pinned_iff:
  "stmts_pinned raws \<longleftrightarrow> (\<forall>raw \<in> set raws. \<forall>m. Stmt raw = Some m \<longrightarrow> pinned False m)"
proof (induction raws)
  case (Cons raw raws)
  then show ?case
    by (cases "Stmt raw") (simp_all add: stmts_pinned_def stmt_relations_def pinned_relations)
qed (simp add: stmts_pinned_def stmt_relations_def)

lemma stmts_pinned_mono:
  "stmts_pinned raws \<Longrightarrow> set (stmt_relations raws') \<subseteq> set (stmt_relations raws) \<Longrightarrow> stmts_pinned raws'"
  by (auto simp: stmts_pinned_def list_all_iff)

lemma pinned_translated:
  "ds \<noteq> '''' \<Longrightarrow>
     stmts_pinned (map (\<lambda>raw. raw\<lparr>Stmt := map_option (rewritePostgreSQLTree ds) (Stmt raw)\<rparr>) raws)"
  by (auto simp: stmts_pinned_iff pinned_rewrite)

lemma pinned_routed:
  assumes "constants_unrelated pq" and "stmts_pinned raws"
  shows "stmts_pinned (map (routeStmt pq did r ds) raws)"
proof -
  have "pinned False (routeTree pq did r ds m)" if "pinned False m" for m
    using that relations_routeTree [OF assms(1), of False did r ds m]
    by (auto simp: pinned_relations list_all_iff)
  with assms(2) show ?thesis by (auto simp: stmts_pinned_iff routeStmt_def)
qed

lemma settled_routed:
  assumes "constant_nodes pq" and "\<not> list_ex (stmt_ex directCall) raws"
  shows "stmts_settled pq did r ds (map (routeStmt pq did r ds) raws)"
  using assms(2) settled_routeTree [OF assms(1), where r = r]
  by (auto simp: stmts_settled_def routeStmt_def list_all_iff list_ex_iff [of _ raws] stmt_ex_def
      split: option.splits)

lemma settled_unrouted:
  assumes "\<not> list_ex (stmt_ex directCall) raws" and "\<not> list_ex (stmt_ex (registeredCall r ds)) raws"
  shows "stmts_settled pq did r ds raws"
  using assms
  by (auto simp: stmts_settled_def list_all_iff list_ex_iff stmt_ex_def settled_def split: option.splits)

lemma no_registered_calls: "\<not> hasAny r \<Longrightarrow> \<not> list_ex (stmt_ex (registeredCall r ds)) raws"
  by (auto simp: hasAny_def list_ex_iff stmt_ex_def registeredCall_def has_def overloads_of_def
      split: option.splits)

lemma rewriteRegisteredFunctions_cases:
  assumes "rewriteRegisteredFunctions pq did r ctx ds src statement w = Inr t"
  obtains (untouched) "t = statement" "\<not> hasAny r" "\<not> contains (toLower statement) dispatchFunctionName"
  | (parsed) raws where "Parse pq statement = Inr raws" "\<not> list_ex (stmt_ex directCall) raws"
      "\<not> list_ex (stmt_ex (registeredCall r ds)) raws" "t = statement"
  | (routed) raws out where "Parse pq statement = Inr raws" "\<not> list_ex (stmt_ex directCall) raws"
      "Deparse pq (map (routeStmt pq did r ds) raws) = Inr out" "t = trimSpace out"
proof (cases "\<not> hasAny r \<and> \<not> contains (toLower statement) dispatchFunctionName")
  case True
  with assms show thesis
    by (intro untouched) (auto simp: rewriteRegisteredFunctions_def split: option.splits)
next
  case False
  with assms obtain raws where raws: "Parse pq statement = Inr raws" and "ctx w = None"
    by (auto simp: rewriteRegisteredFunctions_def split: option.splits sum.splits)
  with False assms show thesis
    by (auto simp: rewriteRegisteredFunctions_def rewriteStmts_reference split: if_splits sum.splits
        intro: parsed [OF raws] routed [OF raws])
qed

lemma engine_text_written:
  assumes "parser_laws pq" and "ds \<noteq> ''''" and "Deparse pq raws = Inr out" and "stmts_pinned raws"
    and "rewriteRegisteredFunctions pq did r ctx ds src (trimSpace out) w = Inr t"
  shows "engine_text pq did r ds t"
proof -
  have laws: "rereads pq" "spells_calls pq" "constant_nodes pq" "constants_unrelated pq"
    using assms(1) by (simp_all add: parser_laws_def)
  have reread: "stmts_pinned raws'" if "Parse pq (trimSpace out) = Inr raws'" for raws'
    using stmts_pinned_mono [OF assms(4)] laws(1) assms(3) that by (simp add: rereads_def)
  from assms(5) show ?thesis
  proof (cases rule: rewriteRegisteredFunctions_cases)
    case untouched
    have "\<not> list_ex (stmt_ex directCall) raws"
      using laws(2) assms(3) untouched(3) by (auto simp: spells_calls_def)
    then have "stmts_settled pq did r ds raws"
      using no_registered_calls [OF untouched(2)] by (rule settled_unrouted)
    with assms(3,4) untouched(1) show ?thesis
      by (auto simp: engine_text_def denotes_def intro!: exI [of _ raws])
  next
    case (parsed raws')
    with reread settled_unrouted [OF parsed(2,3)] show ?thesis
      by (auto simp: engine_text_def denotes_def intro!: exI [of _ raws'])
  next
    case (routed raws' out')
    with pinned_routed [OF laws(4) reread] settled_routed [OF laws(3) routed(2)] show ?thesis
      by (auto simp: engine_text_def denotes_def intro!: exI [of _ "map (routeStmt pq did r ds) raws'"])
  qed
qed

section \<open>Statements and scripts\<close>

lemma translate_text:
  assumes "parser_laws (parser env)" and "translator env = defaultTranslate (parser env)"
    and "name \<noteq> ''''" and "translate env (Some name) ctx statement db = (Inr t, db')"
  shows "engine_text (parser env) (dispatchID db) (fn_registry db) name t \<and> db' = db"
proof -
  let ?rewrite = "map (\<lambda>raw. raw\<lparr>Stmt := map_option (rewritePostgreSQLTree name) (Stmt raw)\<rparr>)"
  obtain raws out where "Deparse (parser env) (?rewrite raws) = Inr out" and "db' = db"
    and "rewriteRegisteredFunctions (parser env) (dispatchID db) (fn_registry db) ctx name statement
       (trimSpace out) db = Inr t"
    using assms(2,4)
    by (auto simp: translate_def defaultTranslate_def split: if_splits option.splits sum.splits)
  from engine_text_written [OF assms(1,3) this(1) pinned_translated [OF assms(3)] this(3)] this(2)
  show ?thesis by blast
qed

lemma translate_state:
  assumes "translator env = defaultTranslate (parser env)"
  shows "snd (translate env s ctx statement db) = db"
  using assms by (auto simp: translate_def defaultTranslate_def split: option.split sum.split)

lemma translateParts_state:
  assumes "translator env = defaultTranslate (parser env)"
  shows "snd (translateParts env s ctx parts db) = db"
  using translate_state [OF assms, of s ctx _ db]
  by (induction parts) (auto split: prod.split sum.split, (metis snd_conv)+)

lemma translateParts_text:
  assumes "parser_laws (parser env)" and "translator env = defaultTranslate (parser env)" and "name \<noteq> ''''"
  shows "translateParts env (Some name) ctx parts db = (Inr statements, db') \<Longrightarrow>
    list_all (\<lambda>st. engine_text (parser env) (dispatchID db) (fn_registry db) name (translated st)) statements"
proof (induction parts arbitrary: statements)
  case (Cons part parts)
  show ?case
  proof (cases "trimSpace part = ''''")
    case False
    with Cons.prems obtain t db1 rest where t: "translate env (Some name) ctx part db = (Inr t, db1)"
      and rest: "translateParts env (Some name) ctx parts db1 = (Inr rest, db')"
      and statements: "statements = \<lparr>source = part, translated = t\<rparr> # rest"
      by (auto split: prod.splits sum.splits)
    have clean: "engine_text (parser env) (dispatchID db) (fn_registry db) name t" "db1 = db"
      using translate_text [OF assms t] by simp_all
    with rest have "translateParts env (Some name) ctx parts db = (Inr rest, db')" by simp
    from Cons.IH [OF this] clean(1) show ?thesis by (simp add: statements)
  qed (use Cons in simp)
qed simp

lemma translateStatements_text:
  assumes "parser_laws (parser env)" and "translator env = defaultTranslate (parser env)" and "name \<noteq> ''''"
    and "translateStatements env (Some name) ctx script db = (Inr statements, db')"
  shows "list_all (\<lambda>st. engine_text (parser env) (dispatchID db) (fn_registry db) name (translated st)) statements"
    and "statements \<noteq> []"
proof -
  have one: "list_all (\<lambda>st. engine_text (parser env) (dispatchID db) (fn_registry db) name (translated st)) ss"
    and one': "ss \<noteq> []"
    if "translateOnly env (Some name) ctx script db = (Inr ss, db')" for ss
    using that translate_text [OF assms(1-3)] by (auto simp: translateOnly_def split: prod.splits sum.splits)
  show "list_all (\<lambda>st. engine_text (parser env) (dispatchID db) (fn_registry db) name (translated st)) statements"
    and "statements \<noteq> []"
    using assms(4) one one' translateParts_text [OF assms(1-3)]
    by (auto simp: translateStatements_def split: if_splits prod.splits sum.splits)
qed

section \<open>What the engine sees\<close>

text \<open>Two engines that behave alike on some texts and in everything else.\<close>

definition agree_on :: "(string \<Rightarrow> bool) \<Rightarrow> 'w sql_engine \<Rightarrow> 'w sql_engine \<Rightarrow> bool" where
  "agree_on P e e' \<longleftrightarrow>
     (\<forall>t ctx. P t \<longrightarrow> DB_ExecContext e ctx t = DB_ExecContext e' ctx t
        \<and> DB_QueryContext e ctx t = DB_QueryContext e' ctx t
        \<and> (\<forall>tx. Tx_ExecContext e tx ctx t = Tx_ExecContext e' tx ctx t
            \<and> Tx_QueryContext e tx ctx t = Tx_QueryContext e' tx ctx t))
   \<and> DB_BeginTx e = DB_BeginTx e' \<and> Tx_Commit e = Tx_Commit e' \<and> Tx_Rollback e = Tx_Rollback e'"

lemma execAll_cong:
  assumes "\<And>st. st \<in> set statements \<Longrightarrow> ex ctx (translated st) = ex' ctx (translated st)"
  shows "execAll pq ctx ex statements res w = execAll pq ctx ex' statements res w"
  using assms by (induction statements arbitrary: res w) (auto simp: execOne_def split: prod.split sum.split)

lemma inTransaction_cong:
  assumes "\<And>tx. body tx = body' tx"
    and "DB_BeginTx e = DB_BeginTx e'" "Tx_Commit e = Tx_Commit e'" "Tx_Rollback e = Tx_Rollback e'"
  shows "inTransaction e ctx st body w = inTransaction e' ctx st body' w"
  using assms by (simp add: inTransaction_def split: prod.split sum.split option.split)

lemma scripts_cong:
  assumes "agree_on P (engine env) e" and "list_all (\<lambda>st. P (translated st)) statements" and "statements \<noteq> []"
  shows "execScript (env\<lparr>engine := e\<rparr>) ctx st statements w = execScript env ctx st statements w"
    and "queryScript (env\<lparr>engine := e\<rparr>) ctx st statements w = queryScript env ctx st statements w"
    and "execOne pq ctx (DB_ExecContext e) (hd statements) args w
      = execOne pq ctx (DB_ExecContext (engine env)) (hd statements) args w"
    and "queryOne pq ctx (DB_QueryContext e) (hd statements) args w
      = queryOne pq ctx (DB_QueryContext (engine env)) (hd statements) args w"
proof -
  have texts: "Tx_ExecContext e tx ctx (translated s) = Tx_ExecContext (engine env) tx ctx (translated s)"
    "Tx_QueryContext e tx ctx (translated s) = Tx_QueryContext (engine env) tx ctx (translated s)"
    "DB_ExecContext e ctx (translated s) = DB_ExecContext (engine env) ctx (translated s)"
    "DB_QueryContext e ctx (translated s) = DB_QueryContext (engine env) ctx (translated s)"
    if "s \<in> set statements" for s tx
    using assms(1,2) that by (auto simp: agree_on_def list_all_iff)
  have begin_end: "DB_BeginTx e = DB_BeginTx (engine env)" "Tx_Commit e = Tx_Commit (engine env)"
    "Tx_Rollback e = Tx_Rollback (engine env)"
    using assms(1) by (simp_all add: agree_on_def)
  have body: "execAll pq ctx (Tx_ExecContext e tx) ss res w = execAll pq ctx (Tx_ExecContext (engine env) tx) ss res w"
    if "set ss \<subseteq> set statements" for pq tx ss res w
    using that texts(1) by (intro execAll_cong) blast
  show "execScript (env\<lparr>engine := e\<rparr>) ctx st statements w = execScript env ctx st statements w"
    by (simp add: execScript_def, rule inTransaction_cong) (simp_all add: body begin_end fun_eq_iff)
  have "set (butlast statements) \<subseteq> set statements" by (auto dest: in_set_butlastD)
  then show "queryScript (env\<lparr>engine := e\<rparr>) ctx st statements w = queryScript env ctx st statements w"
    using texts(2) [OF last_in_set [OF assms(3)]]
    by (simp add: queryScript_def, intro inTransaction_cong)
      (simp_all add: body begin_end fun_eq_iff queryOne_def split: prod.split sum.split)
  show "execOne pq ctx (DB_ExecContext e) (hd statements) args w
      = execOne pq ctx (DB_ExecContext (engine env)) (hd statements) args w"
    and "queryOne pq ctx (DB_QueryContext e) (hd statements) args w
      = queryOne pq ctx (DB_QueryContext (engine env)) (hd statements) args w"
    using texts(3,4) [OF list.set_sel(1) [OF assms(3)]] by (simp_all add: execOne_def queryOne_def)
qed

text \<open>Nothing before the execution depends on the engine.\<close>

lemma engine_independent [simp]:
  "runInterceptors (env\<lparr>engine := e\<rparr>) s ctx st args db = runInterceptors env s ctx st args db"
  "translateStatements (env\<lparr>engine := e\<rparr>) s ctx st db = translateStatements env s ctx st db"
proof -
  have "run_entries (env\<lparr>engine := e\<rparr>) ctx st args es w = run_entries env ctx st args es w" for es w
    by (induction es arbitrary: w) (auto split: prod.split option.split)
  then show "runInterceptors (env\<lparr>engine := e\<rparr>) s ctx st args db = runInterceptors env s ctx st args db"
    by (simp add: runInterceptors_def split: option.split)
  have translate: "translate (env\<lparr>engine := e\<rparr>) s ctx st db = translate env s ctx st db" for st db
    by (simp add: translate_def split: option.split prod.split sum.split)
  then have "translateParts (env\<lparr>engine := e\<rparr>) s ctx parts db = translateParts env s ctx parts db" for parts db
    by (induction parts arbitrary: db) (auto split: prod.split sum.split)
  with translate show "translateStatements (env\<lparr>engine := e\<rparr>) s ctx st db = translateStatements env s ctx st db"
    by (simp add: translateStatements_def translateOnly_def split: sum.split)
qed

lemma entry_points_cong:
  fixes db :: "('f, 'i, 'o) DB"
  assumes "parser_laws (parser env)" and "translator env = defaultTranslate (parser env)" and "name \<noteq> ''''"
    and "runInterceptors env (Some name) ctx statement arguments db = (r, db1)"
    and agree: "agree_on (engine_text (parser env) (dispatchID db1) (fn_registry db1) name) (engine env) e"
  shows "ExecContext (env\<lparr>engine := e\<rparr>) (Some name) ctx statement arguments db
      = ExecContext env (Some name) ctx statement arguments db"
    and "QueryContext (env\<lparr>engine := e\<rparr>) (Some name) ctx statement arguments db
      = QueryContext env (Some name) ctx statement arguments db"
proof -
  obtain res handled err where r: "r = (res, handled, err)" using prod_cases3 by blast
  obtain t db2 where t: "translateStatements env (Some name) ctx statement db1 = (t, db2)" by force
  show "ExecContext (env\<lparr>engine := e\<rparr>) (Some name) ctx statement arguments db
      = ExecContext env (Some name) ctx statement arguments db"
    and "QueryContext (env\<lparr>engine := e\<rparr>) (Some name) ctx statement arguments db
      = QueryContext env (Some name) ctx statement arguments db"
  proof (atomize (full), cases t)
    case (Inr statements)
    with t have ok: "translateStatements env (Some name) ctx statement db1 = (Inr statements, db2)" by simp
    note scripts = scripts_cong [OF agree translateStatements_text [OF assms(1-3) ok]]
    show "ExecContext (env\<lparr>engine := e\<rparr>) (Some name) ctx statement arguments db
        = ExecContext env (Some name) ctx statement arguments db
      \<and> QueryContext (env\<lparr>engine := e\<rparr>) (Some name) ctx statement arguments db
        = QueryContext env (Some name) ctx statement arguments db"
      using assms(4) r ok
      by (simp add: ExecContext_def QueryContext_def scripts split: option.split bool.split)
  next
    case (Inl x)
    with assms(4) r t
    show "ExecContext (env\<lparr>engine := e\<rparr>) (Some name) ctx statement arguments db
        = ExecContext env (Some name) ctx statement arguments db
      \<and> QueryContext (env\<lparr>engine := e\<rparr>) (Some name) ctx statement arguments db
        = QueryContext env (Some name) ctx statement arguments db"
      by (simp add: ExecContext_def QueryContext_def split: option.split bool.split)
  qed
qed

section \<open>Properties\<close>

text \<open>
  An example: \<^verbatim>\<open>SELECT double(1) FROM t\<close> in a schema with that function, with a parser that
  knows the statement and the two trees the package makes of it.
\<close>

definition pipeline_tree :: msg where
  "pipeline_tree = Msg Node [(''select_stmt'', FMsg (Msg (OtherMsg ''SelectStmt'')
     [(''target_list'', FList [Msg Node [(''func_call'', FMsg (example_call [''Double'']
        [Msg Node [(''a_const'', FMsg (Msg AConst []))]]))]]),
      (''from_clause'', FList [Msg Node [(''range_var'', FMsg (example_relation '''' ''t''))]])]))]"

definition pipeline_translated :: msg where
  "pipeline_translated = rewritePostgreSQLTree ''audit'' pipeline_tree"

definition pipeline_routed :: msg where
  "pipeline_routed = routeTree (example_parser) ''id'' example_registry ''audit'' pipeline_translated"

definition one_stmt :: "msg \<Rightarrow> raw_stmt list" where
  "one_stmt m = [\<lparr>Stmt = Some m, Stmt_location = 0, Stmt_len = 0\<rparr>]"

definition routed_text :: string where
  "routed_text = ''SELECT __pgmem_dispatch_749c9c9e('id', 'audit', 'double', 1) FROM audit.t''"

definition pipeline_parser :: pg_query where
  "pipeline_parser =
     \<lparr>Parse = (\<lambda>s.
        if s = ''SELECT double(1) FROM t'' then Inr (one_stmt pipeline_tree)
        else if s = ''SELECT double(1) FROM audit.t'' then Inr (one_stmt pipeline_translated)
        else if s = routed_text then Inr (one_stmt pipeline_routed) else Inl (ErrorText ''syntax'')),
      Deparse = (\<lambda>raws.
        if raws = one_stmt pipeline_translated then Inr ''SELECT double(1) FROM audit.t''
        else if raws = one_stmt pipeline_routed then Inr routed_text
        else Inl (ErrorText ''deparse'')),
      SplitWithParser = (\<lambda>s. Inr [s]),
      MakeAConstStrNode = example_const\<rparr>"

lemma pipeline_laws: "parser_laws pipeline_parser"
proof -
  have trims: "trimSpace ''SELECT double(1) FROM audit.t'' = ''SELECT double(1) FROM audit.t''"
    "trimSpace routed_text = routed_text" "contains (toLower routed_text) dispatchFunctionName"
    "list_ex (stmt_ex directCall) (one_stmt pipeline_translated) = False"
    "routed_text \<noteq> ''SELECT double(1) FROM t''" "routed_text \<noteq> ''SELECT double(1) FROM audit.t''"
    by code_simp+
  then have "rereads pipeline_parser" and "spells_calls pipeline_parser"
    by (simp_all add: rereads_def spells_calls_def pipeline_parser_def)
  moreover have "constant_nodes pipeline_parser"
    using example_constant_nodes by (simp add: constant_nodes_def pipeline_parser_def example_parser_def)
  moreover have "list_all (\<lambda>x. kind x \<noteq> RangeVar) (all_msgs (example_const s l))" for s l
    unfolding all_msgs_example_const by (simp add: example_const_def string_msg_def)
  ultimately show ?thesis
    by (simp add: parser_laws_def constants_unrelated_def) (simp add: pipeline_parser_def)
qed

definition pipeline_env :: "(string, example_state) env" where
  "pipeline_env = example_env\<lparr>parser := pipeline_parser, translator := defaultTranslate pipeline_parser\<rparr>"

definition pipeline_db :: example_state where
  "pipeline_db = example_open\<lparr>fn_registry := example_registry\<rparr>"

text \<open>An engine that accepts nothing but the routed statement.\<close>

definition only_routed ::
  "(string \<Rightarrow> govalue list \<Rightarrow> 'w \<Rightarrow> (go_error + 'a) \<times> 'w) \<Rightarrow> string \<Rightarrow> govalue list \<Rightarrow> 'w \<Rightarrow> (go_error + 'a) \<times> 'w" where
  "only_routed run t = (if t = routed_text then run t else (\<lambda>arguments w. (Inl (ErrorText ''unexpected''), w)))"

definition strict_engine :: "example_state sql_engine" where
  "strict_engine = example_engine
     \<lparr>DB_ExecContext := \<lambda>ctx. only_routed (DB_ExecContext example_engine ctx),
      DB_QueryContext := \<lambda>ctx. only_routed (DB_QueryContext example_engine ctx),
      Tx_ExecContext := \<lambda>tx ctx. only_routed (Tx_ExecContext example_engine tx ctx),
      Tx_QueryContext := \<lambda>tx ctx. only_routed (Tx_QueryContext example_engine tx ctx)\<rparr>"

lemma pipeline_engine_text:
  assumes "engine_text pipeline_parser ''id'' example_registry ''audit'' t"
  shows "t = routed_text"
proof -
  obtain raws where raws: "denotes pipeline_parser t raws" "stmts_pinned raws"
    "stmts_settled pipeline_parser ''id'' example_registry ''audit'' raws"
    using assms by (auto simp: engine_text_def)
  have "stmts_pinned (one_stmt pipeline_tree) = False"
    "stmts_settled pipeline_parser ''id'' example_registry ''audit'' (one_stmt pipeline_translated) = False"
    "trimSpace routed_text = routed_text"
    "one_stmt pipeline_routed \<noteq> one_stmt pipeline_translated"
    by code_simp+
  with raws show ?thesis
    by (auto simp: denotes_def pipeline_parser_def split: if_splits)
qed

text \<open>
  C4: what the engine sees: with the default translator, executing or querying a statement or
  script through a schema gives the same outcome with any engine that agrees with the real
  one on clean texts only, namely texts of statements in which every relation names an engine
  schema and every call of the dispatcher was written by the package for a function
  registered when the statement was translated; no other text is ever handed to the engine.
\<close>

theorem engine_sees_clean_texts:
  fixes db :: "('f, 'i, 'o) DB"
  assumes "parser_laws (parser env)" and "translator env = defaultTranslate (parser env)" and "name \<noteq> ''''"
    and "runInterceptors env (Some name) ctx statement arguments db = (r, db1)"
    and "agree_on (engine_text (parser env) (dispatchID db1) (fn_registry db1) name) (engine env) e"
  shows "ExecContext (env\<lparr>engine := e\<rparr>) (Some name) ctx statement arguments db
      = ExecContext env (Some name) ctx statement arguments db
    \<and> QueryContext (env\<lparr>engine := e\<rparr>) (Some name) ctx statement arguments db
      = QueryContext env (Some name) ctx statement arguments db"
  using entry_points_cong [OF assms] by (rule conjI)

theorem engine_sees_clean_texts_witness:
  "ExecContext (pipeline_env\<lparr>engine := strict_engine\<rparr>) (Some ''audit'') Background ''SELECT double(1) FROM t'' []
      pipeline_db
   = ExecContext pipeline_env (Some ''audit'') Background ''SELECT double(1) FROM t'' [] pipeline_db
   \<and> fst (outside (snd (ExecContext pipeline_env (Some ''audit'') Background ''SELECT double(1) FROM t'' []
       pipeline_db))) = [''create'', routed_text]"
proof -
  have env: "parser pipeline_env = pipeline_parser" "translator pipeline_env = defaultTranslate pipeline_parser"
    "engine pipeline_env = example_engine"
    by (simp_all add: pipeline_env_def example_env_def)
  have "agree_on (engine_text pipeline_parser ''id'' example_registry ''audit'') example_engine strict_engine"
    by (auto simp: agree_on_def strict_engine_def only_routed_def dest!: pipeline_engine_text)
  moreover have "runInterceptors pipeline_env (Some ''audit'') Background ''SELECT double(1) FROM t'' [] pipeline_db
      = ((zero_result, False, None), pipeline_db)"
    by code_simp
  moreover have "dispatchID pipeline_db = ''id''" "fn_registry pipeline_db = example_registry"
    by (simp_all add: pipeline_db_def example_open_def)
  moreover have "fst (outside (snd (ExecContext pipeline_env (Some ''audit'') Background ''SELECT double(1) FROM t'' []
       pipeline_db))) = [''create'', routed_text]"
    by code_simp
  ultimately show ?thesis
    using engine_sees_clean_texts [of pipeline_env "''audit''" Background "''SELECT double(1) FROM t''" "[]" pipeline_db]
      pipeline_laws
    by (simp add: env)
qed
end
