(* ===== verification/AdapterPipeline.thy ===== *)
theory AdapterPipeline imports Pipeline DriverProperties
begin

text \<open>
  The way of a statement through the \<^verbatim>\<open>database/sql\<close> adapter (\<^verbatim>\<open>driver.go\<close>): executed, queried
  or prepared, inside a transaction or not, it is translated and routed like a statement of
  the schema itself.
\<close>

section \<open>What the engine sees\<close>

text \<open>Two pools that prepare some texts alike and behave alike in everything else.\<close>

definition prepare_alike :: "(string \<Rightarrow> bool) \<Rightarrow> 'w pool_engine \<Rightarrow> 'w pool_engine \<Rightarrow> bool" where
  "prepare_alike P p p' \<longleftrightarrow>
     (\<forall>t ctx. P t \<longrightarrow> Pool_PrepareContext p ctx t = Pool_PrepareContext p' ctx t
        \<and> (\<forall>tx. Tx_PrepareContext p tx ctx t = Tx_PrepareContext p' tx ctx t))"

lemma translateLocked_text:
  assumes "parser_laws (parser (fst env))" and "translator (fst env) = defaultTranslate (parser (fst env))"
    and "cn_schema (conn_of a c) = Some name" and "name \<noteq> ''''"
    and "translateLocked env c ctx statement a = (Inr t, a')"
  shows "engine_text (parser (fst env)) (dispatchID (database a)) (fn_registry (database a)) name t" and "a' = a"
proof -
  obtain db' where t: "translate (fst env) (Some name) ctx statement (database a) = (Inr t, db')"
    and a': "a' = a\<lparr>database := db'\<rparr>"
    using assms(3,5) by (auto simp: translateLocked_def on_engine_def split: option.splits prod.splits)
  from translate_text [OF assms(1,2,4) t]
  show "engine_text (parser (fst env)) (dispatchID (database a)) (fn_registry (database a)) name t" and "a' = a"
    by (simp_all add: a')
qed

lemma translateLocked_engine [simp]:
  "translateLocked ((fst env)\<lparr>engine := e\<rparr>, p) c ctx statement a = translateLocked env c ctx statement a"
proof -
  have "translate ((fst env)\<lparr>engine := e\<rparr>) s ctx st db = translate (fst env) s ctx st db" for s st db
    by (simp add: translate_def split: option.split prod.split sum.split)
  then have "translate ((fst env)\<lparr>engine := e\<rparr>) s ctx st = translate (fst env) s ctx st" for s st
    by (rule ext)
  then show ?thesis by (simp add: translateLocked_def split: option.split)
qed

section \<open>Properties\<close>

text \<open>
  C5: what the engine sees through the adapter: a statement that is executed, queried or
  prepared on an adapter connection, in a transaction or outside, has the same outcome with
  any engine that agrees with the real one on clean texts only.
\<close>

theorem adapter_sees_clean_texts:
  assumes "parser_laws (parser (fst env))" and "translator (fst env) = defaultTranslate (parser (fst env))"
    and "cn_schema (conn_of a c) = Some name" and "name \<noteq> ''''"
    and "agree_on (engine_text (parser (fst env)) (dispatchID (database a)) (fn_registry (database a)) name)
      (engine (fst env)) e"
    and "prepare_alike (engine_text (parser (fst env)) (dispatchID (database a)) (fn_registry (database a)) name)
      (snd env) p"
  shows "driver_ExecContext ((fst env)\<lparr>engine := e\<rparr>, p) c ctx statement arguments a
      = driver_ExecContext env c ctx statement arguments a
    \<and> driver_QueryContext ((fst env)\<lparr>engine := e\<rparr>, p) c ctx statement arguments a
      = driver_QueryContext env c ctx statement arguments a
    \<and> PrepareContext ((fst env)\<lparr>engine := e\<rparr>, p) c ctx statement a = PrepareContext env c ctx statement a"
proof (cases "translateLocked env c ctx statement a")
  case (Pair r a')
  show ?thesis
  proof (cases r)
    case (Inr t)
    note clean = translateLocked_text [OF assms(1-4) Pair [unfolded Inr]]
    have runs: "DB_ExecContext e ctx t = DB_ExecContext (engine (fst env)) ctx t"
      "DB_QueryContext e ctx t = DB_QueryContext (engine (fst env)) ctx t"
      "Tx_ExecContext e tx ctx t = Tx_ExecContext (engine (fst env)) tx ctx t"
      "Tx_QueryContext e tx ctx t = Tx_QueryContext (engine (fst env)) tx ctx t"
      "Pool_PrepareContext p ctx t = Pool_PrepareContext (snd env) ctx t"
      "Tx_PrepareContext p tx ctx t = Tx_PrepareContext (snd env) tx ctx t" for tx
      using assms(5,6) clean(1) by (simp_all add: agree_on_def prepare_alike_def)
    show ?thesis
      by (simp add: driver_ExecContext_def driver_QueryContext_def PrepareContext_def Pair Inr
          connExec_def connQuery_def runs split: option.split)
  qed (simp add: driver_ExecContext_def driver_QueryContext_def PrepareContext_def Pair)
qed

text \<open>
  The example of \<^verbatim>\<open>Pipeline\<close> through a connection of the adapter, with an engine and a pool
  that accept nothing but the routed statement.
\<close>

definition adapter_pipeline_env :: "(nat, string, bool \<times> string list \<times> string list option) adapter_env" where
  "adapter_pipeline_env =
     ((fst ex_env)\<lparr>parser := pipeline_parser, translator := defaultTranslate pipeline_parser\<rparr>, snd ex_env)"

definition adapter_pipeline_state :: "(nat, string, bool \<times> string list \<times> string list option) adapter" where
  "adapter_pipeline_state =
     \<lparr>connections = [\<lparr>cn_database = True, cn_schema = Some ''audit'', cn_transaction = None, cn_closed = False\<rparr>],
      transactions = [],
      database = \<lparr>schemas = [(''public'', empty_interceptors), (''audit'', empty_interceptors)], dispatchID = ''id'',
        fn_registry = example_registry, db_closed = False, outside = (False, [], None)\<rparr>\<rparr>"

definition strict_ex_engine :: "adapter_example sql_engine" where
  "strict_ex_engine = ex_engine
     \<lparr>DB_ExecContext := \<lambda>ctx. only_routed (DB_ExecContext ex_engine ctx),
      DB_QueryContext := \<lambda>ctx. only_routed (DB_QueryContext ex_engine ctx)\<rparr>"

definition strict_pool :: "adapter_example pool_engine" where
  "strict_pool = ex_pool\<lparr>Pool_PrepareContext := \<lambda>ctx t w.
     if t = routed_text then Pool_PrepareContext ex_pool ctx t w else (Inl (ErrorText ''unexpected''), w)\<rparr>"

theorem adapter_sees_clean_texts_witness:
  "driver_ExecContext ((fst adapter_pipeline_env)\<lparr>engine := strict_ex_engine\<rparr>, strict_pool) 0 Background
      ''SELECT double(1) FROM t'' [] adapter_pipeline_state
   = driver_ExecContext adapter_pipeline_env 0 Background ''SELECT double(1) FROM t'' [] adapter_pipeline_state
   \<and> fst (snd (outside (database (snd (driver_ExecContext adapter_pipeline_env 0 Background
       ''SELECT double(1) FROM t'' [] adapter_pipeline_state))))) = [routed_text]"
proof -
  let ?env = adapter_pipeline_env and ?a = adapter_pipeline_state
  have env: "parser (fst ?env) = pipeline_parser" "translator (fst ?env) = defaultTranslate pipeline_parser"
    "engine (fst ?env) = ex_engine" "snd ?env = ex_pool"
    by (simp_all add: adapter_pipeline_env_def ex_env_def)
  have state: "cn_schema (conn_of ?a 0) = Some ''audit''" "dispatchID (database ?a) = ''id''"
    "fn_registry (database ?a) = example_registry"
    by (simp_all add: adapter_pipeline_state_def)
  have "agree_on (engine_text pipeline_parser ''id'' example_registry ''audit'') ex_engine strict_ex_engine"
    by (auto simp: agree_on_def strict_ex_engine_def only_routed_def dest!: pipeline_engine_text)
  moreover have "prepare_alike (engine_text pipeline_parser ''id'' example_registry ''audit'') ex_pool strict_pool"
    by (auto simp: prepare_alike_def strict_pool_def dest!: pipeline_engine_text)
  moreover have "fst (snd (outside (database (snd (driver_ExecContext ?env 0 Background
       ''SELECT double(1) FROM t'' [] ?a))))) = [routed_text]"
    by code_simp
  ultimately show ?thesis
    using adapter_sees_clean_texts [of ?env ?a 0 "''audit''" strict_ex_engine strict_pool Background
        "''SELECT double(1) FROM t''" "[]"] pipeline_laws
    by (simp add: env state)
qed

end
