(* ===== verification/Aliasing.thy ===== *)
theory Aliasing imports Backup SchemaExecCorrect "HOL-Library.Sublist"
begin

text \<open>
  Why the package copies: byte slices, argument slices, rows and lists of rows are references
  to memory that the caller, an interceptor, a registered function or the SQL driver may
  write to later.  The other theories have values in their place; here the copying functions
  of \<^verbatim>\<open>schema.go\<close>, \<^verbatim>\<open>intercept.go\<close> and \<^verbatim>\<open>backup.go\<close> run on a store of objects.  They compute
  what the functions on values compute, and share no object with what they copy.
\<close>

section \<open>The store\<close>

text \<open>
  A slice is a window into an array; \<^term>\<open>None\<close> stands for a nil slice or map.  A dynamic value
  is a byte slice, a \<^verbatim>\<open>sql.NamedArg\<close> around a value or a value without references.
\<close>

datatype slice = Slice (arr: nat) (offset: nat) (len: nat)

datatype hvalue = HBytes "slice option" | HNamed string hvalue | HPlain govalue

text \<open>
  The objects: arrays of bytes, arrays of dynamic values, the maps behind rows, and arrays of
  rows.  An address is a position in the store; allocating appends.
\<close>

datatype object =
    OBytes string
  | OAnys "hvalue list"
  | OMap "(string \<times> hvalue) list"
  | ORows "nat option list"

type_synonym store = "object list"

definition lookup :: "store \<Rightarrow> nat \<Rightarrow> object option" where
  "lookup h a = (if a < length h then Some (h ! a) else None)"

definition alloc :: "object \<Rightarrow> store \<Rightarrow> nat \<times> store" where
  "alloc x h = (length h, h @ [x])"

definition window :: "slice \<Rightarrow> 'a list \<Rightarrow> 'a list" where
  "window s xs = take (len s) (drop (offset s) xs)"

definition bytes_at :: "store \<Rightarrow> slice option \<Rightarrow> string" where
  "bytes_at h b = (case b of None \<Rightarrow> [] | Some s \<Rightarrow>
     (case lookup h (arr s) of Some (OBytes xs) \<Rightarrow> window s xs | _ \<Rightarrow> []))"

definition anys_at :: "store \<Rightarrow> slice option \<Rightarrow> hvalue list" where
  "anys_at h b = (case b of None \<Rightarrow> [] | Some s \<Rightarrow>
     (case lookup h (arr s) of Some (OAnys xs) \<Rightarrow> window s xs | _ \<Rightarrow> []))"

definition map_at :: "store \<Rightarrow> nat option \<Rightarrow> (string \<times> hvalue) list" where
  "map_at h m = (case m of None \<Rightarrow> [] | Some a \<Rightarrow>
     (case lookup h a of Some (OMap kvs) \<Rightarrow> kvs | _ \<Rightarrow> []))"

definition rows_at :: "store \<Rightarrow> slice \<Rightarrow> nat option list" where
  "rows_at h s = (case lookup h (arr s) of Some (ORows xs) \<Rightarrow> window s xs | _ \<Rightarrow> [])"

record hresult =
  hRows :: "slice option"
  hRowCount :: "64 word"
  hCommand :: string

section \<open>The copying functions\<close>

text \<open>
  An array is allocated when its elements have been copied, where the code allocates it
  first and then assigns the elements: nothing can observe the difference.
\<close>

fun store_cloneDriverValue :: "hvalue \<Rightarrow> store \<Rightarrow> hvalue \<times> store" where
  "store_cloneDriverValue (HBytes b) h =
     (let bytes = bytes_at h b; (a, h') = alloc (OBytes bytes) h
      in (HBytes (Some (Slice a 0 (length bytes))), h'))"
| "store_cloneDriverValue v h = (v, h)"

fun store_cloneEach :: "('a \<Rightarrow> store \<Rightarrow> 'b \<times> store) \<Rightarrow> 'a list \<Rightarrow> store \<Rightarrow> 'b list \<times> store" where
  "store_cloneEach f [] h = ([], h)"
| "store_cloneEach f (x # xs) h =
     (let (y, h1) = f x h; (ys, h2) = store_cloneEach f xs h1 in (y # ys, h2))"

definition store_cloneArguments :: "slice option \<Rightarrow> store \<Rightarrow> slice option \<times> store" where
  "store_cloneArguments arguments h =
     (let (vs, h1) = store_cloneEach store_cloneDriverValue (anys_at h arguments) h;
          (a, h2) = alloc (OAnys vs) h1
      in (Some (Slice a 0 (length vs)), h2))"

definition store_cloneEntry :: "string \<times> hvalue \<Rightarrow> store \<Rightarrow> (string \<times> hvalue) \<times> store" where
  "store_cloneEntry = (\<lambda>(column, v) h. let (v', h') = store_cloneDriverValue v h in ((column, v'), h'))"

definition store_cloneRow :: "nat option \<Rightarrow> store \<Rightarrow> nat option \<times> store" where
  "store_cloneRow r h =
     (let (kvs, h1) = store_cloneEach store_cloneEntry (map_at h r) h;
          (a, h2) = alloc (OMap (foldl (\<lambda>acc (column, v). AList.update column v acc) [] kvs)) h1
      in (Some a, h2))"

definition store_cloneResult :: "hresult \<Rightarrow> store \<Rightarrow> hresult \<times> store" where
  "store_cloneResult res h =
     (case hRows res of
        None \<Rightarrow> (\<lparr>hRows = None, hRowCount = hRowCount res, hCommand = hCommand res\<rparr>, h)
      | Some s \<Rightarrow>
          (let (rs, h1) = store_cloneEach store_cloneRow (rows_at h s) h;
               (a, h2) = alloc (ORows rs) h1
           in (\<lparr>hRows = Some (Slice a 0 (length rs)), hRowCount = hRowCount res, hCommand = hCommand res\<rparr>, h2)))"

text \<open>\<^verbatim>\<open>append([]byte(nil), value...)\<close> is nil when there is nothing to append.\<close>

definition store_cloneBytes :: "slice option \<Rightarrow> store \<Rightarrow> slice option \<times> store" where
  "store_cloneBytes b h =
     (let bytes = bytes_at h b
      in if bytes = [] then (None, h)
         else (let (a, h') = alloc (OBytes bytes) h in (Some (Slice a 0 (length bytes)), h')))"

section \<open>What the store means\<close>

fun abs_value :: "store \<Rightarrow> hvalue \<Rightarrow> govalue" where
  "abs_value h (HBytes b) = VBytes (case b of None \<Rightarrow> None | Some s \<Rightarrow> Some (bytes_at h b))"
| "abs_value h (HNamed n v) = VNamed n (abs_value h v)"
| "abs_value h (HPlain v) = v"

definition abs_arguments :: "store \<Rightarrow> slice option \<Rightarrow> govalue list" where
  "abs_arguments h b = map (abs_value h) (anys_at h b)"

definition abs_row :: "store \<Rightarrow> nat option \<Rightarrow> row" where
  "abs_row h r = map (\<lambda>(k, v). (k, abs_value h v)) (map_at h r)"

definition abs_result :: "store \<Rightarrow> hresult \<Rightarrow> result" where
  "abs_result h res = \<lparr>Rows = map_option (\<lambda>s. map (abs_row h) (rows_at h s)) (hRows res),
     RowCount = hRowCount res, Command = hCommand res\<rparr>"

text \<open>The objects that a value refers to, directly or through others.\<close>

fun value_refs :: "hvalue \<Rightarrow> nat set" where
  "value_refs (HBytes None) = {}"
| "value_refs (HBytes (Some s)) = {arr s}"
| "value_refs (HNamed n v) = value_refs v"
| "value_refs (HPlain v) = {}"

definition arguments_refs :: "store \<Rightarrow> slice option \<Rightarrow> nat set" where
  "arguments_refs h b = (case b of None \<Rightarrow> {} | Some s \<Rightarrow> {arr s}) \<union> (\<Union>v \<in> set (anys_at h b). value_refs v)"

definition row_refs :: "store \<Rightarrow> nat option \<Rightarrow> nat set" where
  "row_refs h r = set_option r \<union> (\<Union>(k, v) \<in> set (map_at h r). value_refs v)"

definition result_refs :: "store \<Rightarrow> hresult \<Rightarrow> nat set" where
  "result_refs h res = (case hRows res of None \<Rightarrow> {} | Some s \<Rightarrow>
     {arr s} \<union> (\<Union>r \<in> set (rows_at h s). row_refs h r))"

text \<open>
  The copy of a value is deep unless the value is a \<^verbatim>\<open>sql.NamedArg\<close>, which is copied with the
  reference it holds.  \<open>HPlain\<close> is for values without references.
\<close>

fun flat :: "hvalue \<Rightarrow> bool" where
  "flat (HBytes b) = True"
| "flat (HNamed n v) = False"
| "flat (HPlain (VBytes b)) = False"
| "flat (HPlain v) = True"

definition flat_arguments :: "store \<Rightarrow> slice option \<Rightarrow> bool" where
  "flat_arguments h b \<longleftrightarrow> arguments_refs h b \<subseteq> {..<length h} \<and> list_all flat (anys_at h b)"

definition flat_row :: "store \<Rightarrow> nat option \<Rightarrow> bool" where
  "flat_row h r \<longleftrightarrow> row_refs h r \<subseteq> {..<length h} \<and> list_all (\<lambda>(k, v). flat v) (map_at h r)"

definition flat_result :: "store \<Rightarrow> hresult \<Rightarrow> bool" where
  "flat_result h res \<longleftrightarrow> result_refs h res \<subseteq> {..<length h}
     \<and> (case hRows res of None \<Rightarrow> True | Some s \<Rightarrow> list_all (flat_row h) (rows_at h s))"

section \<open>Deep copies\<close>

text \<open>
  The contract of a copying function: it only allocates, the copy means what the copying of
  values says, and the copy refers to new objects only.  What a value means depends on the
  objects it refers to.
\<close>

locale deep_copy =
  fixes copy :: "'a \<Rightarrow> store \<Rightarrow> 'b \<times> store"
    and meaning :: "store \<Rightarrow> 'a \<Rightarrow> 'm" and refs :: "store \<Rightarrow> 'a \<Rightarrow> nat set"
    and meaning' :: "store \<Rightarrow> 'b \<Rightarrow> 'n" and refs' :: "store \<Rightarrow> 'b \<Rightarrow> nat set"
    and pure :: "'m \<Rightarrow> 'n" and sound :: "store \<Rightarrow> 'a \<Rightarrow> bool"
  assumes allocates: "copy x h = (y, h') \<Longrightarrow> prefix h h'"
    and frame: "(\<And>a. a \<in> refs h x \<Longrightarrow> lookup h' a = lookup h a) \<Longrightarrow> meaning h' x = meaning h x"
    and frame': "(\<And>a. a \<in> refs' h y \<Longrightarrow> lookup h' a = lookup h a) \<Longrightarrow>
      meaning' h' y = meaning' h y \<and> refs' h' y = refs' h y"
    and copies: "sound h x \<Longrightarrow> copy x h = (y, h') \<Longrightarrow> meaning' h' y = pure (meaning h x)"
    and fresh: "sound h x \<Longrightarrow> copy x h = (y, h') \<Longrightarrow> refs' h' y \<subseteq> {length h..<length h'}"
    and inside: "sound h x \<Longrightarrow> refs h x \<subseteq> {..<length h}"
    and sound_prefix: "sound h x \<Longrightarrow> prefix h h' \<Longrightarrow> sound h' x"

lemma lookup_prefix: "prefix h h' \<Longrightarrow> a < length h \<Longrightarrow> lookup h' a = lookup h a"
  by (auto simp: lookup_def prefix_def nth_append)

text \<open>Writing to objects, by whoever holds references to them.\<close>

fun mutate :: "(nat \<times> object) list \<Rightarrow> store \<Rightarrow> store" where
  "mutate [] h = h"
| "mutate ((a, x) # ws) h = mutate ws (h[a := x])"

lemma length_mutate [simp]: "length (mutate ws h) = length h"
  by (induction ws arbitrary: h) auto

lemma lookup_mutate: "a \<notin> fst ` set ws \<Longrightarrow> lookup (mutate ws h) a = lookup h a"
proof (induction ws arbitrary: h)
  case (Cons w ws)
  obtain b x where w: "w = (b, x)" by force
  have "lookup (h[b := x]) a = lookup h a" using Cons.prems by (simp add: w lookup_def)
  moreover have "lookup (mutate ws (h[b := x])) a = lookup (h[b := x]) a"
    using Cons.prems by (intro Cons.IH) simp
  ultimately show ?case by (simp add: w)
qed simp

context deep_copy
begin

text \<open>The original still means what it meant, and neither side sees what is written to the other.\<close>

lemma original:
  assumes "sound h x" and "copy x h = (y, h')"
  shows "meaning h' x = meaning h x"
  by (rule frame) (use inside [OF assms(1)] lookup_prefix [OF allocates [OF assms(2)]] in blast)

lemma copy_isolated:
  assumes "sound h x" and "copy x h = (y, h')" and "fst ` set ws \<inter> {length h..<length h'} = {}"
  shows "meaning' (mutate ws (h' @ e)) y = meaning' h' y"
proof -
  have "lookup (mutate ws (h' @ e)) a = lookup h' a" if "a \<in> refs' h' y" for a
  proof -
    have "a \<in> {length h..<length h'}" using fresh [OF assms(1,2)] that by blast
    with assms(3) have "a < length h'" and "a \<notin> fst ` set ws" by (simp, blast)
    then show ?thesis by (simp add: lookup_mutate lookup_prefix)
  qed
  with frame' show ?thesis by blast
qed

lemma original_isolated:
  assumes "sound h x" and "copy x h = (y, h')" and "fst ` set ws \<subseteq> {length h..}"
  shows "meaning (mutate ws (h' @ e)) x = meaning h x"
proof (rule frame)
  fix a assume "a \<in> refs h x"
  then have "a < length h" using inside [OF assms(1)] by blast
  moreover from this have "a \<notin> fst ` set ws" using assms(3) by (meson atLeast_iff not_less subsetD)
  ultimately show "lookup (mutate ws (h' @ e)) a = lookup h a"
    using lookup_prefix [OF allocates [OF assms(2)]]
    by (simp add: lookup_mutate) (metis allocates [OF assms(2)] lookup_prefix prefixI prefix_order.trans)
qed

text \<open>Copying one by one.\<close>

lemma each_allocates: "store_cloneEach copy xs h = (ys, h') \<Longrightarrow> prefix h h'"
proof (induction xs arbitrary: h ys h')
  case (Cons x xs)
  obtain y h1 where x: "copy x h = (y, h1)" by force
  obtain zs h2 where xs: "store_cloneEach copy xs h1 = (zs, h2)" by force
  from Cons.prems x xs have "h' = h2" by simp
  with Cons.IH [OF xs] allocates [OF x] show ?case by simp
qed simp

lemma each_frame':
  assumes "\<And>a. a \<in> (\<Union>y \<in> set ys. refs' h y) \<Longrightarrow> lookup h' a = lookup h a"
  shows "map (meaning' h') ys = map (meaning' h) ys \<and> (\<Union>y \<in> set ys. refs' h' y) = (\<Union>y \<in> set ys. refs' h y)"
proof -
  have "meaning' h' y = meaning' h y \<and> refs' h' y = refs' h y" if "y \<in> set ys" for y
    by (rule frame') (use assms that in blast)
  then show ?thesis by simp
qed

lemma each_copies:
  "list_all (sound h) xs \<Longrightarrow> store_cloneEach copy xs h = (ys, h') \<Longrightarrow>
     map (meaning' h') ys = map pure (map (meaning h) xs)
     \<and> (\<Union>y \<in> set ys. refs' h' y) \<subseteq> {length h..<length h'}"
proof (induction xs arbitrary: h ys h')
  case (Cons x xs)
  obtain y h1 where x: "copy x h = (y, h1)" by force
  obtain zs h2 where xs: "store_cloneEach copy xs h1 = (zs, h2)" by force
  from Cons.prems(2) x xs have ys: "ys = y # zs" and h': "h' = h2" by simp_all
  have p: "prefix h h1" "prefix h1 h2" by (rule allocates [OF x], rule each_allocates [OF xs])
  then have l: "length h \<le> length h1" "length h1 \<le> length h2" by (simp_all add: prefix_length_le)
  have "list_all (sound h1) xs"
    using Cons.prems(1) sound_prefix [OF _ p(1)] by (auto simp: list_all_iff)
  from Cons.IH [OF this xs]
  have zs: "map (meaning' h2) zs = map pure (map (meaning h1) xs)"
    "(\<Union>y \<in> set zs. refs' h2 y) \<subseteq> {length h1..<length h2}" by simp_all
  have sound: "sound h x" using Cons.prems(1) by simp
  have "meaning h1 z = meaning h z" if "z \<in> set xs" for z
  proof (rule frame)
    fix a assume "a \<in> refs h z"
    with Cons.prems(1) that inside have "a < length h" by (fastforce simp: list_all_iff)
    with p(1) show "lookup h1 a = lookup h a" by (rule lookup_prefix)
  qed
  then have map: "map (meaning h1) xs = map (meaning h) xs" by simp
  have "meaning' h2 y = meaning' h1 y \<and> refs' h2 y = refs' h1 y"
    by (rule frame') (use fresh [OF sound x] lookup_prefix [OF p(2)] in fastforce)
  with copies [OF sound x] fresh [OF sound x] zs map l show ?case
    unfolding ys h' by (fastforce simp: subset_iff)
qed simp

end
section \<open>The copying functions are deep copies\<close>

lemma lookup_alloc [simp]:
  "lookup (h @ [x]) (length h) = Some x"
  by (simp add: lookup_def)

lemma window_all [simp]: "window (Slice a 0 (length xs)) xs = xs" "window s [] = []"
  by (simp_all add: window_def)

lemma bytes_at_alloc [simp]: "bytes_at (h @ [OBytes b]) (Some (Slice (length h) 0 (length b))) = b"
  by (simp add: bytes_at_def)

lemma bytes_at_frame: "(\<And>s. b = Some s \<Longrightarrow> lookup h' (arr s) = lookup h (arr s)) \<Longrightarrow> bytes_at h' b = bytes_at h b"
  by (simp add: bytes_at_def split: option.split)

lemma anys_at_frame: "(\<And>s. b = Some s \<Longrightarrow> lookup h' (arr s) = lookup h (arr s)) \<Longrightarrow> anys_at h' b = anys_at h b"
  by (simp add: anys_at_def split: option.split)

lemma map_at_frame: "(\<And>a. m = Some a \<Longrightarrow> lookup h' a = lookup h a) \<Longrightarrow> map_at h' m = map_at h m"
  by (simp add: map_at_def split: option.split)

lemma abs_value_frame: "(\<And>a. a \<in> value_refs v \<Longrightarrow> lookup h' a = lookup h a) \<Longrightarrow> abs_value h' v = abs_value h v"
proof (induction v)
  case (HBytes b)
  then show ?case by (cases b) (auto intro: bytes_at_frame)
qed simp_all

lemma abs_flat_plain: "flat (HPlain v) \<Longrightarrow> cloneDriverValue v = v"
  by (cases v) simp_all

definition sound_value :: "store \<Rightarrow> hvalue \<Rightarrow> bool" where
  "sound_value h v \<longleftrightarrow> flat v \<and> value_refs v \<subseteq> {..<length h}"

interpretation bytes: deep_copy store_cloneDriverValue abs_value "\<lambda>h. value_refs" abs_value "\<lambda>h. value_refs"
  cloneDriverValue sound_value
proof
  fix v h v' h'
  assume run: "store_cloneDriverValue v h = (v', h')"
  show "prefix h h'" using run by (cases v) (auto simp: alloc_def Let_def)
  assume sound: "sound_value h v"
  show "abs_value h' v' = cloneDriverValue (abs_value h v)"
    using run sound
    by (cases v) (auto simp: alloc_def Let_def sound_value_def abs_flat_plain bytes_at_def split: option.split)
  show "value_refs v' \<subseteq> {length h..<length h'}"
    using run sound by (cases v) (auto simp: alloc_def Let_def sound_value_def)
next
  fix h v and h' :: store
  assume "sound_value h v" and "prefix h h'"
  then show "sound_value h' v" by (auto simp: sound_value_def dest!: prefix_length_le)
qed (auto simp: sound_value_def intro: abs_value_frame)

interpretation cells: deep_copy store_cloneEntry "\<lambda>h (k, v). (k, abs_value h v)" "\<lambda>h (k, v). value_refs v"
  "\<lambda>h (k, v). (k, abs_value h v)" "\<lambda>h (k, v). value_refs v" "\<lambda>(k, v). (k, cloneDriverValue v)"
  "\<lambda>h (k, v). sound_value h v"
proof
  fix x h y h'
  assume run: "store_cloneEntry x h = (y, h')"
  obtain k v where x: "x = (k, v)" by force
  obtain v' where v': "store_cloneDriverValue v h = (v', h')" "y = (k, v')"
    using run by (auto simp: store_cloneEntry_def x split: prod.splits)
  show "prefix h h'" using v'(1) by (rule bytes.allocates)
  assume "(\<lambda>(k, v). sound_value h v) x"
  then have sound: "sound_value h v" by (simp add: x)
  show "(\<lambda>(k, v). (k, abs_value h' v)) y = (\<lambda>(k, v). (k, cloneDriverValue v)) ((\<lambda>(k, v). (k, abs_value h v)) x)"
    using bytes.copies [OF sound v'(1)] by (simp add: x v'(2))
  show "(\<lambda>(k, v). value_refs v) y \<subseteq> {length h..<length h'}"
    using bytes.fresh [OF sound v'(1)] by (simp add: v'(2))
qed (auto intro: abs_value_frame bytes.sound_prefix dest: bytes.inside)

text \<open>Rows: the map that the copied entries are assigned to.\<close>

lemma foldl_update_map:
  "foldl (\<lambda>acc (k, v). AList.update k v acc) (map (\<lambda>(k, v). (k, f v)) acc) (map (\<lambda>(k, v). (k, f v)) kvs)
   = map (\<lambda>(k, v). (k, f v)) (foldl (\<lambda>acc (k, v). AList.update k v acc) acc kvs)"
proof (induction kvs arbitrary: acc)
  case (Cons kv kvs)
  obtain k v where kv: "kv = (k, v)" by force
  have "AList.update k (f v) (map (\<lambda>(k, v). (k, f v)) acc) = map (\<lambda>(k, v). (k, f v)) (AList.update k v acc)" for acc
    by (induction acc) auto
  with Cons show ?case by (simp add: kv)
qed simp

lemma foldl_update_set:
  "set (foldl (\<lambda>acc (k, v). AList.update k v acc) acc kvs) \<subseteq> set acc \<union> set kvs"
proof (induction kvs arbitrary: acc)
  case (Cons kv kvs)
  obtain k v where kv: "kv = (k, v)" by force
  have "set (AList.update k v acc) \<subseteq> insert (k, v) (set acc)" by (induction acc) auto
  with Cons [of "AList.update k v acc"] show ?case by (auto simp: kv)
qed simp

lemma cloneRow_assign:
  "cloneRow r = foldl (\<lambda>acc (k, v). AList.update k v acc) [] (map (\<lambda>(k, v). (k, cloneDriverValue v)) r)"
proof -
  have "foldl (\<lambda>acc (k, v). AList.update k (f v) acc) acc kvs
      = foldl (\<lambda>acc (k, v). AList.update k v acc) acc (map (\<lambda>(k, v). (k, f v)) kvs)" for f acc and kvs :: row
    by (induction kvs arbitrary: acc) auto
  then show ?thesis by (simp add: cloneRow_def)
qed

lemma sound_cells: "flat_row h r \<Longrightarrow> list_all (\<lambda>(k, v). sound_value h v) (map_at h r)"
  by (fastforce simp: flat_row_def row_refs_def sound_value_def list_all_iff)

text \<open>What a reference means and reaches depends on the objects it reaches.\<close>

lemma abs_row_frame:
  assumes "\<And>a. a \<in> row_refs h r \<Longrightarrow> lookup h' a = lookup h a"
  shows "abs_row h' r = abs_row h r" and "row_refs h' r = row_refs h r" and "map_at h' r = map_at h r"
proof -
  show m: "map_at h' r = map_at h r" by (rule map_at_frame) (use assms in \<open>auto simp: row_refs_def\<close>)
  show "row_refs h' r = row_refs h r" by (simp add: row_refs_def m)
  have "abs_value h' v = abs_value h v" if "(k, v) \<in> set (map_at h r)" for k v
    by (rule abs_value_frame) (use assms that in \<open>auto simp: row_refs_def\<close>)
  then show "abs_row h' r = abs_row h r" by (auto simp: abs_row_def m)
qed

lemma within_prefix:
  "A \<subseteq> {..<length h} \<Longrightarrow> prefix h h' \<Longrightarrow> a \<in> A \<Longrightarrow> lookup h' a = lookup h a"
  by (rule lookup_prefix) auto

interpretation rows: deep_copy store_cloneRow abs_row row_refs abs_row row_refs cloneRow flat_row
proof
  fix r h r' h'
  assume run: "store_cloneRow r h = (r', h')"
  obtain kvs h1 where kvs: "store_cloneEach store_cloneEntry (map_at h r) h = (kvs, h1)" by force
  let ?m = "foldl (\<lambda>acc (column, v). AList.update column v acc) [] kvs"
  have r': "r' = Some (length h1)" "h' = h1 @ [OMap ?m]"
    using run kvs by (simp_all add: store_cloneRow_def alloc_def)
  have p: "prefix h h1" using kvs by (rule cells.each_allocates)
  show "prefix h h'" using p by (simp add: r'(2))
  assume flat: "flat_row h r"
  have cells: "map (\<lambda>(k, v). (k, abs_value h1 v)) kvs
      = map (\<lambda>(k, v). (k, cloneDriverValue v)) (map (\<lambda>(k, v). (k, abs_value h v)) (map_at h r))"
    "(\<Union>(k, v) \<in> set kvs. value_refs v) \<subseteq> {length h..<length h1}"
    using cells.each_copies [OF sound_cells [OF flat] kvs] by simp_all
  have entries: "(\<Union>(k, v) \<in> set ?m. value_refs v) \<subseteq> {length h..<length h1}"
    using foldl_update_set [of "[]" kvs] cells(2) by fastforce
  have m: "map_at h' r' = ?m" by (simp add: map_at_def r')
  have "abs_value h' v = abs_value h1 v" if "(k, v) \<in> set ?m" for k v
    by (rule abs_value_frame, rule lookup_prefix) (use entries that in \<open>fastforce simp: r'(2)\<close>)+
  then have "abs_row h' r' = map (\<lambda>(k, v). (k, abs_value h1 v)) ?m"
    unfolding abs_row_def m by auto
  also have "\<dots> = foldl (\<lambda>acc (k, v). AList.update k v acc) [] (map (\<lambda>(k, v). (k, abs_value h1 v)) kvs)"
    using foldl_update_map [of "abs_value h1" "[]" kvs] by simp
  also have "\<dots> = cloneRow (abs_row h r)"
    unfolding cells(1) by (simp add: cloneRow_assign abs_row_def)
  finally show "abs_row h' r' = cloneRow (abs_row h r)" .
  show "row_refs h' r' \<subseteq> {length h..<length h'}"
    using entries prefix_length_le [OF p] unfolding row_refs_def m by (auto simp: r')
next
  fix h r and h' :: store
  assume flat: "flat_row h r" and p: "prefix h h'"
  have "row_refs h r \<subseteq> {..<length h}" using flat by (simp add: flat_row_def)
  note same = abs_row_frame [OF within_prefix [OF this p]]
  show "flat_row h' r"
    using flat prefix_length_le [OF p] by (auto simp: flat_row_def same)
next
  fix h h' :: store and r
  assume same: "\<And>a. a \<in> row_refs h r \<Longrightarrow> lookup h' a = lookup h a"
  show "abs_row h' r = abs_row h r" by (rule abs_row_frame(1) [OF same])
  show "abs_row h' r = abs_row h r \<and> row_refs h' r = row_refs h r"
    using abs_row_frame(1,2) [OF same] by simp
qed (simp add: flat_row_def)

lemma abs_arguments_frame:
  assumes "\<And>a. a \<in> arguments_refs h b \<Longrightarrow> lookup h' a = lookup h a"
  shows "abs_arguments h' b = abs_arguments h b" and "arguments_refs h' b = arguments_refs h b"
    and "anys_at h' b = anys_at h b"
proof -
  show vs: "anys_at h' b = anys_at h b"
    by (rule anys_at_frame) (use assms in \<open>auto simp: arguments_refs_def\<close>)
  show "arguments_refs h' b = arguments_refs h b" by (simp add: arguments_refs_def vs)
  have "abs_value h' v = abs_value h v" if "v \<in> set (anys_at h b)" for v
    by (rule abs_value_frame) (use assms that in \<open>auto simp: arguments_refs_def\<close>)
  then show "abs_arguments h' b = abs_arguments h b" by (simp add: abs_arguments_def vs)
qed

interpretation arguments: deep_copy store_cloneArguments abs_arguments arguments_refs
  abs_arguments arguments_refs cloneArguments flat_arguments
proof
  fix b h b' h'
  assume run: "store_cloneArguments b h = (b', h')"
  obtain vs h1 where vs: "store_cloneEach store_cloneDriverValue (anys_at h b) h = (vs, h1)" by force
  have b': "b' = Some (Slice (length h1) 0 (length vs))" "h' = h1 @ [OAnys vs]"
    using run vs by (simp_all add: store_cloneArguments_def alloc_def)
  have p: "prefix h h1" using vs by (rule bytes.each_allocates)
  show "prefix h h'" using p by (simp add: b'(2))
  assume "flat_arguments h b"
  then have "list_all (sound_value h) (anys_at h b)"
    by (fastforce simp: flat_arguments_def arguments_refs_def sound_value_def list_all_iff)
  note each = bytes.each_copies [OF this vs]
  have elements: "anys_at h' b' = vs" by (simp add: anys_at_def b')
  have "abs_value h' v = abs_value h1 v" if "v \<in> set vs" for v
    by (rule abs_value_frame, rule lookup_prefix) (use each that in \<open>fastforce simp: b'(2)\<close>)+
  then have "abs_arguments h' b' = map (abs_value h1) vs" by (simp add: abs_arguments_def elements)
  with each show "abs_arguments h' b' = cloneArguments (abs_arguments h b)"
    by (simp add: cloneArguments_def abs_arguments_def)
  show "arguments_refs h' b' \<subseteq> {length h..<length h'}"
    using each prefix_length_le [OF p] unfolding arguments_refs_def elements by (auto simp: b')
next
  fix h b and h' :: store
  assume flat: "flat_arguments h b" and p: "prefix h h'"
  have "arguments_refs h b \<subseteq> {..<length h}" using flat by (simp add: flat_arguments_def)
  note same = abs_arguments_frame [OF within_prefix [OF this p]]
  show "flat_arguments h' b"
    using flat prefix_length_le [OF p] by (auto simp: flat_arguments_def same)
next
  fix h h' :: store and b
  assume same: "\<And>a. a \<in> arguments_refs h b \<Longrightarrow> lookup h' a = lookup h a"
  show "abs_arguments h' b = abs_arguments h b" by (rule abs_arguments_frame(1) [OF same])
  show "abs_arguments h' b = abs_arguments h b \<and> arguments_refs h' b = arguments_refs h b"
    using abs_arguments_frame(1,2) [OF same] by simp
qed (simp add: flat_arguments_def)

lemma abs_result_frame:
  assumes "\<And>a. a \<in> result_refs h res \<Longrightarrow> lookup h' a = lookup h a"
  shows "abs_result h' res = abs_result h res" and "result_refs h' res = result_refs h res"
    and "\<And>s. hRows res = Some s \<Longrightarrow> rows_at h' s = rows_at h s"
proof -
  show rs: "rows_at h' s = rows_at h s" if "hRows res = Some s" for s
    using assms [of "arr s"] that by (simp add: rows_at_def result_refs_def)
  have row: "abs_row h' r = abs_row h r \<and> row_refs h' r = row_refs h r"
    if "hRows res = Some s" "r \<in> set (rows_at h s)" for s r
  proof -
    have same: "lookup h' a = lookup h a" if "a \<in> row_refs h r" for a
      by (rule assms) (use \<open>hRows res = Some s\<close> \<open>r \<in> set (rows_at h s)\<close> that in \<open>auto simp: result_refs_def\<close>)
    show ?thesis using abs_row_frame(1,2) [OF same] by simp
  qed
  show "result_refs h' res = result_refs h res"
    using rs row by (auto simp: result_refs_def split: option.split)
  show "abs_result h' res = abs_result h res"
    using rs row by (cases "hRows res") (auto simp: abs_result_def)
qed

interpretation results: deep_copy store_cloneResult abs_result result_refs abs_result result_refs
  cloneResult flat_result
proof
  fix res h res' h'
  assume run: "store_cloneResult res h = (res', h')"
  have "prefix h h' \<and> (flat_result h res \<longrightarrow>
      abs_result h' res' = cloneResult (abs_result h res) \<and> result_refs h' res' \<subseteq> {length h..<length h'})"
  proof (cases "hRows res")
    case None
    with run show ?thesis
      by (auto simp: store_cloneResult_def abs_result_def cloneResult_def result_refs_def)
  next
    case (Some s)
    obtain rs h1 where rs: "store_cloneEach store_cloneRow (rows_at h s) h = (rs, h1)" by force
    have res': "res' = \<lparr>hRows = Some (Slice (length h1) 0 (length rs)), hRowCount = hRowCount res, hCommand = hCommand res\<rparr>"
      and h': "h' = h1 @ [ORows rs]"
      using run rs Some by (simp_all add: store_cloneResult_def alloc_def)
    have p: "prefix h h1" using rs by (rule rows.each_allocates)
    have "abs_result h' res' = cloneResult (abs_result h res) \<and> result_refs h' res' \<subseteq> {length h..<length h'}"
      if "flat_result h res"
    proof -
      have "list_all (flat_row h) (rows_at h s)" using that Some by (simp add: flat_result_def)
      from rows.each_copies [OF this rs] have each:
        "map (abs_row h1) rs = map cloneRow (map (abs_row h) (rows_at h s))"
        "(\<Union>r \<in> set rs. row_refs h1 r) \<subseteq> {length h..<length h1}" by simp_all
      have elements: "rows_at h' (Slice (length h1) 0 (length rs)) = rs" by (simp add: rows_at_def h')
      have row: "abs_row h' r = abs_row h1 r \<and> row_refs h' r = row_refs h1 r" if "r \<in> set rs" for r
      proof -
        have same: "lookup h' a = lookup h1 a" if "a \<in> row_refs h1 r" for a
          by (rule lookup_prefix) (use each(2) that \<open>r \<in> set rs\<close> in \<open>fastforce simp: h'\<close>)+
        show ?thesis using abs_row_frame(1,2) [OF same] by simp
      qed
      have "map (abs_row h') rs = map (abs_row h1) rs" using row by simp
      then have "abs_result h' res' = cloneResult (abs_result h res)"
        using each(1) by (simp add: abs_result_def cloneResult_def res' elements Some)
      moreover have "result_refs h' res' = {length h1} \<union> (\<Union>r \<in> set rs. row_refs h1 r)"
        using row by (simp add: result_refs_def res' elements)
      then have "result_refs h' res' \<subseteq> {length h..<length h'}"
        using each(2) prefix_length_le [OF p] by (auto simp: h')
      ultimately show ?thesis ..
    qed
    with p show ?thesis by (simp add: h')
  qed
  then show "prefix h h'"
    and "flat_result h res \<Longrightarrow> abs_result h' res' = cloneResult (abs_result h res)"
    and "flat_result h res \<Longrightarrow> result_refs h' res' \<subseteq> {length h..<length h'}"
    by blast+
next
  fix h res and h' :: store
  assume flat: "flat_result h res" and p: "prefix h h'"
  have inside: "result_refs h res \<subseteq> {..<length h}" using flat by (simp add: flat_result_def)
  note same = abs_result_frame [OF within_prefix [OF inside p]]
  show "flat_result h' res"
    using flat prefix_length_le [OF p] rows.sound_prefix [OF _ p]
    by (auto simp: flat_result_def same list_all_iff split: option.splits)
next
  fix h h' :: store and res
  assume same: "\<And>a. a \<in> result_refs h res \<Longrightarrow> lookup h' a = lookup h a"
  show "abs_result h' res = abs_result h res" by (rule abs_result_frame(1) [OF same])
  show "abs_result h' res = abs_result h res \<and> result_refs h' res = result_refs h res"
    using abs_result_frame(1,2) [OF same] by simp
qed (simp add: flat_result_def)

text \<open>The images of a backup.\<close>

definition abs_image :: "store \<Rightarrow> slice option \<Rightarrow> string option" where
  "abs_image h b = (case b of None \<Rightarrow> None | Some s \<Rightarrow> Some (bytes_at h b))"

definition image_refs :: "slice option \<Rightarrow> nat set" where
  "image_refs b = (case b of None \<Rightarrow> {} | Some s \<Rightarrow> {arr s})"

interpretation images: deep_copy store_cloneBytes abs_image "\<lambda>h. image_refs" abs_image "\<lambda>h. image_refs"
  cloneBytes "\<lambda>h b. image_refs b \<subseteq> {..<length h}"
proof
  fix b h b' h'
  assume run: "store_cloneBytes b h = (b', h')"
  show "prefix h h'" using run by (auto simp: store_cloneBytes_def alloc_def Let_def split: if_splits)
  show "abs_image h' b' = cloneBytes (abs_image h b)"
    using run by (cases "bytes_at h b"; cases b)
      (auto simp: store_cloneBytes_def alloc_def Let_def abs_image_def cloneBytes_def bytes_at_def window_def)
  show "image_refs b' \<subseteq> {length h..<length h'}"
    using run by (auto simp: store_cloneBytes_def alloc_def Let_def image_refs_def split: if_splits)
qed (auto simp: abs_image_def image_refs_def intro: bytes_at_frame dest!: prefix_length_le split: option.splits)

section \<open>The interceptors on the store\<close>

text \<open>
  The loop of \<^verbatim>\<open>runInterceptors\<close> where an interceptor is called with a slice and may write to
  the memory it can reach.
\<close>

type_synonym ('i, 'w) hcall =
  "'i \<Rightarrow> 'w ctx \<Rightarrow> string \<Rightarrow> slice option \<Rightarrow> 'w \<Rightarrow> store \<Rightarrow> (hresult \<times> bool \<times> go_error option) \<times> 'w \<times> store"

definition zero_hresult :: hresult where
  "zero_hresult = \<lparr>hRows = None, hRowCount = 0, hCommand = ''''\<rparr>"

definition store_handledResult :: "pg_query \<Rightarrow> string \<Rightarrow> hresult \<Rightarrow> store \<Rightarrow> hresult \<times> store" where
  "store_handledResult pq statement res h =
     (let hasRows = (hRows res \<noteq> None);
          (copied, h') = store_cloneResult res h;
          counted = (if hasRows
            then copied\<lparr>hRowCount := of_nat (case hRows copied of None \<Rightarrow> 0 | Some s \<Rightarrow> length (rows_at h' s))\<rparr>
            else copied)
      in (if hCommand counted = '''' then counted\<lparr>hCommand := statementCommand pq statement\<rparr> else counted, h'))"

fun store_run_entries ::
  "pg_query \<Rightarrow> ('i, 'w) hcall \<Rightarrow> 'w ctx \<Rightarrow> string \<Rightarrow> slice option \<Rightarrow> 'i interceptorRegistration list
     \<Rightarrow> 'w \<Rightarrow> store \<Rightarrow> (hresult \<times> bool \<times> go_error option) \<times> 'w \<times> store" where
  "store_run_entries pq call ctx statement arguments [] w h = ((zero_hresult, False, None), w, h)"
| "store_run_entries pq call ctx statement arguments (entry # rest) w h =
     (let (cloned, h1) = store_cloneArguments arguments h in
      case call (interceptor entry) ctx statement cloned w h1 of
        ((res, handled, Some e), w', h2) \<Rightarrow>
          ((zero_hresult, False, Some (Wrapf ''pgmem: intercept query: '' e '''')), w', h2)
      | ((res, handled, None), w', h2) \<Rightarrow>
          (if \<not> handled then store_run_entries pq call ctx statement arguments rest w' h2
           else (let (res', h3) = store_handledResult pq statement res h2 in ((res', True, None), w', h3))))"

text \<open>
  An interceptor that behaves like one on values, on every well-formed memory: it writes to
  no objects but those its arguments refer to and new ones, and its result is well-formed.
\<close>

definition behaves_like :: "('i, 'w) hcall \<Rightarrow> ('i, 'w) env \<Rightarrow> bool" where
  "behaves_like call env \<longleftrightarrow>
     (\<forall>i ctx statement b w h. flat_arguments h b \<longrightarrow>
        (case call i ctx statement b w h of ((res, handled, e), w', h') \<Rightarrow>
           call_interceptor env i ctx statement (abs_arguments h b) w = ((abs_result h' res, handled, e), w')
           \<and> flat_result h' res \<and> length h \<le> length h'
           \<and> (\<forall>a < length h. a \<notin> arguments_refs h b \<longrightarrow> lookup h' a = lookup h a)))"

lemma flat_clone: "flat v \<Longrightarrow> flat (fst (store_cloneDriverValue v h))"
  by (cases v) (simp_all add: alloc_def Let_def)

lemma flat_cloneEach:
  "list_all flat vs \<Longrightarrow> list_all flat (fst (store_cloneEach store_cloneDriverValue vs h))"
  by (induction vs arbitrary: h) (auto simp: Let_def split_def flat_clone)

lemma flat_cloneArguments:
  assumes "flat_arguments h b" and "store_cloneArguments b h = (b', h')"
  shows "flat_arguments h' b'"
proof -
  obtain vs h1 where vs: "store_cloneEach store_cloneDriverValue (anys_at h b) h = (vs, h1)" by force
  have b': "b' = Some (Slice (length h1) 0 (length vs))" "h' = h1 @ [OAnys vs]"
    using assms(2) vs by (simp_all add: store_cloneArguments_def alloc_def)
  have "list_all flat vs"
    using flat_cloneEach [of "anys_at h b" h] assms(1) vs by (simp add: flat_arguments_def)
  moreover have "anys_at h' b' = vs" by (simp add: anys_at_def b')
  ultimately show ?thesis
    using arguments.fresh [OF assms] by (auto simp: flat_arguments_def)
qed

lemma flat_arguments_frame:
  assumes "flat_arguments h b" and "\<And>a. a < length h \<Longrightarrow> lookup h' a = lookup h a" and "length h \<le> length h'"
  shows "flat_arguments h' b" and "abs_arguments h' b = abs_arguments h b"
proof -
  have "lookup h' a = lookup h a" if "a \<in> arguments_refs h b" for a
    using assms(2) arguments.inside [OF assms(1)] that by auto
  note same = abs_arguments_frame [OF this]
  show "abs_arguments h' b = abs_arguments h b" by (rule same(1))
  show "flat_arguments h' b"
    using assms(1,3) by (auto simp: flat_arguments_def same)
qed

lemma store_handledResult_refines:
  assumes "flat_result h res" and "store_handledResult pq statement res h = (res', h')"
  shows "abs_result h' res' = handledResult pq statement (abs_result h res)" and "prefix h h'"
proof -
  obtain copied where copied: "store_cloneResult res h = (copied, h')"
    using assms(2) by (auto simp: store_handledResult_def Let_def split: prod.splits)
  show "prefix h h'" using copied by (rule results.allocates)
  have "abs_result h' copied = cloneResult (abs_result h res)"
    using assms(1) copied by (rule results.copies)
  moreover have "hRows res = None \<longleftrightarrow> hRows copied = None"
    using copied by (auto simp: store_cloneResult_def Let_def split: option.splits prod.splits)
  moreover have "res' = (let counted = (if hRows res \<noteq> None
        then copied\<lparr>hRowCount := of_nat (case hRows copied of None \<Rightarrow> 0 | Some s \<Rightarrow> length (rows_at h' s))\<rparr>
        else copied) in if hCommand counted = '''' then counted\<lparr>hCommand := statementCommand pq statement\<rparr> else counted)"
    using assms(2) copied by (simp add: store_handledResult_def Let_def)
  ultimately show "abs_result h' res' = handledResult pq statement (abs_result h res)"
    by (cases "hRows copied")
      (auto simp: handledResult_def Let_def abs_result_def result_rows_def dest: sym)
qed

lemma store_run_entries_refines:
  assumes "behaves_like call env"
  shows "flat_arguments h b \<Longrightarrow>
    store_run_entries (parser env) call ctx statement b es w h = ((res, handled, e), w', h') \<Longrightarrow>
    run_entries env ctx statement (abs_arguments h b) es w = ((abs_result h' res, handled, e), w')
    \<and> abs_arguments h' b = abs_arguments h b"
proof (induction es arbitrary: w h)
  case Nil
  then show ?case by (auto simp: abs_result_def zero_hresult_def zero_result_def)
next
  case (Cons entry rest)
  obtain b1 h1 where b1: "store_cloneArguments b h = (b1, h1)" by force
  obtain r hd e1 w2 h2 where call: "call (interceptor entry) ctx statement b1 w h1 = ((r, hd, e1), w2, h2)"
    by (metis surj_pair)
  have flat1: "flat_arguments h1 b1" using Cons.prems(1) b1 by (rule flat_cloneArguments)
  have step: "call_interceptor env (interceptor entry) ctx statement (abs_arguments h1 b1) w
      = ((abs_result h2 r, hd, e1), w2)"
    and flat2: "flat_result h2 r" and len: "length h1 \<le> length h2"
    and kept: "\<And>a. a < length h1 \<Longrightarrow> a \<notin> arguments_refs h1 b1 \<Longrightarrow> lookup h2 a = lookup h1 a"
    using assms [unfolded behaves_like_def, rule_format, OF flat1, of "interceptor entry" ctx statement w] call
    by auto
  have p: "prefix h h1" using b1 by (rule arguments.allocates)
  have same: "lookup h2 a = lookup h a" if "a < length h" for a
    using that kept [of a] arguments.fresh [OF Cons.prems(1) b1] lookup_prefix [OF p that]
      prefix_length_le [OF p] by fastforce
  have args: "abs_arguments h1 b1 = cloneArguments (abs_arguments h b)"
    using Cons.prems(1) b1 by (rule arguments.copies)
  have len2: "length h \<le> length h2" using len prefix_length_le [OF p] by linarith
  note args2 = flat_arguments_frame [OF Cons.prems(1) same len2]
  show ?case
  proof (cases "e1 = None \<and> \<not> hd")
    case True
    with Cons.prems(2) b1 call
    have "store_run_entries (parser env) call ctx statement b rest w2 h2 = ((res, handled, e), w', h')" by simp
    from Cons.IH [OF args2(1) this] True step args args2(2) show ?thesis by simp
  next
    case False
    show ?thesis
    proof (cases e1)
      case (Some x)
      with Cons.prems(2) b1 call step args args2(2) show ?thesis
        by (auto simp: abs_result_def zero_hresult_def zero_result_def)
    next
      case None
      obtain r' h3 where r': "store_handledResult (parser env) statement r h2 = (r', h3)" by force
      note result = store_handledResult_refines [OF flat2 r']
      have "abs_arguments h3 b = abs_arguments h2 b"
        by (rule flat_arguments_frame(2) [OF args2(1)])
          (auto intro: lookup_prefix [OF result(2)] prefix_length_le [OF result(2)])
      with None False Cons.prems(2) b1 call step args args2(2) r' result(1) show ?thesis by auto
    qed
  qed
qed

section \<open>Properties\<close>

text \<open>
  C19: the interceptors of the other theories may be functions on values: whatever an
  interceptor writes to the memory it was given, the ones after it and the caller see the
  arguments as they were, and the result that is returned means what the interceptors on
  values return.
\<close>

theorem interceptors_keep_arguments:
  assumes "behaves_like call env" and "flat_arguments h b"
    and "store_run_entries (parser env) call ctx statement b es w h = ((res, handled, e), w', h')"
  shows "run_entries env ctx statement (abs_arguments h b) es w = ((abs_result h' res, handled, e), w')
    \<and> abs_arguments h' b = abs_arguments h b"
  using assms by (rule store_run_entries_refines)

text \<open>An interceptor that overwrites the bytes of its first argument and returns them as a row.\<close>

definition scribble :: "(string, 'w) hcall" where
  "scribble i ctx statement b w h = (case anys_at h b of
     HBytes (Some s) # vs \<Rightarrow> ((zero_hresult, i = ''answer'', None), w, h[arr s := OBytes ''xxxx''])
   | _ \<Rightarrow> ((zero_hresult, i = ''answer'', None), w, h))"

definition scribble_env :: "(string, example_state) env" where
  "scribble_env = example_env\<lparr>call_interceptor := \<lambda>i ctx st args w. ((zero_result, i = ''answer'', None), w)\<rparr>"

lemma scribble_behaves: "behaves_like scribble scribble_env"
proof -
  have zero: "abs_result h zero_hresult = zero_result" "flat_result h zero_hresult" for h
    by (simp_all add: abs_result_def zero_hresult_def zero_result_def flat_result_def result_refs_def)
  have "lookup (h[arr s := x]) a = lookup h a"
    if "anys_at h b = HBytes (Some s) # vs" "a \<notin> arguments_refs h b" for a h b s vs x
  proof -
    have "a \<noteq> arr s" using that by (auto simp: arguments_refs_def)
    then show ?thesis by (simp add: lookup_def)
  qed
  then show ?thesis
    unfolding behaves_like_def
    by (auto simp: scribble_def scribble_env_def zero split: list.split hvalue.split option.split)
qed

definition memory :: store where
  "memory = [OBytes ''blob'', OAnys [HBytes (Some (Slice 0 1 2)), HPlain (VInt64 7)],
     OMap [(''b'', HBytes (Some (Slice 0 0 4)))], ORows [Some 2]]"

theorem interceptors_keep_arguments_witness:
  "case store_run_entries (parser scribble_env) scribble Background ''SELECT'' (Some (Slice 1 0 2))
      [\<lparr>reg_id = 1, interceptor = ''pass''\<rparr>, \<lparr>reg_id = 2, interceptor = ''answer''\<rparr>] example_open memory of
     ((res, handled, e), w', h') \<Rightarrow>
       handled \<and> abs_arguments h' (Some (Slice 1 0 2)) = [VBytes (Some ''lo''), VInt64 7] \<and> memory \<noteq> h'"
proof -
  let ?run = "store_run_entries (parser scribble_env) scribble Background ''SELECT'' (Some (Slice 1 0 2))
      [\<lparr>reg_id = 1, interceptor = ''pass''\<rparr>, \<lparr>reg_id = 2, interceptor = ''answer''\<rparr>] example_open memory"
  obtain res handled e w' h' where run: "?run = ((res, handled, e), w', h')"
    by (metis surj_pair)
  have "flat_arguments memory (Some (Slice 1 0 2))"
    by (simp add: flat_arguments_def arguments_refs_def anys_at_def memory_def lookup_def window_def)
  from interceptors_keep_arguments [OF scribble_behaves this run]
  have "abs_arguments h' (Some (Slice 1 0 2)) = abs_arguments memory (Some (Slice 1 0 2))" ..
  moreover have "abs_arguments memory (Some (Slice 1 0 2)) = [VBytes (Some ''lo''), VInt64 7]" by code_simp
  moreover have "fst (snd (fst ?run))" and "snd (snd ?run) \<noteq> memory" by code_simp+
  ultimately show ?thesis unfolding run by auto
qed

text \<open>
  C20: copies are isolated: the copies that an interceptor, the caller of an intercepted
  query or a backup receives mean what was copied, and keep meaning it whatever is later
  written to any other object, by whoever holds references to the original; and nothing
  written to the objects of a copy, or to objects allocated later, changes the original.
\<close>

theorem copies_isolated:
  assumes "flat_arguments h b" and "store_cloneArguments b h = (b', hb)"
    and "flat_result h res" and "store_cloneResult res h = (res', hr)"
    and "image_refs i \<subseteq> {..<length h}" and "store_cloneBytes i h = (i', hi)"
  shows "(\<forall>ws e. fst ` set ws \<inter> {length h..<length hb} = {} \<longrightarrow>
         abs_arguments (mutate ws (hb @ e)) b' = cloneArguments (abs_arguments h b))
     \<and> (\<forall>ws e. fst ` set ws \<inter> {length h..<length hr} = {} \<longrightarrow>
         abs_result (mutate ws (hr @ e)) res' = cloneResult (abs_result h res))
     \<and> (\<forall>ws e. fst ` set ws \<inter> {length h..<length hi} = {} \<longrightarrow>
         abs_image (mutate ws (hi @ e)) i' = cloneBytes (abs_image h i))
     \<and> (\<forall>ws e. fst ` set ws \<subseteq> {length h..} \<longrightarrow>
         abs_arguments (mutate ws (hb @ e)) b = abs_arguments h b
       \<and> abs_result (mutate ws (hr @ e)) res = abs_result h res
       \<and> abs_image (mutate ws (hi @ e)) i = abs_image h i)"
  using arguments.copies [OF assms(1,2)] arguments.copy_isolated [OF assms(1,2)]
    results.copies [OF assms(3,4)] results.copy_isolated [OF assms(3,4)]
    images.copies [OF assms(5,6)] images.copy_isolated [OF assms(5,6)]
  by (simp add: arguments.original_isolated [OF assms(1,2)] results.original_isolated [OF assms(3,4)]
      images.original_isolated [OF assms(5,6)])

text \<open>The bytes are overwritten after they have been copied as arguments, in a row and as an image.\<close>

theorem copies_isolated_witness:
  "(let (b', hb) = store_cloneArguments (Some (Slice 1 0 2)) memory in
      abs_arguments (mutate [(0, OBytes ''xxxx''), (1, OAnys [])] hb) b' = [VBytes (Some ''lo''), VInt64 7])
   \<and> (let (res', hr) = store_cloneResult \<lparr>hRows = Some (Slice 3 0 1), hRowCount = 1, hCommand = ''SELECT''\<rparr> memory in
      Rows (abs_result (mutate [(0, OBytes ''xxxx''), (2, OMap [])] hr) res') = Some [[(''b'', VBytes (Some ''blob''))]])
   \<and> (let (i', hi) = store_cloneBytes (Some (Slice 0 0 4)) memory in
      abs_image (mutate [(0, OBytes ''xxxx'')] hi) i' = Some ''blob'')"
proof -
  let ?b = "Some (Slice 1 0 2)" and ?i = "Some (Slice 0 0 4)"
    and ?res = "\<lparr>hRows = Some (Slice 3 0 1), hRowCount = 1, hCommand = ''SELECT''\<rparr>"
  obtain b' hb where b': "store_cloneArguments ?b memory = (b', hb)" by force
  obtain res' hr where res': "store_cloneResult ?res memory = (res', hr)" by force
  obtain i' hi where i': "store_cloneBytes ?i memory = (i', hi)" by force
  have "flat_arguments memory ?b" and "flat_result memory ?res" and "image_refs ?i \<subseteq> {..<length memory}"
    by (simp_all add: flat_arguments_def arguments_refs_def anys_at_def memory_def lookup_def window_def
        flat_result_def result_refs_def rows_at_def flat_row_def row_refs_def map_at_def image_refs_def)
  note isolated = copies_isolated [OF this(1) b' this(2) res' this(3) i']
  have l: "length memory = 4" by (simp add: memory_def)
  have "abs_arguments (mutate [(0, OBytes ''xxxx''), (1, OAnys [])] (hb @ [])) b' = cloneArguments (abs_arguments memory ?b)"
    and "abs_result (mutate [(0, OBytes ''xxxx''), (2, OMap [])] (hr @ [])) res' = cloneResult (abs_result memory ?res)"
    and "abs_image (mutate [(0, OBytes ''xxxx'')] (hi @ [])) i' = cloneBytes (abs_image memory ?i)"
    by (rule isolated [THEN conjunct1, rule_format], simp add: l)
      (rule isolated [THEN conjunct2, THEN conjunct1, rule_format], simp add: l,
       rule isolated [THEN conjunct2, THEN conjunct2, THEN conjunct1, rule_format], simp add: l)
  moreover have "cloneArguments (abs_arguments memory ?b) = [VBytes (Some ''lo''), VInt64 7]"
    and "Rows (cloneResult (abs_result memory ?res)) = Some [[(''b'', VBytes (Some ''blob''))]]"
    and "cloneBytes (abs_image memory ?i) = Some ''blob''"
    by code_simp+
  ultimately show ?thesis unfolding b' res' i' by (simp del: mutate.simps)
qed

end
