(* ===== verification/Spec2Isabelle.thy ===== *)
theory Spec2Isabelle imports DatabaseCorrect DriverProperties BackupProperties LockProgress AdapterPipeline Aliasing
begin

text \<open>
  A verification of \<^verbatim>\<open>pgmem\<close>, an in-memory stand-in for PostgreSQL in Go: a database value
  owns one SQLite connection; SQL text is translated from the PostgreSQL dialect by rewriting
  its parse tree, registered Go functions are called through one dispatcher function that the
  engine knows, query interceptors may answer in the engine's place, and data can be backed
  up and restored.  Isabelle definitions carry the names of the Go code they model.

  \<^bold>\<open>The program and its theories.\<close>  Each component has a theory with its state and operations,
  and, where there is more to prove than a few lemmas, theories with its correctness.

  \<^item> \<^verbatim>\<open>Prelude\<close>: the functions of Go's \<^verbatim>\<open>strings\<close>, \<^verbatim>\<open>strconv\<close>, \<^verbatim>\<open>sort\<close> and \<^verbatim>\<open>fmt\<close> that the
    package calls, and lemmas on results and maps.  \<^verbatim>\<open>Fallible\<close>: steps that change a state
    and may fail, with early returns and deferred clean-ups, and what they leave as it was.
  \<^item> \<^verbatim>\<open>Errors\<close>: \<^verbatim>\<open>errors.go\<close> and the mapping to SQLSTATE of \<^verbatim>\<open>database.go\<close>; errors are values
    of a datatype with their chain of causes.
  \<^item> \<^verbatim>\<open>Values\<close>: rows, results, defensive copies and materialization (\<^verbatim>\<open>schema.go\<close>,
    \<^verbatim>\<open>intercept.go\<close>) and the normalization of function results (\<^verbatim>\<open>function.go\<close>).
  \<^item> \<^verbatim>\<open>Quoting\<close>: \<^verbatim>\<open>quoteIdentifier\<close>, \<^verbatim>\<open>quoteStringLiteral\<close> and the schema name pattern, with
    the contract of a quoting function as the locale \<^verbatim>\<open>quoting\<close>, interpreted for both.
  \<^item> \<^verbatim>\<open>ProtoTree\<close>, \<^verbatim>\<open>Translator\<close>, \<^verbatim>\<open>TranslatorCorrect\<close>: protocol buffer messages as trees, and
    \<^verbatim>\<open>translator.go\<close>, the rewriting of the parse tree.
  \<^item> \<^verbatim>\<open>Functions\<close>, \<^verbatim>\<open>FunctionsCorrect\<close>: \<^verbatim>\<open>function.go\<close>, the registry of overloads (locale
    \<^verbatim>\<open>overload_registry\<close>), the rewriting of calls (locale \<^verbatim>\<open>tree_pass\<close>) and the dispatcher.
  \<^item> \<^verbatim>\<open>State\<close>: the state of a database (\<^verbatim>\<open>DB\<close>) and the operations of the SQL engine and of
    callbacks, parameters that transform the whole state.
  \<^item> \<^verbatim>\<open>Intercept\<close>: \<^verbatim>\<open>intercept.go\<close> (locale \<^verbatim>\<open>registrations\<close>).
  \<^item> \<^verbatim>\<open>SchemaExec\<close>, \<^verbatim>\<open>SchemaExecCorrect\<close>: \<^verbatim>\<open>schema.go\<close>, statements and scripts.
  \<^item> \<^verbatim>\<open>Tables\<close>: \<^verbatim>\<open>table.go\<close>, \<^verbatim>\<open>Insert\<close> and \<^verbatim>\<open>Find\<close>.
  \<^item> \<^verbatim>\<open>Database\<close>, \<^verbatim>\<open>DatabaseCorrect\<close>: \<^verbatim>\<open>database.go\<close> and \<^verbatim>\<open>options.go\<close>, schemas and their
    creation, opening and closing, and a process with several databases, the sequence of
    their connections and the map the dispatcher looks databases up in.
  \<^item> \<^verbatim>\<open>Driver\<close>, \<^verbatim>\<open>DriverCorrect\<close>, \<^verbatim>\<open>DriverProperties\<close>: \<^verbatim>\<open>driver.go\<close>, the \<^verbatim>\<open>database/sql\<close>
    adapter as a state machine over connections and transactions that refer to each other.
  \<^item> \<^verbatim>\<open>Backup\<close>, \<^verbatim>\<open>BackupCorrect\<close>, \<^verbatim>\<open>BackupResources\<close>, \<^verbatim>\<open>BackupRoundtrip\<close>,
    \<^verbatim>\<open>BackupProperties\<close>: \<^verbatim>\<open>backup.go\<close>.
  \<^item> \<^verbatim>\<open>TreeTypes\<close>: the typing of parse trees by message declarations, kept by the translator
    and by the routing of calls.  \<^verbatim>\<open>Pipeline\<close>, \<^verbatim>\<open>AdapterPipeline\<close>: translator, routing and
    execution together, from the caller's statement to the text the engine sees, through a
    schema and through the adapter.
  \<^item> \<^verbatim>\<open>Aliasing\<close>: the copying functions and the loop over the interceptors on a store of arrays
    and maps with references; the contract of a deep copy is the locale \<^verbatim>\<open>deep_copy\<close>,
    interpreted for values, rows, arguments, results and images.
  \<^item> \<^verbatim>\<open>Locks\<close>, \<^verbatim>\<open>LockProgress\<close>: the locks the operations acquire, in their order, the waits a
    context ends, and the interleavings of operations that run at the same time.

  \<^bold>\<open>State and environment.\<close>  A pointer to a \<^verbatim>\<open>Schema\<close> is its name; the connections and
  transactions of the adapter are positions in two lists.  What is outside the package, the
  parser and deparser, the engine behind \<^verbatim>\<open>database/sql\<close>, files and the user's callbacks, is a
  record of functions passed to the operations, and a context is what its \<^verbatim>\<open>Err()\<close> answers in a
  state, so that it can end between any two calls.  Where a theorem relies on how the engine
  behaves, this is a named predicate on the record: \<^verbatim>\<open>transactional\<close>, \<^verbatim>\<open>atomic_statements\<close>,
  \<^verbatim>\<open>data_neutral\<close> (scripts), \<^verbatim>\<open>pinning\<close>, \<^verbatim>\<open>pinned_transactional\<close> (adapter),
  \<^verbatim>\<open>quiet_storage\<close>, \<^verbatim>\<open>accounting\<close>, \<^verbatim>\<open>snapshotting\<close> (backups); of the parser, \<^verbatim>\<open>declares\<close>,
  \<^verbatim>\<open>constants_typed\<close> (types) and \<^verbatim>\<open>parser_laws\<close> (text that was written reads back with the same
  relations and calls); of interceptors on the store, \<^verbatim>\<open>behaves_like\<close>.  Each holds of an
  executable example in the same theory, on which the theorem is instantiated.

  \<^bold>\<open>What is shown.\<close>  Translation keeps the meaning of references and the types of trees and
  leaves no PostgreSQL spelling; calls are routed exactly, and user SQL cannot reach the
  dispatcher itself; put together, the engine sees no text in which a relation is left
  unqualified or a dispatcher call was not written by the package (but the names of a
  \<^verbatim>\<open>DROP TABLE\<close> are not relations of the tree, and are not qualified); quoting
  is exact; scripts, adapter transactions and restores are all or nothing; a restore brings
  back what the backup found, detects changed schemas, and gives back every connection; adapter
  connections and transactions stay paired and end once; interceptors decide in order of
  registration, and neither they nor later writes to shared memory change what was copied;
  closing is final, and closed databases and ended contexts are rejected before the engine is
  touched (below); operations other than backups and restores never deadlock, while a backup,
  a transaction and a close can, until the context of the backup ends.

  \<^bold>\<open>Bounds and fuel.\<close>  The tree rewritings terminate by the size of the message.  The loop
  that reads adapter rows has fuel, for which one more than the number of rows is proved to
  be enough.  Integers of the code are words of their width: registration numbers and the
  sequence numbers of databases and restores wrap around, and the theorems that need distinct
  numbers bound the number of objects by \<open>2 ^ 64\<close>.

  \<^bold>\<open>Not modelled.\<close>  Bytes beyond ASCII have no case and are no white space, and \<^verbatim>\<open>%q\<close> escapes
  only quotes and backslashes.  Sharing outside \<^verbatim>\<open>Aliasing\<close>, where byte slices are their
  contents; there a value that is neither a byte slice nor a \<^verbatim>\<open>sql.NamedArg\<close> carries no
  references, and the isolation theorems are about arguments that are not named ones, whose
  bytes the code does not copy.  What callers do with the pool that \<^verbatim>\<open>SQLDB\<close> hands out.
  Interleavings inside the functional models: concurrency is treated in \<^verbatim>\<open>Locks\<close>, where
  operations are the locks they use; an operation of the adapter is a single step elsewhere
  because it holds the mutex of its connection, for which nothing competes as long as a
  driver connection is used by one goroutine at a time, as \<^verbatim>\<open>database/sql\<close> documents.  The
  waiting of \<^verbatim>\<open>database/sql\<close>'s own pool on an adapter.  Package documentation, tests, imports,
  the registration of the dispatcher with the engine and the compile-time interface
  assertions.
\<close>

section \<open>The gate before the engine\<close>


end
